theory Spec2Isabelle
  imports Complex_Main "HOL-Library.Word"
begin

unbundle bit_operations_syntax

section \<open>Semantic strings: \<open>semantic_to_builtin\<close> (effect_parser.cpp, lines 21-38)\<close>

text \<open>
  The members of \<open>spv::BuiltIn\<close> that the parser names. \<open>BuiltInMax\<close> is the value the
  callers read as "no built-in: decorate with \<open>Location = semantic_index\<close>".
\<close>

datatype BuiltIn =
  BuiltInPosition | BuiltInPointSize | BuiltInFragDepth | BuiltInVertexId | BuiltInMax

text \<open>The two exceptions \<open>std::stol\<close> throws; nothing in the parser catches them.\<close>

datatype cxx_exception = invalid_argument | out_of_range

text \<open>
  \<open>::toupper\<close>, \<open>isspace\<close> and \<open>isdigit\<close> of the "C" locale: the 26 lower-case letters
  map to their upper-case letters and every other byte to itself; white space is the
  blank and the control characters 9 to 13; the digits are \<open>0\<close> to \<open>9\<close>.
\<close>

definition toupper :: "char \<Rightarrow> char" where
  "toupper c =
     (case map_of (zip ''abcdefghijklmnopqrstuvwxyz'' ''ABCDEFGHIJKLMNOPQRSTUVWXYZ'') c of
        Some u \<Rightarrow> u
      | None \<Rightarrow> c)"

definition isspace :: "char \<Rightarrow> bool" where
  "isspace c \<longleftrightarrow> c \<in> set [CHR 0x20, CHR 0x09, CHR 0x0A, CHR 0x0B, CHR 0x0C, CHR 0x0D]"

definition isdigit :: "char \<Rightarrow> bool" where
  "isdigit c \<longleftrightarrow> c \<in> set ''0123456789''"

definition digits_value :: "string \<Rightarrow> nat" where
  "digits_value ds = foldl (\<lambda>a c. 10 * a + ((of_char c :: nat) - 48)) 0 ds"

text \<open>
  \<open>std::stol(str)\<close> (base 10, no position out-parameter): \<open>strtol\<close> skips leading white
  space, reads an optional sign and the longest run of decimal digits; \<open>stol\<close> throws
  \<open>invalid_argument\<close> when there is no digit and \<open>out_of_range\<close> when the value does not
  fit a \<open>long\<close>. The width of \<open>long\<close> depends on the ABI (32 bits with MSVC, 64 on LP64),
  so it is the parameter \<open>long_bits\<close>.
\<close>

definition stol :: "nat \<Rightarrow> string \<Rightarrow> cxx_exception + int" where
  "stol long_bits str =
     (let s1 = dropWhile isspace str;
          neg = (s1 \<noteq> [] \<and> hd s1 = CHR ''-'');
          s2 = (if s1 \<noteq> [] \<and> (hd s1 = CHR ''-'' \<or> hd s1 = CHR ''+'') then tl s1 else s1);
          ds = takeWhile isdigit s2;
          v = (if neg then - int (digits_value ds) else int (digits_value ds))
      in if ds = [] then Inl invalid_argument
         else if v < - (2 ^ (long_bits - 1)) \<or> 2 ^ (long_bits - 1) - 1 < v then Inl out_of_range
         else Inr v)"

text \<open>
  \<open>index = std::stol(...)\<close> converts the \<open>long\<close> to \<open>unsigned int\<close>: the value modulo
  \<open>2 ^ 32\<close>. An exception leaves the function before the assignment.
\<close>

definition assign_stol :: "nat \<Rightarrow> string \<Rightarrow> cxx_exception + 32 word" where
  "assign_stol long_bits str =
     (case stol long_bits str of Inl e \<Rightarrow> Inl e | Inr v \<Rightarrow> Inr (word_of_int v))"

text \<open>
  \<open>semantic_to_builtin(std::string &semantic, unsigned int &index)\<close>. Both arguments are
  references: the function upper-cases the caller's string in place and writes \<open>index\<close>
  only in the two prefix branches. The model returns the built-in together with the
  string and the index as the caller finds them afterwards, or the exception thrown.
\<close>

definition semantic_to_builtin ::
  "nat \<Rightarrow> string \<Rightarrow> 32 word \<Rightarrow> cxx_exception + (BuiltIn \<times> string \<times> 32 word)" where
  "semantic_to_builtin long_bits semantic0 index0 =
     (let semantic = map toupper semantic0 in
      if semantic = ''SV_POSITION'' then Inr (BuiltInPosition, semantic, index0)
      else if semantic = ''SV_POINTSIZE'' then Inr (BuiltInPointSize, semantic, index0)
      else if semantic = ''SV_DEPTH'' then Inr (BuiltInFragDepth, semantic, index0)
      else if semantic = ''VERTEXID'' \<or> semantic = ''SV_VERTEXID''
        then Inr (BuiltInVertexId, semantic, index0)
      else
        (case (if 9 < length semantic \<and> take 9 semantic = ''SV_TARGET''
               then assign_stol long_bits (drop 9 semantic) else Inr index0) of
           Inl e \<Rightarrow> Inl e
         | Inr index1 \<Rightarrow>
             (case (if 8 < length semantic \<and> take 8 semantic = ''TEXCOORD''
                    then assign_stol long_bits (drop 8 semantic) else Inr index1) of
                Inl e \<Rightarrow> Inl e
              | Inr index2 \<Rightarrow> Inr (BuiltInMax, semantic, index2))))"

text \<open>The names the function maps to a built-in, after case folding.\<close>

definition builtin_names :: "string list" where
  "builtin_names = [''SV_POSITION'', ''SV_POINTSIZE'', ''SV_DEPTH'', ''VERTEXID'', ''SV_VERTEXID'']"

text \<open>
  The remainder of a case-folded name behind one of the two prefixes that carry an index
  (\<open>SV_TARGET\<close>, \<open>TEXCOORD\<close>), when at least one character follows the prefix.
\<close>

definition indexed_suffix :: "string \<Rightarrow> string option" where
  "indexed_suffix s =
     (if 9 < length s \<and> take 9 s = ''SV_TARGET'' then Some (drop 9 s)
      else if 8 < length s \<and> take 8 s = ''TEXCOORD'' then Some (drop 8 s)
      else None)"


section \<open>Types, constants and instructions\<close>

text \<open>
  The type descriptor \<open>spv_type\<close>. Its declaration is in the parser's header; the fields
  and their order are those of the aggregate initialisers in effect_parser.cpp, for
  example \<open>{ datatype_struct, 0, 0, qualifier_uniform, true, false, false, 0, id }\<close> in
  \<open>run\<close>. The qualifiers are a bit set in the source; here they are a set of qualifier
  names, so \<open>has(q)\<close> is membership, \<open>|\<close> is insertion and \<open>& ~q\<close> is removal.
\<close>

datatype datatype_base =
  datatype_void | datatype_bool | datatype_int | datatype_uint | datatype_float
  | datatype_string | datatype_struct | datatype_texture | datatype_sampler | datatype_function

datatype qualifier =
  qualifier_extern | qualifier_static | qualifier_uniform | qualifier_volatile
  | qualifier_precise | qualifier_in | qualifier_out | qualifier_const | qualifier_linear
  | qualifier_noperspective | qualifier_centroid | qualifier_nointerpolation

record spv_type =
  base :: datatype_base
  rows :: nat
  cols :: nat
  qualifiers :: "qualifier set"
  is_pointer :: bool
  is_input :: bool
  is_output :: bool
  array_length :: int
  definition_id :: nat

definition has :: "spv_type \<Rightarrow> qualifier \<Rightarrow> bool" where
  "has t q \<longleftrightarrow> q \<in> qualifiers t"

text \<open>
  Modelled from the spec: the structural predicates of \<open>spv_type\<close> (declared in the
  header), after sections 3.1 and 4.1: the numeric bases are bool, int, uint and float;
  an array has a non-zero \<open>array_length\<close>; scalars have \<open>rows = cols = 1\<close>; vectors have
  \<open>cols = 1\<close> and \<open>rows > 1\<close>; matrices have more than one column.
\<close>

definition is_numeric :: "spv_type \<Rightarrow> bool" where
  "is_numeric t \<longleftrightarrow> base t \<in> {datatype_bool, datatype_int, datatype_uint, datatype_float}"

definition is_boolean :: "spv_type \<Rightarrow> bool" where
  "is_boolean t \<longleftrightarrow> base t = datatype_bool"

definition is_texture :: "spv_type \<Rightarrow> bool" where
  "is_texture t \<longleftrightarrow> base t = datatype_texture"

definition is_sampler :: "spv_type \<Rightarrow> bool" where
  "is_sampler t \<longleftrightarrow> base t = datatype_sampler"

definition is_array :: "spv_type \<Rightarrow> bool" where
  "is_array t \<longleftrightarrow> array_length t \<noteq> 0"

definition is_vector :: "spv_type \<Rightarrow> bool" where
  "is_vector t \<longleftrightarrow> is_numeric t \<and> 1 < rows t \<and> cols t = 1"

definition is_matrix :: "spv_type \<Rightarrow> bool" where
  "is_matrix t \<longleftrightarrow> is_numeric t \<and> 1 \<le> rows t \<and> 1 < cols t"

definition is_scalar :: "spv_type \<Rightarrow> bool" where
  "is_scalar t \<longleftrightarrow> is_numeric t \<and> \<not> is_array t \<and> \<not> is_vector t \<and> \<not> is_matrix t"

text \<open>
  The constant union \<open>spv_constant\<close>: sixteen 32-bit lanes that the source reads as
  \<open>as_uint\<close>, \<open>as_int\<close> or \<open>as_float\<close> (one storage, three views), a string and the nested
  constants of an array. The lanes are kept as their bit patterns.
\<close>

datatype spv_constant =
  Constant (as_uint: "32 word list") (string_data: string) (array_data: "spv_constant list")

text \<open>The value-initialised constant \<open>spv_constant c = {}\<close>: every lane zero.\<close>

definition zero_constant :: spv_constant where
  "zero_constant = Constant (replicate 16 0) [] []"

text \<open>The opcodes of \<open>spv::Op\<close> that the embedded code names.\<close>

datatype Op =
  OpNop | OpFunction | OpFunctionCall | OpVariable | OpConstant | OpTypeStruct | OpExtInst
  | OpImageSampleImplicitLod | OpImageSampleExplicitLod
  | OpLabel | OpSelectionMerge | OpBranch | OpBranchConditional | OpSwitch
  | OpKill | OpReturn | OpReturnValue
  | OpLogicalEqual | OpLogicalNotEqual | OpIEqual | OpINotEqual | OpFOrdEqual | OpFOrdNotEqual
  | OpLogicalAnd | OpLogicalOr | OpBitwiseAnd | OpBitwiseOr | OpBitwiseXor
  | OpIAdd | OpISub | OpIMul | OpULessThan | OpSLessThan
  | OpSRem | OpUMod | OpFRem | OpFMul | OpFAdd | OpFSub | OpSDiv | OpUDiv | OpFDiv
  | OpShiftLeftLogical | OpShiftRightArithmetic | OpShiftRightLogical
  | OpOther nat

datatype Decoration = DecorationBlock | DecorationDescriptorSet | DecorationOffset

datatype StorageClass =
  StorageClassUniformConstant | StorageClassInput | StorageClassUniform | StorageClassOutput
  | StorageClassPrivate | StorageClassFunction

record location =
  source :: string
  line :: nat
  column :: nat

text \<open>
  An instruction of a basic block: opcode, result type id, result id (0 when the
  instruction has none) and the operand words, in the order \<open>add\<close> appended them.
\<close>

record spv_instruction =
  op :: Op
  result_type :: nat
  result :: nat
  operands :: "nat list"
  ins_location :: location

type_synonym spv_basic_block = "spv_instruction list"

record spv_struct_member_info =
  member_name :: string
  member_type :: spv_type
  member_builtin :: BuiltIn
  semantic_index :: "32 word"

section \<open>Constant folding of \<open>==\<close> and \<open>!=\<close> (parse_expression_multary, lines 1446-1460 and 1656-1671)\<close>

text \<open>
  The comparison \<open>lhs.constant.as_float[i] == rhs.constant.as_float[i]\<close> of two IEEE-754
  binary32 lanes, on their bit patterns: a NaN (exponent all ones, non-zero fraction)
  equals nothing, the two zeros equal each other, every other value equals itself only.
\<close>

definition float_is_nan :: "32 word \<Rightarrow> bool" where
  "float_is_nan w \<longleftrightarrow> w AND 0x7F800000 = 0x7F800000 \<and> w AND 0x007FFFFF \<noteq> 0"

definition float_is_zero :: "32 word \<Rightarrow> bool" where
  "float_is_zero w \<longleftrightarrow> w AND 0x7FFFFFFF = 0"

definition float_eq :: "32 word \<Rightarrow> 32 word \<Rightarrow> bool" where
  "float_eq a b \<longleftrightarrow>
     \<not> float_is_nan a \<and> \<not> float_is_nan b \<and> (a = b \<or> (float_is_zero a \<and> float_is_zero b))"

text \<open>
  The operator selection of lines 1449-1460. \<open>integral\<close> and \<open>floating\<close> are
  \<open>type.is_integral()\<close> and \<open>type.is_floating_point()\<close> of the merged type (both declared
  in the header).
\<close>

definition select_equality_op :: "Op \<Rightarrow> bool \<Rightarrow> bool \<Rightarrow> Op" where
  "select_equality_op opc integral floating =
     (if integral \<or> floating then
        (case opc of
           OpLogicalEqual \<Rightarrow> (if integral then OpIEqual else OpFOrdEqual)
         | OpLogicalNotEqual \<Rightarrow> (if integral then OpINotEqual else OpFOrdNotEqual)
         | _ \<Rightarrow> opc)
      else opc)"

text \<open>
  One loop \<open>for (i = 0; i < type.components(); ++i) constant_data.as_uint[i] = f i\<close>.
  A numeric type has at most sixteen components, the length of the lane array.
\<close>

definition write_lanes :: "nat \<Rightarrow> (nat \<Rightarrow> 32 word) \<Rightarrow> 32 word list \<Rightarrow> 32 word list" where
  "write_lanes n f constant_data = fold (\<lambda>i d. d[i := f i]) [0..<n] constant_data"

definition of_bool32 :: "bool \<Rightarrow> 32 word" where
  "of_bool32 b = (if b then 1 else 0)"

text \<open>
  The \<open>switch (op)\<close> of the folding branch (both operands constant), for the comparison
  and the wrapping integer cases; \<open>constant_data\<close> starts as a copy of \<open>lhs.constant\<close>.
  The cases \<open>OpFOrdEqual\<close> and \<open>OpFOrdNotEqual\<close> have no \<open>break\<close>: after their own loop
  control runs on into the loop of the integer case below them. The cases that compute
  with floating-point arithmetic, division or shifts are not embedded: \<open>None\<close>.
\<close>

definition fold_constant_lanes ::
  "Op \<Rightarrow> nat \<Rightarrow> 32 word list \<Rightarrow> 32 word list \<Rightarrow> 32 word list option" where
  "fold_constant_lanes opc n lhs rhs =
     (let constant_data = lhs;
          uint_equal = write_lanes n (\<lambda>i. of_bool32 (lhs ! i = rhs ! i));
          uint_not_equal = write_lanes n (\<lambda>i. of_bool32 (lhs ! i \<noteq> rhs ! i))
      in case opc of
           OpIMul \<Rightarrow> Some (write_lanes n (\<lambda>i. lhs ! i * rhs ! i) constant_data)
         | OpIAdd \<Rightarrow> Some (write_lanes n (\<lambda>i. lhs ! i + rhs ! i) constant_data)
         | OpISub \<Rightarrow> Some (write_lanes n (\<lambda>i. lhs ! i - rhs ! i) constant_data)
         | OpLogicalAnd \<Rightarrow> Some (write_lanes n (\<lambda>i. lhs ! i AND rhs ! i) constant_data)
         | OpBitwiseAnd \<Rightarrow> Some (write_lanes n (\<lambda>i. lhs ! i AND rhs ! i) constant_data)
         | OpLogicalOr \<Rightarrow> Some (write_lanes n (\<lambda>i. lhs ! i OR rhs ! i) constant_data)
         | OpBitwiseOr \<Rightarrow> Some (write_lanes n (\<lambda>i. lhs ! i OR rhs ! i) constant_data)
         | OpBitwiseXor \<Rightarrow> Some (write_lanes n (\<lambda>i. lhs ! i XOR rhs ! i) constant_data)
         | OpSLessThan \<Rightarrow>
             Some (write_lanes n (\<lambda>i. of_bool32 (sint (lhs ! i) < sint (rhs ! i))) constant_data)
         | OpULessThan \<Rightarrow>
             Some (write_lanes n (\<lambda>i. of_bool32 (lhs ! i < rhs ! i)) constant_data)
         | OpFOrdEqual \<Rightarrow>
             Some (uint_equal
                    (write_lanes n (\<lambda>i. of_bool32 (float_eq (lhs ! i) (rhs ! i))) constant_data))
         | OpIEqual \<Rightarrow> Some (uint_equal constant_data)
         | OpLogicalEqual \<Rightarrow> Some (uint_equal constant_data)
         | OpFOrdNotEqual \<Rightarrow>
             Some (uint_not_equal
                    (write_lanes n (\<lambda>i. of_bool32 (\<not> float_eq (lhs ! i) (rhs ! i))) constant_data))
         | OpINotEqual \<Rightarrow> Some (uint_not_equal constant_data)
         | OpLogicalNotEqual \<Rightarrow> Some (uint_not_equal constant_data)
         | _ \<Rightarrow> None)"

text \<open>
  What the claim asks of the fold: every one of the first \<open>n\<close> lanes holds the result
  of the float-ordered comparison of the operands' lanes.
\<close>

definition float_ordered_equal_lanes :: "nat \<Rightarrow> 32 word list \<Rightarrow> 32 word list \<Rightarrow> 32 word list \<Rightarrow> bool" where
  "float_ordered_equal_lanes n lhs rhs res \<longleftrightarrow>
     list_all (\<lambda>i. res ! i = of_bool32 (float_eq (lhs ! i) (rhs ! i))) [0..<n]"

text \<open>The scalar float constants \<open>-0.0\<close> (sign bit only) and \<open>0.0\<close>.\<close>

definition float_minus_zero :: "32 word list" where
  "float_minus_zero = 0x80000000 # replicate 15 0"

definition float_plus_zero :: "32 word list" where
  "float_plus_zero = replicate 16 0"

section \<open>Parser state, diagnostics and token management (lines 83-163)\<close>

text \<open>
  The token ids the embedded code tests for. The enumeration itself is the lexer's;
  a single-character token is its character (\<open>accept('{')\<close>), here \<open>punct\<close>; every id
  the embedded code never names is an \<open>other_token\<close>. (\<open>tok_identifier\<close> is \<open>tokenid::identifier\<close>.)
\<close>

datatype tokenid =
  end_of_file | tok_identifier | tok_namespace | tok_struct | technique | pass
  | tok_if | tok_else | tok_switch | tok_case | tok_default | tok_for | tok_while | tok_do
  | tok_break | tok_continue | tok_return | tok_discard | colon_colon
  | percent_equal | ampersand_equal | star_equal | plus_equal | minus_equal | slash_equal
  | less_less_equal | greater_greater_equal | caret_equal | pipe_equal
  | punct char | other_token nat

record token =
  tok_id :: tokenid
  tok_location :: location
  literal_as_string :: string

text \<open>
  A diagnostic message is the concatenation the source builds; \<open>TokenName t\<close> stands for
  \<open>token::id_to_name(t)\<close>, a function of the lexer.
\<close>

datatype fragment = Text string | TokenName tokenid

text \<open>The apostrophe that the messages put around names.\<close>

definition quote :: fragment where
  "quote = Text [CHR 0x27]"

datatype severity = severity_error | severity_warning

text \<open>
  \<open>_errors\<close> is one string in the source; \<open>error\<close> and \<open>warning\<close> each append one line
  \<open><source>(<line>, <column>): <error|warning> X<code>: <message>\<close> to it. The model
  keeps the lines apart, one record for each, in the order they were appended.
\<close>

record diagnostic =
  diag_severity :: severity
  diag_location :: location
  diag_code :: nat
  diag_message :: "fragment list"

text \<open>
  The members of \<open>reshadefx::parser\<close> that the embedded functions read or write.
  \<open>lexer_rest\<close> is the input the lexer has not produced yet, as tokens; once it is
  empty the lexer answers \<open>end_of_file\<close> for ever. \<open>function_list\<close> is \<open>_functions\<close>, the
  \<open>spv_function_info\<close> objects the parser owns (the address of an object is never 0).
  \<open>member_names\<close>, \<open>member_decorations\<close>, \<open>decorations\<close> and \<open>module_writes\<close> record the
  calls of \<open>add_member_name\<close>, \<open>add_member_decoration\<close>, \<open>add_decoration\<close> and
  \<open>write_module\<close>, which are defined in the header; for \<open>write_module\<close> the record is the
  name of the file the stream was opened on.

  Modelled from the spec: the member \<open>_global_ubo_offset\<close> is declared in the header. The
  source hands it to \<open>add_member_decoration\<close> as the operand of the \<open>Offset\<close> decoration
  (line 2984), and the module is a stream of 32-bit words (sections 4.8 and 6.4): it is
  an unsigned 32-bit integer here.
\<close>

text \<open>
  What the embedded code reads of a \<open>spv_function_info\<close>: the object's address (the
  source compares such objects by pointer) and the return type.
\<close>

record spv_function_info =
  fi_address :: nat
  return_type :: spv_type

record parser =
  lexer_rest :: "token list"
  token_cur :: token
  token_next :: token
  errors :: "diagnostic list"
  next_id :: nat
  current_block :: nat
  current_function :: nat
  function_list :: "spv_function_info list"
  loop_break_target_stack :: "nat list"
  loop_continue_target_stack :: "nat list"
  global_ubo_type :: nat
  global_ubo_variable :: nat
  global_ubo_offset :: "32 word"
  uniforms_member_list :: "spv_struct_member_info list"
  member_names :: "(nat \<times> nat \<times> string) list"
  member_decorations :: "(nat \<times> nat \<times> Decoration \<times> nat list) list"
  decorations :: "(nat \<times> Decoration \<times> nat list) list"
  module_writes :: "string list"

text \<open>\<open>std::numeric_limits<size_t>::max()\<close>, the "no function" and "no member" mark.\<close>

definition size_t_max :: nat where
  "size_t_max = 2 ^ 64 - 1"

definition error :: "location \<Rightarrow> nat \<Rightarrow> fragment list \<Rightarrow> parser \<Rightarrow> parser" where
  "error loc code message p =
     p\<lparr>errors := errors p @
          [\<lparr>diag_severity = severity_error, diag_location = loc, diag_code = code,
            diag_message = message\<rparr>]\<rparr>"

definition warning :: "location \<Rightarrow> nat \<Rightarrow> fragment list \<Rightarrow> parser \<Rightarrow> parser" where
  "warning loc code message p =
     p\<lparr>errors := errors p @
          [\<lparr>diag_severity = severity_warning, diag_location = loc, diag_code = code,
            diag_message = message\<rparr>]\<rparr>"

text \<open>The token the lexer produces at the end of the input.\<close>

definition eof_token :: token where
  "eof_token = \<lparr>tok_id = end_of_file, tok_location = \<lparr>source = [], line = 0, column = 0\<rparr>,
                 literal_as_string = []\<rparr>"

definition peek :: "tokenid \<Rightarrow> parser \<Rightarrow> bool" where
  "peek tokid p \<longleftrightarrow> tok_id (token_next p) = tokid"

definition consume :: "parser \<Rightarrow> parser" where
  "consume p =
     (case lexer_rest p of
        [] \<Rightarrow> p\<lparr>token_cur := token_next p, token_next := eof_token\<rparr>
      | t # ts \<Rightarrow> p\<lparr>token_cur := token_next p, token_next := t, lexer_rest := ts\<rparr>)"

definition accept :: "tokenid \<Rightarrow> parser \<Rightarrow> bool \<times> parser" where
  "accept tokid p = (if peek tokid p then (True, consume p) else (False, p))"

definition expect :: "tokenid \<Rightarrow> parser \<Rightarrow> bool \<times> parser" where
  "expect tokid p =
     (case accept tokid p of
        (True, p') \<Rightarrow> (True, p')
      | (False, p') \<Rightarrow>
          (False,
           error (tok_location (token_next p')) 3000
             [Text ''syntax error: unexpected '', quote, TokenName (tok_id (token_next p')), quote,
              Text '', expected '', quote, TokenName tokid, quote] p'))"

text \<open>What is left to read: the measure under which the token loops end.\<close>

definition tokens_left :: "parser \<Rightarrow> nat" where
  "tokens_left p = length (lexer_rest p) + (if peek end_of_file p then 0 else 1)"

function consume_until :: "tokenid \<Rightarrow> parser \<Rightarrow> parser" where
  "consume_until tokid p =
     (case accept tokid p of
        (True, p') \<Rightarrow> p'
      | (False, p') \<Rightarrow> if peek end_of_file p' then p' else consume_until tokid (consume p'))"
  by pat_completeness auto
termination
  by (relation "measure (\<lambda>(tokid, p). tokens_left p)")
    (auto simp: tokens_left_def accept_def consume_def peek_def eof_token_def
          split: if_splits list.splits)

declare consume_until.simps [simp del]

text \<open>
  Modelled from the spec: \<open>make_id\<close> (defined in the header), after section 4.8: the
  builder "reserves monotonically increasing ids".
\<close>

definition make_id :: "parser \<Rightarrow> nat \<times> parser" where
  "make_id p = (next_id p, p\<lparr>next_id := next_id p + 1\<rparr>)"

text \<open>
  Modelled from the spec: \<open>add_node_without_result(section, location, op)\<close> followed by
  its \<open>add\<close> calls (header), after section 3.5: the instruction is appended to the
  section's ordered stream; it has no result id and no result type.
\<close>

definition add_node_without_result ::
  "spv_basic_block \<Rightarrow> location \<Rightarrow> Op \<Rightarrow> nat list \<Rightarrow> spv_basic_block" where
  "add_node_without_result sect loc opc args =
     sect @ [\<lparr>op = opc, result_type = 0, result = 0, operands = args, ins_location = loc\<rparr>]"

text \<open>The location of instructions built with \<open>{}\<close> for the location argument.\<close>

definition no_location :: location where
  "no_location = \<lparr>source = [], line = 0, column = 0\<rparr>"

section \<open>Uniform globals: \<open>align\<close> (lines 40-43) and the uniform branch of \<open>parse_variable\<close> (lines 2953-2986)\<close>

text \<open>
  \<open>align(uintptr_t address, size_t alignment)\<close>. Both types are unsigned integers of the
  width of a pointer, \<open>pb\<close> bits (32 or 64, after the target): the operands are below
  \<open>2 ^ pb\<close>, the sum \<open>address + alignment\<close> wraps at \<open>2 ^ pb\<close>, and the subtraction of
  the remainder, which is at most \<open>address\<close>, then gives the result modulo \<open>2 ^ pb\<close>. An
  \<open>alignment\<close> of zero is an integer division by zero in the source: \<open>None\<close>.
\<close>

definition align :: "nat \<Rightarrow> nat \<Rightarrow> nat \<Rightarrow> nat option" where
  "align pb address alignment =
     (if alignment = 0 then None
      else if address mod alignment \<noteq> 0
        then Some ((address + alignment - address mod alignment) mod 2 ^ pb)
      else Some address)"

text \<open>
  \<open>4 * (type.rows == 3 ? 4 : type.rows) * type.cols * std::max(1, type.array_length)\<close>,
  as a number; \<open>array_length\<close> is a signed \<open>int\<close> (-1 for an unsized array). The source
  forms the product in 32-bit arithmetic, on the members of \<open>spv_type\<close> that the header
  declares, and converts the result to \<open>size_t\<close>; below \<open>2 ^ 31\<close> the product is this
  number whichever of \<open>int\<close> and \<open>unsigned int\<close> it is formed in. (No array length that
  \<open>parse_array_size\<close> lets through, at most 65536, takes it that far.)
\<close>

definition uniform_size :: "spv_type \<Rightarrow> nat" where
  "uniform_size t = 4 * (if rows t = 3 then 4 else rows t) * cols t * nat (max 1 (array_length t))"

text \<open>A symbol table entry (\<open>symbol\<close>); \<open>sym_function\<close> is an address, 0 for \<open>nullptr\<close>.\<close>

record symbol =
  sym_op :: Op
  sym_id :: nat
  sym_type :: spv_type
  sym_function :: nat
  sym_constant :: spv_constant
  sym_member_index :: nat

text \<open>
  The branch \<open>else if (type.has(spv_type::qualifier_uniform))\<close> of \<open>parse_variable\<close>,
  lines 2955-2985: \<open>type\<close> and \<open>name\<close> are the declared type and name, \<open>builtin\<close> is
  \<open>info.builtin\<close>, \<open>pb\<close> is the width of \<open>size_t\<close> and \<open>uintptr_t\<close>. It returns the symbol
  it builds. \<open>member.semantic_index\<close> is left at its default, which the header gives; it
  is the parameter \<open>default_index\<close>. The running offset is widened to \<open>uintptr_t\<close> for
  \<open>align\<close>, the result is narrowed to the 32 bits of the member, and
  \<open>_global_ubo_offset += size\<close> wraps at \<open>2 ^ 32\<close>. The result is \<open>None\<close> when \<open>align\<close>
  divides by zero, and when the product of the size is \<open>2 ^ 31\<close> or more, where what the
  source computes depends on the header (a signed overflow, or a wrap).
\<close>

definition uniform_branch ::
  "nat \<Rightarrow> 32 word \<Rightarrow> spv_type \<Rightarrow> string \<Rightarrow> BuiltIn \<Rightarrow> parser \<Rightarrow> (symbol \<times> parser) option" where
  "uniform_branch pb default_index type0 name builtin p0 =
     (let p1 = (if global_ubo_type p0 = 0
                then (case make_id p0 of (i, q) \<Rightarrow> q\<lparr>global_ubo_type := i\<rparr>) else p0);
          p2 = (if global_ubo_variable p1 = 0
                then (case make_id p1 of (i, q) \<Rightarrow> q\<lparr>global_ubo_variable := i\<rparr>) else p1);
          type = (if is_boolean type0 then type0\<lparr>base := datatype_uint\<rparr> else type0);
          member = \<lparr>member_name = name, member_type = type, member_builtin = builtin,
                    semantic_index = default_index\<rparr>;
          p3 = p2\<lparr>uniforms_member_list := uniforms_member_list p2 @ [member]\<rparr>;
          member_index = length (uniforms_member_list p3) - 1;
          sym = \<lparr>sym_op = OpVariable, sym_id = global_ubo_variable p3, sym_type = type,
                 sym_function = 0, sym_constant = zero_constant, sym_member_index = member_index\<rparr>;
          p4 = p3\<lparr>member_names := member_names p3 @ [(global_ubo_type p3, member_index, name)]\<rparr>
      in if 2 ^ 31 \<le> uniform_size type then None
         else
           (let size = uniform_size type mod 2 ^ pb;
                alignment = size
            in case align pb (unat (global_ubo_offset p4) mod 2 ^ pb) alignment of
                 None \<Rightarrow> None
               | Some aligned \<Rightarrow>
                   (let offset = (word_of_nat aligned :: 32 word) in
                    Some (sym,
                          p4\<lparr>member_decorations := member_decorations p4 @
                                [(global_ubo_type p4, member_index, DecorationOffset,
                                  [unat offset])],
                             global_ubo_offset := offset + word_of_nat size\<rparr>))))"

text \<open>The types of the example \<open>uniform float4x4 M; uniform float3 v;\<close>.\<close>

definition uniform_float :: "nat \<Rightarrow> nat \<Rightarrow> spv_type" where
  "uniform_float r c =
     \<lparr>base = datatype_float, rows = r, cols = c,
      qualifiers = {qualifier_extern, qualifier_uniform},
      is_pointer = False, is_input = False, is_output = False, array_length = 0,
      definition_id = 0\<rparr>"

text \<open>A parser at the start of a compilation over the given tokens: nothing declared yet.\<close>

definition start_parser :: "token list \<Rightarrow> parser" where
  "start_parser ts =
     \<lparr>lexer_rest = ts, token_cur = eof_token, token_next = eof_token, errors = [],
      next_id = 1, current_block = 0, current_function = size_t_max, function_list = [],
      loop_break_target_stack = [], loop_continue_target_stack = [],
      global_ubo_type = 0, global_ubo_variable = 0, global_ubo_offset = 0,
      uniforms_member_list = [], member_names = [], member_decorations = [],
      decorations = [],
      module_writes = []\<rparr>"

section \<open>Statements: \<open>parse_statement\<close> and \<open>parse_statement_block\<close> (lines 2034-2628)\<close>

text \<open>
  What the embedded code reads of an expression in flight (\<open>spv_expression\<close>): the base
  id, the type, the constant, the two flags and the source location.
\<close>

record spv_expression =
  exp_base :: nat
  exp_type :: spv_type
  exp_constant :: spv_constant
  is_lvalue :: bool
  is_constant :: bool
  exp_location :: location

text \<open>
  How a call of an embedded function ends. The loops that call the parts of the parser
  taken as parameters below run on fuel: \<open>Out_of_fuel\<close> says the fuel did not suffice, it
  is not a behaviour of the source. \<open>Out_of_bounds\<close> is the source reading a vector
  outside its bounds or popping an empty one, which C++ leaves undefined.
\<close>

datatype 'a outcome = Returns 'a | Out_of_fuel | Out_of_bounds

type_synonym statement_result = "bool \<times> spv_basic_block \<times> parser"

text \<open>
  The parts of the parser that the embedded code calls and that are not embedded here:
  the expression and declaration parsers, the scope operations of the symbol table, the
  access-chain helpers and the type interning of the header, \<open>spv_type\<close>'s \<open>rank\<close>,
  \<open>components\<close>, \<open>is_integral\<close> and \<open>is_signed\<close>, the regions of \<open>parse_statement\<close> for
  \<open>if\<close>, \<open>for\<close>, \<open>while\<close> and \<open>do\<close> (each from behind its \<open>accept\<close> to its \<open>return\<close>),
  the branches of a call that emit an intrinsic, the parsers of structs, functions and
  global variables (\<open>parse_global_variable\<close> is \<open>parse_variable\<close> with \<open>global = true\<close>),
  the handling of the value of a pass state (lines 3168-3545 of \<open>parse_technique_pass\<close>,
  answering false where the source returns false there), and the definitions of the
  globals block in the module (\<open>define_struct\<close>, \<open>define_variable\<close>). A function that takes the section
  and the parser by reference returns them. Every theorem below holds for all values of
  these parameters, save for what its hypotheses ask of them.
\<close>

record externals =
  parse_expression :: "spv_basic_block \<Rightarrow> parser \<Rightarrow> bool \<times> spv_expression \<times> spv_basic_block \<times> parser"
  parse_type :: "parser \<Rightarrow> bool \<times> spv_type \<times> parser"
  parse_variable :: "spv_type \<Rightarrow> string \<Rightarrow> spv_basic_block \<Rightarrow> parser \<Rightarrow> statement_result"
  enter_scope :: "parser \<Rightarrow> parser"
  leave_scope :: "parser \<Rightarrow> parser"
  add_cast_operation :: "spv_expression \<Rightarrow> spv_type \<Rightarrow> spv_expression"
  access_chain_load :: "spv_basic_block \<Rightarrow> spv_expression \<Rightarrow> parser \<Rightarrow> nat \<times> spv_basic_block \<times> parser"
  rank :: "spv_type \<Rightarrow> spv_type \<Rightarrow> nat"
  components :: "spv_type \<Rightarrow> nat"
  if_statement :: "location \<Rightarrow> 32 word \<Rightarrow> spv_basic_block \<Rightarrow> parser \<Rightarrow> statement_result"
  for_statement :: "location \<Rightarrow> 32 word \<Rightarrow> spv_basic_block \<Rightarrow> parser \<Rightarrow> statement_result"
  while_statement :: "location \<Rightarrow> 32 word \<Rightarrow> spv_basic_block \<Rightarrow> parser \<Rightarrow> statement_result"
  do_statement :: "location \<Rightarrow> 32 word \<Rightarrow> spv_basic_block \<Rightarrow> parser \<Rightarrow> statement_result"
  parse_expression_multary :: "spv_basic_block \<Rightarrow> parser \<Rightarrow> bool \<times> spv_expression \<times> spv_basic_block \<times> parser"
  is_integral :: "spv_type \<Rightarrow> bool"
  is_signed :: "spv_type \<Rightarrow> bool"
  convert_type :: "spv_type \<Rightarrow> parser \<Rightarrow> nat \<times> parser"
  access_chain_store :: "spv_basic_block \<Rightarrow> spv_expression \<Rightarrow> nat \<Rightarrow> spv_type \<Rightarrow> parser \<Rightarrow> spv_basic_block \<times> parser"
  add_swizzle_access :: "spv_expression \<Rightarrow> int list \<Rightarrow> nat \<Rightarrow> spv_expression"
  intrinsic_call :: "location \<Rightarrow> symbol \<Rightarrow> spv_expression list \<Rightarrow> spv_basic_block \<Rightarrow> parser \<Rightarrow> spv_expression \<times> spv_basic_block \<times> parser"
  parse_struct :: "parser \<Rightarrow> bool \<times> parser"
  parse_function :: "spv_type \<Rightarrow> string \<Rightarrow> parser \<Rightarrow> bool \<times> parser"
  parse_global_variable :: "spv_type \<Rightarrow> string \<Rightarrow> parser \<Rightarrow> bool \<times> parser"
  insert_symbol :: "string \<Rightarrow> symbol \<Rightarrow> bool \<Rightarrow> parser \<Rightarrow> bool \<times> parser"
  enter_namespace :: "string \<Rightarrow> parser \<Rightarrow> parser"
  leave_namespace :: "parser \<Rightarrow> parser"
  accept_type_class :: "parser \<Rightarrow> bool \<times> spv_type \<times> parser"
  parse_expression_unary :: "spv_basic_block \<Rightarrow> parser \<Rightarrow> bool \<times> spv_expression \<times> spv_basic_block \<times> parser"
  pass_state_value :: "location \<Rightarrow> string \<Rightarrow> parser \<Rightarrow> bool \<times> parser"
  define_struct :: "nat \<Rightarrow> string \<Rightarrow> nat list \<Rightarrow> parser \<Rightarrow> parser"
  define_variable :: "nat \<Rightarrow> string \<Rightarrow> spv_type \<Rightarrow> StorageClass \<Rightarrow> parser \<Rightarrow> parser"

definition is_void :: "spv_type \<Rightarrow> bool" where
  "is_void t \<longleftrightarrow> base t = datatype_void"

text \<open>The type \<open>{ spv_type::datatype_int, 1, 1 }\<close>: the members not named are zero.\<close>

definition int_scalar_type :: spv_type where
  "int_scalar_type =
     \<lparr>base = datatype_int, rows = 1, cols = 1, qualifiers = {}, is_pointer = False,
      is_input = False, is_output = False, array_length = 0, definition_id = 0\<rparr>"

text \<open>
  Modelled from the spec: \<open>enter_block\<close>, \<open>leave_block_and_branch\<close>,
  \<open>leave_block_and_return\<close> and \<open>leave_block_and_kill\<close> (defined in the header), after
  section 4.5: a statement runs inside the open basic block tracked by \<open>_current_block\<close>;
  "leaving a block emits exactly one terminator (OpBranch / OpReturn[Value] / OpKill) and
  clears \<open>_current_block\<close>". The spec does not say what a call does when no block is open;
  a block has a single terminator (glossary), so the model emits nothing then.
\<close>

definition enter_block :: "spv_basic_block \<Rightarrow> nat \<Rightarrow> parser \<Rightarrow> spv_basic_block \<times> parser" where
  "enter_block sect i p =
     (sect @ [\<lparr>op = OpLabel, result_type = 0, result = i, operands = [],
              ins_location = no_location\<rparr>],
      p\<lparr>current_block := i\<rparr>)"

definition leave_block_and_branch :: "spv_basic_block \<Rightarrow> nat \<Rightarrow> parser \<Rightarrow> spv_basic_block \<times> parser" where
  "leave_block_and_branch sect target p =
     (if current_block p = 0 then (sect, p)
      else (add_node_without_result sect no_location OpBranch [target], p\<lparr>current_block := 0\<rparr>))"

definition leave_block_and_return :: "spv_basic_block \<Rightarrow> nat \<Rightarrow> parser \<Rightarrow> spv_basic_block \<times> parser" where
  "leave_block_and_return sect val p =
     (if current_block p = 0 then (sect, p)
      else if val \<noteq> 0
        then (add_node_without_result sect no_location OpReturnValue [val], p\<lparr>current_block := 0\<rparr>)
      else (add_node_without_result sect no_location OpReturn [], p\<lparr>current_block := 0\<rparr>))"

definition leave_block_and_kill :: "spv_basic_block \<Rightarrow> parser \<Rightarrow> spv_basic_block \<times> parser" where
  "leave_block_and_kill sect p =
     (if current_block p = 0 then (sect, p)
      else (add_node_without_result sect no_location OpKill [], p\<lparr>current_block := 0\<rparr>))"

text \<open>
  \<open>_loop_break_target_stack\<close> and \<open>_loop_continue_target_stack\<close> are vectors used as
  stacks: \<open>push_back\<close> appends, \<open>back\<close> is the last element, \<open>pop_back\<close> removes it.
\<close>

definition pop_break_target :: "parser \<Rightarrow> parser option" where
  "pop_break_target p =
     (if loop_break_target_stack p = [] then None
      else Some (p\<lparr>loop_break_target_stack := butlast (loop_break_target_stack p)\<rparr>))"

text \<open>
  The attribute loop of \<open>parse_statement\<close>, lines 2043-2060. The masks are
  \<open>spv::LoopControlUnrollMask = 1\<close>, \<open>spv::LoopControlDontUnrollMask = 2\<close>,
  \<open>spv::SelectionControlFlattenMask = 1\<close> and \<open>spv::SelectionControlDontFlattenMask = 2\<close>.
  The result is \<open>False\<close> where the source returns false from \<open>parse_statement\<close>.
\<close>

function parse_attributes :: "32 word \<Rightarrow> 32 word \<Rightarrow> parser \<Rightarrow> bool \<times> 32 word \<times> 32 word \<times> parser" where
  "parse_attributes loop_control selection_control p =
     (if \<not> peek (punct CHR ''['') p then (True, loop_control, selection_control, p)
      else
        (let p1 = consume p;
             attribute = literal_as_string (token_next p1);
             r2 = expect tok_identifier p1
         in if \<not> fst r2 then (False, loop_control, selection_control, snd r2)
            else
              (let r3 = expect (punct CHR '']'') (snd r2);
                   p3 = snd r3
               in if \<not> fst r3 then (False, loop_control, selection_control, p3)
                  else if attribute = ''unroll''
                    then parse_attributes (loop_control OR 1) selection_control p3
                  else if attribute = ''loop''
                    then parse_attributes (loop_control OR 2) selection_control p3
                  else if attribute = ''branch''
                    then parse_attributes loop_control (selection_control OR 2) p3
                  else if attribute = ''flatten''
                    then parse_attributes loop_control (selection_control OR 1) p3
                  else parse_attributes loop_control selection_control
                         (warning (tok_location (token_cur p3)) 0 [Text ''unknown attribute''] p3))))"
  by pat_completeness auto
termination
  by (relation "measure (\<lambda>(lc, sc, p). tokens_left p)")
    (auto simp: tokens_left_def expect_def accept_def consume_def peek_def eof_token_def
          error_def warning_def Let_def
          split: if_splits list.splits prod.splits)

declare parse_attributes.simps [simp del]

text \<open>
  The loop of \<open>parse_statement_block\<close> that ignores the rest of a block after a failed
  statement, lines 2601-2618. \<open>level\<close> is an \<open>unsigned\<close> counter of the braces opened.
\<close>

function skip_rest_of_block :: "nat \<Rightarrow> parser \<Rightarrow> parser" where
  "skip_rest_of_block level p =
     (if peek end_of_file p then p
      else if peek (punct CHR ''{'') p then skip_rest_of_block (level + 1) (consume p)
      else if peek (punct CHR ''}'') p
        then (if level = 0 then consume p else skip_rest_of_block (level - 1) (consume p))
      else skip_rest_of_block level (consume p))"
  by pat_completeness auto
termination
  by (relation "measure (\<lambda>(level, p). tokens_left p)")
    (auto simp: tokens_left_def consume_def peek_def eof_token_def
          split: if_splits list.splits)

declare skip_rest_of_block.simps [simp del]

text \<open>
  The inner loop of the switch region, lines 2173-2195:
  \<open>while (accept(tok_case) || accept(tok_default))\<close>. \<open>current_blk\<close> is the local
  \<open>current_block\<close> (the label of the case block), and the tuple holds
  \<open>switch_body_block\<close>, \<open>default_label\<close>, \<open>case_literal_and_labels\<close> and
  \<open>num_case_labels\<close>. The result is \<open>False\<close> where the source returns false from
  \<open>parse_statement\<close>. The literal pushed is \<open>case_label.constant.as_uint[0]\<close>.
\<close>

type_synonym switch_state = "spv_basic_block \<times> nat \<times> nat list \<times> nat"

primrec parse_case_labels ::
  "nat \<Rightarrow> externals \<Rightarrow> nat \<Rightarrow> switch_state \<Rightarrow> parser \<Rightarrow> (bool \<times> switch_state \<times> parser) outcome" where
  "parse_case_labels 0 = (\<lambda>X current_blk st p. Out_of_fuel)"
| "parse_case_labels (Suc k) = (\<lambda>X current_blk st p.
     (case st of (body, default_label, lits, num) \<Rightarrow>
        (let accepted = (case accept tok_case p of
                           (True, q) \<Rightarrow> (True, q)
                         | (False, q) \<Rightarrow> accept tok_default q);
             p1 = snd accepted
         in if \<not> fst accepted then Returns (True, st, p1)
            else if tok_id (token_cur p1) = tok_case then
              (case parse_expression X body p1 of
                 (ok, case_label, body1, p2) \<Rightarrow>
                   if \<not> ok
                     then Returns (False, (body1, default_label, lits, num),
                                   consume_until (punct CHR ''}'') p2)
                   else if \<not> is_scalar (exp_type case_label) \<or> \<not> is_constant case_label
                     then Returns (False, (body1, default_label, lits, num),
                            consume_until (punct CHR ''}'')
                              (error (exp_location case_label) 3020
                                 [Text ''non-numeric case expression''] p2))
                   else
                     (let lits1 = lits @ [unat (as_uint (exp_constant case_label) ! 0), current_blk]
                      in case expect (punct CHR '':'') p2 of
                           (False, p3) \<Rightarrow>
                             Returns (False, (body1, default_label, lits1, num),
                                      consume_until (punct CHR ''}'') p3)
                         | (True, p3) \<Rightarrow>
                             parse_case_labels k X current_blk
                               (body1, default_label, lits1, num + 1) p3))
            else
              (case expect (punct CHR '':'') p1 of
                 (False, p3) \<Rightarrow>
                   Returns (False, (body, current_blk, lits, num),
                            consume_until (punct CHR ''}'') p3)
               | (True, p3) \<Rightarrow>
                   parse_case_labels k X current_blk (body, current_blk, lits, num + 1) p3))))"

text \<open>
  The outer loop of the switch region, lines 2160-2199; \<open>rec\<close> is \<open>parse_statement\<close>.
\<close>

primrec parse_switch_body ::
  "nat \<Rightarrow> nat \<Rightarrow> externals \<Rightarrow> (spv_basic_block \<Rightarrow> bool \<Rightarrow> parser \<Rightarrow> statement_result outcome)
     \<Rightarrow> nat \<Rightarrow> switch_state \<Rightarrow> parser \<Rightarrow> (bool \<times> switch_state \<times> parser) outcome" where
  "parse_switch_body 0 = (\<lambda>n X rec current_blk st p. Out_of_fuel)"
| "parse_switch_body (Suc k) = (\<lambda>n X rec current_blk st p.
     (case st of (body, default_label, lits, num) \<Rightarrow>
        if \<not> peek (punct CHR ''}'') p \<and> \<not> peek end_of_file p then
          (let opened =
                 (if peek tok_case p \<or> peek tok_default p then
                    (case make_id p of (i, q) \<Rightarrow>
                       (case (if num \<noteq> 0 then leave_block_and_branch body i q else (body, q)) of
                          (b1, q1) \<Rightarrow>
                            (case enter_block b1 i q1 of (b2, q2) \<Rightarrow> (i, b2, q2))))
                  else (current_blk, body, p));
               current_blk1 = fst opened;
               body1 = fst (snd opened);
               p1 = snd (snd opened)
           in case parse_case_labels n X current_blk1 (body1, default_label, lits, num) p1 of
                Out_of_fuel \<Rightarrow> Out_of_fuel
              | Out_of_bounds \<Rightarrow> Out_of_bounds
              | Returns (False, st2, p2) \<Rightarrow> Returns (False, st2, p2)
              | Returns (True, (body2, default_label2, lits2, num2), p2) \<Rightarrow>
                  (case rec body2 True p2 of
                     Out_of_fuel \<Rightarrow> Out_of_fuel
                   | Out_of_bounds \<Rightarrow> Out_of_bounds
                   | Returns (False, body3, p3) \<Rightarrow>
                       Returns (False, (body3, default_label2, lits2, num2),
                                consume_until (punct CHR ''}'') p3)
                   | Returns (True, body3, p3) \<Rightarrow>
                       parse_switch_body k n X rec current_blk1
                         (body3, default_label2, lits2, num2) p3))
        else Returns (True, st, p)))"

text \<open>
  \<open>switch_node.add(default_label); switch_node.add(case_literal_and_labels...)\<close>:
  \<open>switch_node\<close> refers to the \<open>OpSwitch\<close> instruction, which is the last one of the
  section, since everything after it went to \<open>switch_body_block\<close>.
\<close>

definition add_to_last :: "spv_basic_block \<Rightarrow> nat list \<Rightarrow> spv_basic_block" where
  "add_to_last sect args =
     (if sect = [] then sect
      else butlast sect @ [(last sect)\<lparr>operands := operands (last sect) @ args\<rparr>])"

text \<open>
  The switch region, lines 2124-2212, from behind \<open>accept(tokenid::tok_switch)\<close>. The
  \<open>on_scope_exit\<close> object pops the break target on every way out after the push.
\<close>

definition switch_statement ::
  "nat \<Rightarrow> externals \<Rightarrow> (spv_basic_block \<Rightarrow> bool \<Rightarrow> parser \<Rightarrow> statement_result outcome)
     \<Rightarrow> location \<Rightarrow> 32 word \<Rightarrow> spv_basic_block \<Rightarrow> parser \<Rightarrow> statement_result outcome" where
  "switch_statement n X rec loc selection_control sect p0 =
     (case make_id p0 of (merge_label, p1) \<Rightarrow>
      (case expect (punct CHR ''('') p1 of
         (False, p2) \<Rightarrow> Returns (False, sect, p2)
       | (True, p2) \<Rightarrow>
      (case parse_expression X sect p2 of
         (False, selector, sect1, p3) \<Rightarrow> Returns (False, sect1, p3)
       | (True, selector, sect1, p3) \<Rightarrow>
      (case expect (punct CHR '')'') p3 of
         (False, p4) \<Rightarrow> Returns (False, sect1, p4)
       | (True, p4) \<Rightarrow>
      if \<not> is_scalar (exp_type selector)
        then Returns (False, sect1,
               error (exp_location selector) 3019
                 [Text ''switch statement expression must evaluate to a scalar''] p4)
      else
      (case access_chain_load X sect1 (add_cast_operation X selector int_scalar_type) p4 of
         (selector_value, sect2, p5) \<Rightarrow>
      (let p6 = p5\<lparr>current_block := 0\<rparr>;
           sect3 = add_node_without_result sect2 loc OpSelectionMerge
                     [merge_label, unat selection_control];
           sect4 = add_node_without_result sect3 loc OpSwitch [selector_value]
       in case expect (punct CHR ''{'') p6 of
            (False, p7) \<Rightarrow> Returns (False, sect4, p7)
          | (True, p7) \<Rightarrow>
      (let p8 = p7\<lparr>loop_break_target_stack := loop_break_target_stack p7 @ [merge_label]\<rparr>
       in case parse_switch_body n n X rec 0 ([], merge_label, [], 0) p8 of
            Out_of_fuel \<Rightarrow> Out_of_fuel
          | Out_of_bounds \<Rightarrow> Out_of_bounds
          | Returns (False, st, p9) \<Rightarrow>
              (case pop_break_target p9 of
                 None \<Rightarrow> Out_of_bounds
               | Some p10 \<Rightarrow> Returns (False, sect4, p10))
          | Returns (True, (body, default_label, lits, num), p9) \<Rightarrow>
              (let p10 = (if num = 0
                          then warning loc 5002
                                 [Text ''switch statement contains no 'case' or 'default' labels''] p9
                          else p9);
                   sect5 = add_to_last sect4 (default_label # lits);
                   sect6 = sect5 @ body
               in case enter_block sect6 merge_label p10 of
                    (sect7, p11) \<Rightarrow>
                      (case expect (punct CHR ''}'') p11 of
                         (ok, p12) \<Rightarrow>
                           (case pop_break_target p12 of
                              None \<Rightarrow> Out_of_bounds
                            | Some p13 \<Rightarrow> Returns (ok, sect7, p13)))))))))))"

text \<open>
  The return region, lines 2501-2541, from behind \<open>accept(tokenid::tok_return)\<close>;
  \<open>_functions[_current_function]\<close> is read first.
\<close>

definition return_statement ::
  "externals \<Rightarrow> location \<Rightarrow> spv_basic_block \<Rightarrow> parser \<Rightarrow> statement_result outcome" where
  "return_statement X loc sect p =
     (if \<not> current_function p < length (function_list p) then Out_of_bounds
      else
        (let parent = function_list p ! current_function p in
         if \<not> peek (punct CHR '';'') p then
           (case parse_expression X sect p of
              (False, return_exp, sect1, p1) \<Rightarrow>
                Returns (False, sect1, consume_until (punct CHR '';'') p1)
            | (True, return_exp, sect1, p1) \<Rightarrow>
                if is_void (return_type parent) then
                  Returns (False, sect1,
                    snd (accept (punct CHR '';'')
                           (error loc 3079 [Text ''void functions cannot return a value''] p1)))
                else if is_array (exp_type return_exp)
                        \<or> rank X (exp_type return_exp) (return_type parent) = 0 then
                  Returns (False, sect1,
                    snd (accept (punct CHR '';'')
                           (error loc 3017
                              [Text ''expression does not match function return type''] p1)))
                else
                  (let p2 = (if components X (return_type parent)
                                  < components X (exp_type return_exp)
                             then warning (exp_location return_exp) 3206
                                    [Text ''implicit truncation of vector type''] p1
                             else p1)
                   in case access_chain_load X sect1
                             (add_cast_operation X return_exp (return_type parent)) p2 of
                        (return_value, sect2, p3) \<Rightarrow>
                          (case leave_block_and_return sect2 return_value p3 of
                             (sect3, p4) \<Rightarrow>
                               (case expect (punct CHR '';'') p4 of
                                  (ok, p5) \<Rightarrow> Returns (ok, sect3, p5)))))
         else if \<not> is_void (return_type parent) then
           Returns (False, sect,
             snd (accept (punct CHR '';'')
                    (error loc 3080 [Text ''function must return a value''] p)))
         else
           (case leave_block_and_return sect 0 p of
              (sect1, p1) \<Rightarrow>
                (case expect (punct CHR '';'') p1 of
                   (ok, p2) \<Rightarrow> Returns (ok, sect1, p2)))))"

text \<open>
  The statements that are valid only inside a function, lines 2070-2554. \<open>None\<close> says
  that no keyword matched and control goes on to the declarations. Each \<open>if (accept(t))\<close>
  of the source is written \<open>if peek t p then ... (consume p)\<close>, which is what \<open>accept\<close>
  does.
\<close>

definition statement_in_function ::
  "nat \<Rightarrow> externals \<Rightarrow> (spv_basic_block \<Rightarrow> bool \<Rightarrow> parser \<Rightarrow> statement_result outcome)
     \<Rightarrow> 32 word \<Rightarrow> 32 word \<Rightarrow> spv_basic_block \<Rightarrow> parser \<Rightarrow> statement_result outcome option" where
  "statement_in_function n X rec loop_control selection_control sect p =
     (let loc = tok_location (token_next p) in
      if peek tok_if p then Some (Returns (if_statement X loc selection_control sect (consume p)))
      else if peek tok_switch p
        then Some (switch_statement n X rec loc selection_control sect (consume p))
      else if peek tok_for p then Some (Returns (for_statement X loc loop_control sect (consume p)))
      else if peek tok_while p then Some (Returns (while_statement X loc loop_control sect (consume p)))
      else if peek tok_do p then Some (Returns (do_statement X loc loop_control sect (consume p)))
      else if peek tok_break p then
        (let p1 = consume p in
         if loop_break_target_stack p1 = []
           then Some (Returns (False, sect, error loc 3518 [Text ''break must be inside loop''] p1))
         else
           (case leave_block_and_branch sect (last (loop_break_target_stack p1)) p1 of
              (sect1, p2) \<Rightarrow>
                (case expect (punct CHR '';'') p2 of
                   (ok, p3) \<Rightarrow> Some (Returns (ok, sect1, p3)))))
      else if peek tok_continue p then
        (let p1 = consume p in
         if loop_continue_target_stack p1 = []
           then Some (Returns (False, sect,
                        error loc 3519 [Text ''continue must be inside loop''] p1))
         else
           (case leave_block_and_branch sect (last (loop_continue_target_stack p1)) p1 of
              (sect1, p2) \<Rightarrow>
                (case expect (punct CHR '';'') p2 of
                   (ok, p3) \<Rightarrow> Some (Returns (ok, sect1, p3)))))
      else if peek tok_return p then Some (return_statement X loc sect (consume p))
      else if peek tok_discard p then
        (case leave_block_and_kill sect (consume p) of
           (sect1, p2) \<Rightarrow>
             (case expect (punct CHR '';'') p2 of
                (ok, p3) \<Rightarrow> Some (Returns (ok, sect1, p3))))
      else None)"

text \<open>
  The \<open>do ... while (!peek(';'))\<close> loop of a declaration statement, lines 2560-2566;
  \<open>count\<close> is the number of declarators read so far.
\<close>

primrec declaration_list ::
  "nat \<Rightarrow> externals \<Rightarrow> spv_type \<Rightarrow> nat \<Rightarrow> spv_basic_block \<Rightarrow> parser \<Rightarrow> statement_result outcome" where
  "declaration_list 0 = (\<lambda>X type count sect p. Out_of_fuel)"
| "declaration_list (Suc k) = (\<lambda>X type count sect p.
     (let r1 = (if 0 < count then expect (punct CHR '','') p else (True, p)) in
      if \<not> fst r1 then Returns (False, sect, consume_until (punct CHR '';'') (snd r1))
      else
        (case expect tok_identifier (snd r1) of
           (False, p2) \<Rightarrow> Returns (False, sect, consume_until (punct CHR '';'') p2)
         | (True, p2) \<Rightarrow>
             (case parse_variable X type (literal_as_string (token_cur p2)) sect p2 of
                (False, sect3, p3) \<Rightarrow>
                  Returns (False, sect3, consume_until (punct CHR '';'') p3)
              | (True, sect3, p3) \<Rightarrow>
                  if \<not> peek (punct CHR '';'') p3
                    then declaration_list k X type (count + 1) sect3 p3
                  else (case expect (punct CHR '';'') p3 of
                          (ok, p4) \<Rightarrow> Returns (ok, sect3, p4))))))"

text \<open>The end of \<open>parse_statement\<close>, lines 2556-2582: declarations and expressions.\<close>

definition declaration_or_expression ::
  "nat \<Rightarrow> externals \<Rightarrow> spv_basic_block \<Rightarrow> parser \<Rightarrow> statement_result outcome" where
  "declaration_or_expression n X sect p =
     (case parse_type X p of
        (True, type, p1) \<Rightarrow> declaration_list n X type 0 sect p1
      | (False, type, p1) \<Rightarrow>
          (case parse_expression X sect p1 of
             (True, expression, sect2, p2) \<Rightarrow>
               (case expect (punct CHR '';'') p2 of (ok, p3) \<Rightarrow> Returns (ok, sect2, p3))
           | (False, expression, sect2, p2) \<Rightarrow>
               Returns (False, sect2,
                 consume_until (punct CHR '';'')
                   (error (tok_location (token_next p2)) 3000
                      [Text ''syntax error: unexpected '', quote,
                       TokenName (tok_id (token_next p2)), quote] p2))))"

text \<open>The \<open>while\<close> loop of \<open>parse_statement_block\<close>, lines 2593-2622, up to a failure.\<close>

primrec statement_block_loop ::
  "nat \<Rightarrow> (spv_basic_block \<Rightarrow> bool \<Rightarrow> parser \<Rightarrow> statement_result outcome)
     \<Rightarrow> spv_basic_block \<Rightarrow> parser \<Rightarrow> statement_result outcome" where
  "statement_block_loop 0 = (\<lambda>rec sect p. Out_of_fuel)"
| "statement_block_loop (Suc k) = (\<lambda>rec sect p.
     if \<not> peek (punct CHR ''}'') p \<and> \<not> peek end_of_file p then
       (case rec sect True p of
          Out_of_fuel \<Rightarrow> Out_of_fuel
        | Out_of_bounds \<Rightarrow> Out_of_bounds
        | Returns (False, sect1, p1) \<Rightarrow> Returns (False, sect1, p1)
        | Returns (True, sect1, p1) \<Rightarrow> statement_block_loop k rec sect1 p1)
     else Returns (True, sect, p))"

definition parse_statement_block ::
  "nat \<Rightarrow> externals \<Rightarrow> (spv_basic_block \<Rightarrow> bool \<Rightarrow> parser \<Rightarrow> statement_result outcome)
     \<Rightarrow> spv_basic_block \<Rightarrow> bool \<Rightarrow> parser \<Rightarrow> statement_result outcome" where
  "parse_statement_block n X rec sect scoped p0 =
     (case expect (punct CHR ''{'') p0 of
        (False, p1) \<Rightarrow> Returns (False, sect, p1)
      | (True, p1) \<Rightarrow>
          (case statement_block_loop n rec sect (if scoped then enter_scope X p1 else p1) of
             Out_of_fuel \<Rightarrow> Out_of_fuel
           | Out_of_bounds \<Rightarrow> Out_of_bounds
           | Returns (False, sect2, p2) \<Rightarrow>
               Returns (False, sect2,
                 skip_rest_of_block 0 (if scoped then leave_scope X p2 else p2))
           | Returns (True, sect2, p2) \<Rightarrow>
               (case expect (punct CHR ''}'') (if scoped then leave_scope X p2 else p2) of
                  (ok, p3) \<Rightarrow> Returns (ok, sect2, p3))))"

text \<open>
  The body of \<open>parse_statement\<close>; \<open>rec\<close> is \<open>parse_statement\<close> itself, for the statements
  nested in a block or a switch, and \<open>n\<close> the fuel of the loops.
\<close>

definition parse_statement_body ::
  "nat \<Rightarrow> externals \<Rightarrow> (spv_basic_block \<Rightarrow> bool \<Rightarrow> parser \<Rightarrow> statement_result outcome)
     \<Rightarrow> spv_basic_block \<Rightarrow> bool \<Rightarrow> parser \<Rightarrow> statement_result outcome" where
  "parse_statement_body n X rec sect scoped p0 =
     (if current_block p0 = 0 then
        Returns (False, sect,
          error (tok_location (token_next p0)) 3000
            [Text ''statements are valid only inside a code block''] p0)
      else
        (case parse_attributes 0 0 p0 of
           (False, loop_control, selection_control, p1) \<Rightarrow> Returns (False, sect, p1)
         | (True, loop_control, selection_control, p1) \<Rightarrow>
             if peek (punct CHR ''{'') p1 then parse_statement_block n X rec sect scoped p1
             else if peek (punct CHR '';'') p1 then Returns (True, sect, consume p1)
             else
               (case (if current_function p1 \<noteq> size_t_max
                      then statement_in_function n X rec loop_control selection_control sect p1
                      else None) of
                  Some r \<Rightarrow> r
                | None \<Rightarrow> declaration_or_expression n X sect p1)))"

primrec parse_statement ::
  "nat \<Rightarrow> externals \<Rightarrow> spv_basic_block \<Rightarrow> bool \<Rightarrow> parser \<Rightarrow> statement_result outcome" where
  "parse_statement 0 = (\<lambda>X sect scoped p. Out_of_fuel)"
| "parse_statement (Suc n) = (\<lambda>X sect scoped p.
     parse_statement_body n X (parse_statement n X) sect scoped p)"

section \<open>Expressions: swizzles, assignment and calls (\<open>parse_expression_unary\<close>, \<open>parse_expression_assignment\<close>)\<close>

subsection \<open>Vector and matrix swizzles (lines 1256-1344)\<close>

datatype swizzle_set = xyzw | rgba | stpq

text \<open>The \<open>switch (subscript[i])\<close> of the vector swizzle: offset and set of a letter.\<close>

definition swizzle_component :: "char \<Rightarrow> (int \<times> swizzle_set) option" where
  "swizzle_component c =
     map_of [(CHR ''x'', (0, xyzw)), (CHR ''y'', (1, xyzw)), (CHR ''z'', (2, xyzw)),
             (CHR ''w'', (3, xyzw)), (CHR ''r'', (0, rgba)), (CHR ''g'', (1, rgba)),
             (CHR ''b'', (2, rgba)), (CHR ''a'', (3, rgba)), (CHR ''s'', (0, stpq)),
             (CHR ''t'', (1, stpq)), (CHR ''p'', (2, stpq)), (CHR ''q'', (3, stpq))] c"

text \<open>The offset a letter stands for (-1, the initial array entry, for any other letter).\<close>

definition swizzle_offset :: "char \<Rightarrow> int" where
  "swizzle_offset c = (case swizzle_component c of Some (off, st) \<Rightarrow> off | None \<Rightarrow> - 1)"

text \<open>The four error exits of a swizzle, all with code 3018, and their messages.\<close>

datatype swizzle_failure =
  invalid_subscript | swizzle_too_long | mixed_swizzle_sets | swizzle_out_of_range

definition swizzle_message :: "string \<Rightarrow> swizzle_failure \<Rightarrow> fragment list" where
  "swizzle_message subscript f =
     [Text ''invalid subscript '', quote, Text subscript, quote] @
     (case f of
        invalid_subscript \<Rightarrow> []
      | swizzle_too_long \<Rightarrow> [Text '', swizzle too long'']
      | mixed_swizzle_sets \<Rightarrow> [Text '', mixed swizzle sets'']
      | swizzle_out_of_range \<Rightarrow> [Text '', swizzle out of range''])"

text \<open>
  The loop over the letters of a vector swizzle, lines 1266-1297, from letter \<open>i\<close> on:
  \<open>offsets\<close> and \<open>sets\<close> hold \<open>offsets[0..i)\<close> and \<open>set[0..i)\<close>, \<open>constant\<close> is the flag.
\<close>

primrec vector_swizzle_loop ::
  "string \<Rightarrow> nat \<Rightarrow> int list \<Rightarrow> swizzle_set list \<Rightarrow> bool \<Rightarrow> swizzle_failure + (int list \<times> bool)" where
  "vector_swizzle_loop [] rws offsets sets constant = Inr (offsets, constant)"
| "vector_swizzle_loop (c # cs) rws offsets sets constant =
     (case swizzle_component c of
        None \<Rightarrow> Inl invalid_subscript
      | Some (off, st) \<Rightarrow>
          if sets \<noteq> [] \<and> st \<noteq> last sets then Inl mixed_swizzle_sets
          else if int rws \<le> off then Inl swizzle_out_of_range
          else vector_swizzle_loop cs rws (offsets @ [off]) (sets @ [st])
                 (constant \<or> off \<in> set offsets))"

text \<open>\<open>signed char offsets[4] = { -1, -1, -1, -1 }\<close> with the first entries written.\<close>

definition pad_offsets :: "int list \<Rightarrow> int list" where
  "pad_offsets offsets = offsets @ replicate (4 - length offsets) (- 1)"

text \<open>
  Lines 1302-1303 and 1342-1343:
  \<open>if (constant || exp.type.has(qualifier_uniform))
     exp.type.qualifiers = (exp.type.qualifiers | qualifier_const) & ~qualifier_uniform\<close>.
\<close>

definition mark_unmodifiable :: "bool \<Rightarrow> spv_expression \<Rightarrow> spv_expression" where
  "mark_unmodifiable constant expr =
     (if constant \<or> has (exp_type expr) qualifier_uniform
      then expr\<lparr>exp_type := (exp_type expr)
                 \<lparr>qualifiers := insert qualifier_const (qualifiers (exp_type expr))
                                  - {qualifier_uniform}\<rparr>\<rparr>
      else expr)"

text \<open>
  The branch \<open>else if (exp.type.is_vector())\<close>, lines 1258-1303. \<open>asa\<close> is
  \<open>add_swizzle_access\<close> (a helper of the header), \<open>loc\<close> and \<open>subscript\<close> are the location
  and the text of the identifier behind the dot.
\<close>

definition vector_swizzle ::
  "(spv_expression \<Rightarrow> int list \<Rightarrow> nat \<Rightarrow> spv_expression) \<Rightarrow> location \<Rightarrow> string
     \<Rightarrow> spv_expression \<Rightarrow> parser \<Rightarrow> bool \<times> spv_expression \<times> parser" where
  "vector_swizzle asa loc subscript expr p =
     (if 4 < length subscript
        then (False, expr, error loc 3018 (swizzle_message subscript swizzle_too_long) p)
      else
        (case vector_swizzle_loop subscript (rows (exp_type expr)) [] [] False of
           Inl f \<Rightarrow> (False, expr, error loc 3018 (swizzle_message subscript f) p)
         | Inr (offsets, constant) \<Rightarrow>
             (True,
              mark_unmodifiable constant (asa expr (pad_offsets offsets) (length subscript)),
              p)))"

text \<open>
  \<open>subscript[k]\<close> on a \<open>std::string\<close>: the character for \<open>k < size()\<close>, the terminating
  null character for \<open>k = size()\<close>, undefined beyond.
\<close>

definition char_at :: "string \<Rightarrow> nat \<Rightarrow> char option" where
  "char_at s k =
     (if k < length s then Some (s ! k) else if k = length s then Some (CHR 0x00) else None)"

text \<open>
  The loop of a matrix swizzle, lines 1316-1337, from index \<open>i\<close> on; \<open>j\<close> is the length
  of \<open>offsets\<close>. \<open>set\<close> is 1 for the style \<open>_m00\<close> and 0 for the style \<open>_11\<close>, and
  \<open>coefficient = !set\<close>. The conditions are evaluated left to right, so a character is
  read only when those before it passed.
\<close>

function matrix_swizzle_loop ::
  "string \<Rightarrow> nat \<Rightarrow> nat \<Rightarrow> nat \<Rightarrow> nat \<Rightarrow> int list \<Rightarrow> bool
     \<Rightarrow> (swizzle_failure + (int list \<times> bool)) outcome" where
  "matrix_swizzle_loop subscript st rws cls i offsets constant =
     (if \<not> i < length subscript then Returns (Inr (offsets, constant))
      else
        (let coefficient = 1 - st;
             valid = (\<lambda>c. 48 + coefficient \<le> (of_char c :: nat)
                          \<and> (of_char c :: nat) \<le> 51 + coefficient)
         in if subscript ! i \<noteq> CHR ''_'' then Returns (Inl invalid_subscript)
            else
              (case char_at subscript (i + st + 1) of
                 None \<Rightarrow> Out_of_bounds
               | Some c1 \<Rightarrow>
                   if \<not> valid c1 then Returns (Inl invalid_subscript)
                   else
                     (case char_at subscript (i + st + 2) of
                        None \<Rightarrow> Out_of_bounds
                      | Some c2 \<Rightarrow>
                          if \<not> valid c2 then Returns (Inl invalid_subscript)
                          else if st \<noteq> 0 \<and> subscript ! (i + 1) \<noteq> CHR ''m''
                            then Returns (Inl mixed_swizzle_sets)
                          else
                            (let row = (of_char c1 :: nat) - 48 - coefficient;
                                 col = (of_char c2 :: nat) - 48 - coefficient
                             in if rws \<le> row \<or> cls \<le> col \<or> 3 < length offsets
                                  then Returns (Inl swizzle_out_of_range)
                                else matrix_swizzle_loop subscript st rws cls (i + 3 + st)
                                       (offsets @ [int (row * 4 + col)])
                                       (constant \<or> int (row * 4 + col) \<in> set offsets))))))"
  by pat_completeness auto
termination
  by (relation "measure (\<lambda>(subscript, st, rws, cls, i, offsets, constant). length subscript - i)")
    auto

declare matrix_swizzle_loop.simps [simp del]

text \<open>The branch \<open>else if (exp.type.is_matrix())\<close>, lines 1307-1343.\<close>

definition matrix_swizzle ::
  "(spv_expression \<Rightarrow> int list \<Rightarrow> nat \<Rightarrow> spv_expression) \<Rightarrow> location \<Rightarrow> string
     \<Rightarrow> spv_expression \<Rightarrow> parser \<Rightarrow> (bool \<times> spv_expression \<times> parser) outcome" where
  "matrix_swizzle asa loc subscript expr p =
     (if length subscript < 3
        then Returns (False, expr, error loc 3018 (swizzle_message subscript invalid_subscript) p)
      else
        (let st = (if subscript ! 1 = CHR ''m'' then 1 else 0 :: nat) in
         case matrix_swizzle_loop subscript st (rows (exp_type expr)) (cols (exp_type expr))
                0 [] False of
           Out_of_fuel \<Rightarrow> Out_of_fuel
         | Out_of_bounds \<Rightarrow> Out_of_bounds
         | Returns (Inl f) \<Rightarrow>
             Returns (False, expr, error loc 3018 (swizzle_message subscript f) p)
         | Returns (Inr (offsets, constant)) \<Rightarrow>
             Returns (True,
               mark_unmodifiable constant
                 (asa expr (pad_offsets offsets) (length subscript div (3 + st))),
               p)))"

subsection \<open>Assignment (lines 496-529 and 1861-1916)\<close>

text \<open>
  Modelled from the spec: \<open>add_node(section, location, op, type)\<close> followed by its \<open>add\<close>
  calls, and \<open>spv_expression::reset_to_rvalue\<close> (both in the header), after sections 3.3,
  3.5 and 4.8: the instruction gets a fresh result id and is appended to the section; an
  r-value expression has a base id, a type and a location, is neither an l-value nor a
  constant and has an empty chain.
\<close>

definition add_node ::
  "spv_basic_block \<Rightarrow> location \<Rightarrow> Op \<Rightarrow> nat \<Rightarrow> nat list \<Rightarrow> parser \<Rightarrow> nat \<times> spv_basic_block \<times> parser" where
  "add_node sect loc opc type_id args p =
     (case make_id p of
        (i, p1) \<Rightarrow>
          (i,
           sect @ [\<lparr>op = opc, result_type = type_id, result = i, operands = args,
                    ins_location = loc\<rparr>],
           p1))"

definition reset_to_rvalue :: "nat \<Rightarrow> spv_type \<Rightarrow> location \<Rightarrow> spv_expression" where
  "reset_to_rvalue i t loc =
     \<lparr>exp_base = i, exp_type = t, exp_constant = zero_constant, is_lvalue = False,
      is_constant = False, exp_location = loc\<rparr>"

text \<open>
  \<open>accept_assignment_op\<close>; \<open>None\<close> is the answer false, which leaves \<open>op\<close> unset.
  \<open>tokenid::equal\<close> is the character \<open>=\<close>.
\<close>

definition accept_assignment_op :: "externals \<Rightarrow> spv_type \<Rightarrow> parser \<Rightarrow> (Op \<times> parser) option" where
  "accept_assignment_op X type p =
     (let t = tok_id (token_next p) in
      if t = punct CHR ''='' then Some (OpNop, consume p)
      else if t = percent_equal
        then Some (if is_integral X type
                   then (if is_signed X type then OpSRem else OpUMod) else OpFRem, consume p)
      else if t = ampersand_equal then Some (OpBitwiseAnd, consume p)
      else if t = star_equal
        then Some (if is_integral X type then OpIMul else OpFMul, consume p)
      else if t = plus_equal
        then Some (if is_integral X type then OpIAdd else OpFAdd, consume p)
      else if t = minus_equal
        then Some (if is_integral X type then OpISub else OpFSub, consume p)
      else if t = slash_equal
        then Some (if is_integral X type
                   then (if is_signed X type then OpSDiv else OpUDiv) else OpFDiv, consume p)
      else if t = less_less_equal then Some (OpShiftLeftLogical, consume p)
      else if t = greater_greater_equal
        then Some (if is_signed X type then OpShiftRightArithmetic else OpShiftRightLogical,
                   consume p)
      else if t = caret_equal then Some (OpBitwiseXor, consume p)
      else if t = pipe_equal then Some (OpBitwiseOr, consume p)
      else None)"

text \<open>
  \<open>parse_expression_assignment\<close>; the result carries \<open>lhs\<close> as the caller finds it.
\<close>

definition parse_expression_assignment ::
  "externals \<Rightarrow> spv_basic_block \<Rightarrow> parser \<Rightarrow> bool \<times> spv_expression \<times> spv_basic_block \<times> parser" where
  "parse_expression_assignment X sect p =
     (case parse_expression_multary X sect p of
        (False, lhs, sect1, p1) \<Rightarrow> (False, lhs, sect1, p1)
      | (True, lhs, sect1, p1) \<Rightarrow>
     (case accept_assignment_op X (exp_type lhs) p1 of
        None \<Rightarrow> (True, lhs, sect1, p1)
      | Some (opc, p2) \<Rightarrow>
     (case parse_expression_multary X sect1 p2 of
        (False, rhs, sect2, p3) \<Rightarrow> (False, lhs, sect2, p3)
      | (True, rhs, sect2, p3) \<Rightarrow>
     if has (exp_type lhs) qualifier_const \<or> has (exp_type lhs) qualifier_uniform
          \<or> \<not> is_lvalue lhs
       then (False, lhs, sect2,
             error (exp_location lhs) 3025 [Text ''l-value specifies const object''] p3)
     else if array_length (exp_type lhs) \<noteq> array_length (exp_type rhs)
               \<or> rank X (exp_type lhs) (exp_type rhs) = 0
       then (False, lhs, sect2,
             error (exp_location rhs) 3020 [Text ''cannot convert these types''] p3)
     else
     (let p4 = (if components X (exp_type lhs) < components X (exp_type rhs)
                then warning (exp_location rhs) 3206
                       [Text ''implicit truncation of vector type''] p3
                else p3)
      in case access_chain_load X sect2 (add_cast_operation X rhs (exp_type lhs)) p4 of
           (rhs_value, sect3, p5) \<Rightarrow>
     (case (if opc \<noteq> OpNop then
              (case access_chain_load X sect3 lhs p5 of
                 (lhs_value, sect4, p6) \<Rightarrow>
                   (case convert_type X (exp_type lhs) p6 of
                      (type_id, p7) \<Rightarrow>
                        add_node sect4 (exp_location lhs) opc type_id [lhs_value, rhs_value] p7))
            else (rhs_value, sect3, p5)) of
        (value, sect5, p8) \<Rightarrow>
     (case access_chain_store X sect5 lhs value (exp_type lhs) p8 of
        (sect6, p9) \<Rightarrow>
          (True, reset_to_rvalue value (exp_type lhs) (exp_location lhs), sect6, p9)))))))"

subsection \<open>Calls (lines 1056-1166)\<close>

text \<open>
  The chain that emits a resolved call, lines 1056-1166: \<open>symbol\<close> is what
  \<open>resolve_function_call\<close> answered, \<open>parameters\<close> are the prepared parameter expressions,
  \<open>expr\<close> is the expression \<open>exp\<close> being built. The branches for \<open>rcp\<close>, \<open>saturate\<close>, \<open>sincos\<close>
  and the other intrinsics are the parameter \<open>intrinsic_call\<close>; the last branch, the call
  of a user function with its test for recursion, is embedded. \<open>symbol.function\<close> and
  \<open>_functions[_current_function].get()\<close> are compared as addresses.
\<close>

definition emit_call ::
  "externals \<Rightarrow> location \<Rightarrow> symbol \<Rightarrow> spv_expression list \<Rightarrow> spv_expression
     \<Rightarrow> spv_basic_block \<Rightarrow> parser \<Rightarrow> (bool \<times> spv_expression \<times> spv_basic_block \<times> parser) outcome" where
  "emit_call X loc symbol parameters expr sect p =
     (if sym_id symbol = 0x10000001 \<or> sym_id symbol = 0x10000002 \<or> sym_id symbol = 0x10000003
         \<or> sym_op symbol \<noteq> OpFunctionCall
        then (case intrinsic_call X loc symbol parameters sect p of
                (exp1, sect1, p1) \<Rightarrow> Returns (True, exp1, sect1, p1))
      else if current_function p \<noteq> size_t_max
              \<and> \<not> current_function p < length (function_list p)
        then Out_of_bounds
      else if current_function p \<noteq> size_t_max
              \<and> fi_address (function_list p ! current_function p) = sym_function symbol
        then Returns (False, expr, sect,
               error loc 3500 [Text ''recursive function calls are not allowed''] p)
      else
        (case convert_type X (sym_type symbol) p of
           (type_id, p1) \<Rightarrow>
             (case add_node sect loc OpFunctionCall type_id
                     (sym_id symbol # map exp_base parameters) p1 of
                (result_id, sect1, p2) \<Rightarrow>
                  Returns (True, reset_to_rvalue result_id (sym_type symbol) loc, sect1, p2))))"

section \<open>The driver: \<open>run\<close>, \<open>parse_top_level\<close>, techniques and annotations (lines 45-79, 1918-2032, 3122-3551)\<close>

type_synonym parse_result = "bool \<times> parser"

text \<open>
  \<open>parse_annotations\<close>, lines 1918-1949: the loop from line 1925 on, with the flag
  \<open>success\<close>. The result is \<open>False\<close> for \<open>return false\<close> and otherwise what
  \<open>expect('>') && success\<close> gives. The map \<open>annotations\<close> belongs to the caller's local
  record and is not kept.
\<close>

primrec annotations_loop :: "nat \<Rightarrow> externals \<Rightarrow> bool \<Rightarrow> parser \<Rightarrow> parse_result outcome" where
  "annotations_loop 0 = (\<lambda>X success p. Out_of_fuel)"
| "annotations_loop (Suc k) = (\<lambda>X success p.
     if \<not> peek (punct CHR ''>'') p then
       (case accept_type_class X p of
          (typed, type, p0) \<Rightarrow>
            (let p1 = (if typed
                       then warning (tok_location (token_cur p0)) 4717
                              [Text ''type prefixes for annotations are deprecated and ignored''] p0
                       else p0)
             in case expect tok_identifier p1 of
                  (False, p2) \<Rightarrow> Returns (False, p2)
                | (True, p2) \<Rightarrow>
                    (case expect (punct CHR ''='') p2 of
                       (False, p3) \<Rightarrow> Returns (False, p3)
                     | (True, p3) \<Rightarrow>
                         (case parse_expression_unary X [] p3 of
                            (False, expression, temp_section, p4) \<Rightarrow> Returns (False, p4)
                          | (True, expression, temp_section, p4) \<Rightarrow>
                              (case expect (punct CHR '';'') p4 of
                                 (False, p5) \<Rightarrow> Returns (False, p5)
                               | (True, p5) \<Rightarrow>
                                   if \<not> is_constant expression
                                     then annotations_loop k X False
                                            (error (exp_location expression) 3011
                                               [Text ''value must be a literal expression''] p5)
                                   else annotations_loop k X success p5)))))
     else (case expect (punct CHR ''>'') p of (ok, p1) \<Rightarrow> Returns (ok \<and> success, p1)))"

definition parse_annotations :: "nat \<Rightarrow> externals \<Rightarrow> parser \<Rightarrow> parse_result outcome" where
  "parse_annotations n X p =
     (if \<not> peek (punct CHR ''<'') p then Returns (True, p)
      else annotations_loop n X True (consume p))"

text \<open>
  The loop over the states of a pass, \<open>parse_technique_pass\<close> lines 3156-3549. The
  result is \<open>False\<close> for a \<open>return false\<close> of the function.
\<close>

primrec pass_state_loop :: "nat \<Rightarrow> externals \<Rightarrow> parser \<Rightarrow> parse_result outcome" where
  "pass_state_loop 0 = (\<lambda>X p. Out_of_fuel)"
| "pass_state_loop (Suc k) = (\<lambda>X p.
     if \<not> peek (punct CHR ''}'') p then
       (case expect tok_identifier p of
          (False, p1) \<Rightarrow> Returns (False, consume_until (punct CHR ''}'') p1)
        | (True, p1) \<Rightarrow>
            (case expect (punct CHR ''='') p1 of
               (False, p2) \<Rightarrow> Returns (False, consume_until (punct CHR ''}'') p2)
             | (True, p2) \<Rightarrow>
                 (case pass_state_value X (tok_location (token_cur p1))
                         (literal_as_string (token_cur p1)) p2 of
                    (False, p3) \<Rightarrow> Returns (False, p3)
                  | (True, p3) \<Rightarrow>
                      (case expect (punct CHR '';'') p3 of
                         (False, p4) \<Rightarrow> Returns (False, consume_until (punct CHR ''}'') p4)
                       | (True, p4) \<Rightarrow> pass_state_loop k X p4))))
     else Returns (True, p))"

definition parse_technique_pass :: "nat \<Rightarrow> externals \<Rightarrow> parser \<Rightarrow> parse_result outcome" where
  "parse_technique_pass n X p =
     (case expect pass p of
        (False, p1) \<Rightarrow> Returns (False, p1)
      | (True, p1) \<Rightarrow>
          (case expect (punct CHR ''{'') (snd (accept tok_identifier p1)) of
             (False, p3) \<Rightarrow> Returns (False, p3)
           | (True, p3) \<Rightarrow>
               (case pass_state_loop n X p3 of
                  Out_of_fuel \<Rightarrow> Out_of_fuel
                | Out_of_bounds \<Rightarrow> Out_of_bounds
                | Returns (False, p4) \<Rightarrow> Returns (False, p4)
                | Returns (True, p4) \<Rightarrow>
                    (case expect (punct CHR ''}'') p4 of (ok, p5) \<Rightarrow> Returns (ok, p5)))))"

text \<open>
  The loop over the passes of a technique, \<open>parse_technique\<close> lines 3135-3141: a pass
  that fails ends the technique only when no other pass follows; when one follows, the
  loop goes on and nothing remembers the failure.
\<close>

primrec technique_pass_loop :: "nat \<Rightarrow> nat \<Rightarrow> externals \<Rightarrow> parser \<Rightarrow> parse_result outcome" where
  "technique_pass_loop 0 = (\<lambda>n X p. Out_of_fuel)"
| "technique_pass_loop (Suc k) = (\<lambda>n X p.
     if \<not> peek (punct CHR ''}'') p then
       (case parse_technique_pass n X p of
          Out_of_fuel \<Rightarrow> Out_of_fuel
        | Out_of_bounds \<Rightarrow> Out_of_bounds
        | Returns (True, p1) \<Rightarrow> technique_pass_loop k n X p1
        | Returns (False, p1) \<Rightarrow>
            if \<not> peek pass p1 then Returns (False, consume_until (punct CHR ''}'') p1)
            else technique_pass_loop k n X p1)
     else Returns (True, p))"

definition parse_technique :: "nat \<Rightarrow> externals \<Rightarrow> parser \<Rightarrow> parse_result outcome" where
  "parse_technique n X p =
     (case expect tok_identifier p of
        (False, p1) \<Rightarrow> Returns (False, p1)
      | (True, p1) \<Rightarrow>
          (case parse_annotations n X p1 of
             Out_of_fuel \<Rightarrow> Out_of_fuel
           | Out_of_bounds \<Rightarrow> Out_of_bounds
           | Returns (False, p2) \<Rightarrow> Returns (False, p2)
           | Returns (True, p2) \<Rightarrow>
               (case expect (punct CHR ''{'') p2 of
                  (False, p3) \<Rightarrow> Returns (False, p3)
                | (True, p3) \<Rightarrow>
                    (case technique_pass_loop n n X p3 of
                       Out_of_fuel \<Rightarrow> Out_of_fuel
                     | Out_of_bounds \<Rightarrow> Out_of_bounds
                     | Returns (False, p4) \<Rightarrow> Returns (False, p4)
                     | Returns (True, p4) \<Rightarrow>
                         (case expect (punct CHR ''}'') p4 of (ok, p5) \<Rightarrow> Returns (ok, p5))))))"

text \<open>
  The dummy symbols that \<open>parse_top_level\<close> inserts after a failed declaration:
  \<open>{ spv::OpFunction, 0xFFFFFFFF, { spv_type::datatype_function } }\<close> and
  \<open>{ spv::OpVariable, 0xFFFFFFFF, type }\<close>.
\<close>

definition dummy_function_symbol :: symbol where
  "dummy_function_symbol =
     \<lparr>sym_op = OpFunction, sym_id = 0xFFFFFFFF,
      sym_type = \<lparr>base = datatype_function, rows = 0, cols = 0, qualifiers = {},
                  is_pointer = False, is_input = False, is_output = False, array_length = 0,
                  definition_id = 0\<rparr>,
      sym_function = 0, sym_constant = zero_constant, sym_member_index = size_t_max\<rparr>"

definition dummy_variable_symbol :: "spv_type \<Rightarrow> symbol" where
  "dummy_variable_symbol type =
     \<lparr>sym_op = OpVariable, sym_id = 0xFFFFFFFF, sym_type = type,
      sym_function = 0, sym_constant = zero_constant, sym_member_index = size_t_max\<rparr>"

text \<open>
  The \<open>do ... while (!peek(';'))\<close> loop over the names of a global declaration,
  \<open>parse_top_level\<close> lines 2009-2021, with the \<open>expect(';')\<close> behind it.
\<close>

primrec global_variable_list ::
  "nat \<Rightarrow> externals \<Rightarrow> spv_type \<Rightarrow> nat \<Rightarrow> parser \<Rightarrow> parse_result outcome" where
  "global_variable_list 0 = (\<lambda>X type count p. Out_of_fuel)"
| "global_variable_list (Suc k) = (\<lambda>X type count p.
     (let r1 = (if 0 < count
                then (case expect (punct CHR '','') p of
                        (False, q) \<Rightarrow> (False, q)
                      | (True, q) \<Rightarrow> expect tok_identifier q)
                else (True, p))
      in if \<not> fst r1 then Returns (False, snd r1)
         else
           (let name = literal_as_string (token_cur (snd r1)) in
            case parse_global_variable X type name (snd r1) of
              (False, p2) \<Rightarrow>
                Returns (False,
                  consume_until (punct CHR '';'')
                    (snd (insert_symbol X name (dummy_variable_symbol type) True p2)))
            | (True, p2) \<Rightarrow>
                if \<not> peek (punct CHR '';'') p2 then global_variable_list k X type (count + 1) p2
                else (case expect (punct CHR '';'') p2 of (ok, p3) \<Rightarrow> Returns (ok, p3)))))"

text \<open>
  The loop \<open>while (!peek('}')) if (!parse_top_level()) success = false;\<close> of a namespace
  (lines 1968-1972); \<open>rec\<close> is \<open>parse_top_level\<close>.
\<close>

primrec namespace_loop ::
  "nat \<Rightarrow> (parser \<Rightarrow> parse_result outcome) \<Rightarrow> bool \<Rightarrow> parser \<Rightarrow> parse_result outcome" where
  "namespace_loop 0 = (\<lambda>rec success p. Out_of_fuel)"
| "namespace_loop (Suc k) = (\<lambda>rec success p.
     if \<not> peek (punct CHR ''}'') p then
       (case rec p of
          Out_of_fuel \<Rightarrow> Out_of_fuel
        | Out_of_bounds \<Rightarrow> Out_of_bounds
        | Returns (ok, p1) \<Rightarrow> namespace_loop k rec (success \<and> ok) p1)
     else Returns (success, p))"

text \<open>The body of \<open>parse_top_level\<close>, lines 1953-2032.\<close>

definition parse_top_level_body ::
  "nat \<Rightarrow> externals \<Rightarrow> (parser \<Rightarrow> parse_result outcome) \<Rightarrow> parser \<Rightarrow> parse_result outcome" where
  "parse_top_level_body n X rec p =
     (if peek tok_namespace p then
        (case expect tok_identifier (consume p) of
           (False, p2) \<Rightarrow> Returns (False, p2)
         | (True, p2) \<Rightarrow>
             (case expect (punct CHR ''{'') p2 of
                (False, p3) \<Rightarrow> Returns (False, p3)
              | (True, p3) \<Rightarrow>
                  (case namespace_loop n rec True
                          (enter_namespace X (literal_as_string (token_cur p2)) p3) of
                     Out_of_fuel \<Rightarrow> Out_of_fuel
                   | Out_of_bounds \<Rightarrow> Out_of_bounds
                   | Returns (success, p4) \<Rightarrow>
                       (case expect (punct CHR ''}'') (leave_namespace X p4) of
                          (ok, p5) \<Rightarrow> Returns (ok \<and> success, p5)))))
      else if peek tok_struct p then
        (case parse_struct X (consume p) of
           (False, p1) \<Rightarrow> Returns (False, p1)
         | (True, p1) \<Rightarrow> Returns (expect (punct CHR '';'') p1))
      else if peek technique p then parse_technique n X (consume p)
      else
        (case parse_type X p of
           (True, type, p1) \<Rightarrow>
             (case expect tok_identifier p1 of
                (False, p2) \<Rightarrow> Returns (False, p2)
              | (True, p2) \<Rightarrow>
                  if peek (punct CHR ''('') p2 then
                    (case parse_function X type (literal_as_string (token_cur p2)) p2 of
                       (False, p3) \<Rightarrow>
                         Returns (False,
                           snd (insert_symbol X (literal_as_string (token_cur p2))
                                  dummy_function_symbol True p3))
                     | (True, p3) \<Rightarrow> Returns (True, p3))
                  else global_variable_list n X type 0 p2)
         | (False, type, p1) \<Rightarrow>
             if peek (punct CHR '';'') p1 then Returns (True, consume p1)
             else
               (let p2 = consume p1 in
                Returns (False,
                  error (tok_location (token_cur p2)) 3000
                    [Text ''syntax error: unexpected '', quote,
                     TokenName (tok_id (token_cur p2)), quote] p2))))"

primrec parse_top_level :: "nat \<Rightarrow> externals \<Rightarrow> parser \<Rightarrow> parse_result outcome" where
  "parse_top_level 0 = (\<lambda>X p. Out_of_fuel)"
| "parse_top_level (Suc n) = (\<lambda>X p. parse_top_level_body n X (parse_top_level n X) p)"

text \<open>
  Modelled from the spec: \<open>add_decoration\<close> (header), after sections 3.5 and 4.8: the
  builder records the decoration of an id.
\<close>

definition add_decoration :: "nat \<Rightarrow> Decoration \<Rightarrow> nat list \<Rightarrow> parser \<Rightarrow> parser" where
  "add_decoration i d args p = p\<lparr>decorations := decorations p @ [(i, d, args)]\<rparr>"

text \<open>The loop of \<open>run\<close> that converts the member types, lines 62-66.\<close>

primrec convert_member_types ::
  "externals \<Rightarrow> spv_struct_member_info list \<Rightarrow> nat list \<Rightarrow> parser \<Rightarrow> nat list \<times> parser" where
  "convert_member_types X [] member_types p = (member_types, p)"
| "convert_member_types X (member # rest) member_types p =
     (case convert_type X (member_type member) p of
        (i, p1) \<Rightarrow> convert_member_types X rest (member_types @ [i]) p1)"

text \<open>
  The creation of the global uniform buffer object, lines 61-72 (the \<open>assert\<close> of line
  64 holds for every member the uniform branch of \<open>parse_variable\<close> appended).
\<close>

definition create_global_ubo :: "externals \<Rightarrow> parser \<Rightarrow> parser" where
  "create_global_ubo X p =
     (case convert_member_types X (uniforms_member_list p) [] p of
        (member_types, p1) \<Rightarrow>
          (let p2 = define_struct X (global_ubo_type p1) ''$Globals'' member_types p1;
               p3 = add_decoration (global_ubo_type p2) DecorationBlock [] p2;
               p4 = add_decoration (global_ubo_type p3) DecorationDescriptorSet [0] p3
           in define_variable X (global_ubo_variable p4) ''$Globals''
                \<lparr>base = datatype_struct, rows = 0, cols = 0, qualifiers = {qualifier_uniform},
                 is_pointer = True, is_input = False, is_output = False, array_length = 0,
                 definition_id = global_ubo_type p4\<rparr>
                StorageClassUniform p4))"

text \<open>The loop \<open>while (!peek(end_of_file)) if (!parse_top_level()) success = false;\<close>.\<close>

primrec top_level_loop ::
  "nat \<Rightarrow> nat \<Rightarrow> externals \<Rightarrow> bool \<Rightarrow> parser \<Rightarrow> parse_result outcome" where
  "top_level_loop 0 = (\<lambda>n X success p. Out_of_fuel)"
| "top_level_loop (Suc k) = (\<lambda>n X success p.
     if \<not> peek end_of_file p then
       (case parse_top_level n X p of
          Out_of_fuel \<Rightarrow> Out_of_fuel
        | Out_of_bounds \<Rightarrow> Out_of_bounds
        | Returns (ok, p1) \<Rightarrow> top_level_loop k n X (success \<and> ok) p1)
     else Returns (success, p))"

text \<open>
  \<open>run\<close>. \<open>input\<close> is the token sequence the new lexer produces for the input string;
  the call of \<open>write_module\<close> on the stream opened on \<open>test.spv\<close> is recorded in
  \<open>module_writes\<close>.
\<close>

definition run :: "nat \<Rightarrow> externals \<Rightarrow> token list \<Rightarrow> parser \<Rightarrow> parse_result outcome" where
  "run n X input p0 =
     (case top_level_loop n n X True (consume (p0\<lparr>lexer_rest := input\<rparr>)) of
        Out_of_fuel \<Rightarrow> Out_of_fuel
      | Out_of_bounds \<Rightarrow> Out_of_bounds
      | Returns (success, p1) \<Rightarrow>
          (let p2 = (if global_ubo_type p1 \<noteq> 0 then create_global_ubo X p1 else p1)
           in Returns (success, p2\<lparr>module_writes := module_writes p2 @ [''test.spv'']\<rparr>)))"

text \<open>
  The property of a finished compilation that the spec calls success: no diagnostic of
  error severity is in the buffer.
\<close>

definition no_error_emitted :: "parser \<Rightarrow> bool" where
  "no_error_emitted p \<longleftrightarrow> list_all (\<lambda>d. diag_severity d \<noteq> severity_error) (errors p)"

text \<open>
  The parts of the parser that are parameters here leave the record of the
  \<open>write_module\<close> calls alone (in the source none of them calls \<open>write_module\<close>, whose
  only call is the one in \<open>run\<close>).
\<close>

definition keeps_module_writes :: "externals \<Rightarrow> bool" where
  "keeps_module_writes X \<longleftrightarrow>
     (\<forall>p. module_writes (snd (parse_struct X p)) = module_writes p)
   \<and> (\<forall>t name p. module_writes (snd (parse_function X t name p)) = module_writes p)
   \<and> (\<forall>t name p. module_writes (snd (parse_global_variable X t name p)) = module_writes p)
   \<and> (\<forall>name sym global p. module_writes (snd (insert_symbol X name sym global p)) = module_writes p)
   \<and> (\<forall>name p. module_writes (enter_namespace X name p) = module_writes p)
   \<and> (\<forall>p. module_writes (leave_namespace X p) = module_writes p)
   \<and> (\<forall>p. module_writes (snd (snd (parse_type X p))) = module_writes p)
   \<and> (\<forall>p. module_writes (snd (snd (accept_type_class X p))) = module_writes p)
   \<and> (\<forall>sect p. module_writes (snd (snd (snd (parse_expression_unary X sect p)))) = module_writes p)
   \<and> (\<forall>loc state p. module_writes (snd (pass_state_value X loc state p)) = module_writes p)
   \<and> (\<forall>t p. module_writes (snd (convert_type X t p)) = module_writes p)
   \<and> (\<forall>i name members p. module_writes (define_struct X i name members p) = module_writes p)
   \<and> (\<forall>i name t c p. module_writes (define_variable X i name t c p) = module_writes p)"

section \<open>Concrete inputs\<close>

text \<open>A token with nothing but its id, for the concrete inputs of the examples.\<close>

definition tok :: "tokenid \<Rightarrow> token" where
  "tok t = \<lparr>tok_id = t, tok_location = no_location, literal_as_string = []\<rparr>"

definition ident :: "string \<Rightarrow> token" where
  "ident s = \<lparr>tok_id = tok_identifier, tok_location = no_location, literal_as_string = s\<rparr>"

text \<open>
  A float scalar constant with the given bit pattern in lane 0, as the expression parser
  hands it on for a float literal.
\<close>

definition float_scalar_type :: spv_type where
  "float_scalar_type =
     \<lparr>base = datatype_float, rows = 1, cols = 1, qualifiers = {}, is_pointer = False,
      is_input = False, is_output = False, array_length = 0, definition_id = 0\<rparr>"

definition float_constant :: "32 word \<Rightarrow> spv_expression" where
  "float_constant w =
     \<lparr>exp_base = 0, exp_type = float_scalar_type,
      exp_constant = Constant (w # replicate 15 0) [] [],
      is_lvalue = False, is_constant = True, exp_location = no_location\<rparr>"

text \<open>
  A \<open>float4\<close> variable \<open>v\<close> (a non-const, non-uniform l-value with base id 11); reading
  its name with a swizzle suffix, such as \<open>v.xx\<close>, is done by the postfix part of the
  expression parser, which the example parameters do with \<open>vector_swizzle\<close>.
\<close>

definition float4_variable :: spv_expression where
  "float4_variable =
     \<lparr>exp_base = 11, exp_type = float_scalar_type\<lparr>rows := 4\<rparr>,
      exp_constant = zero_constant, is_lvalue = True, is_constant = False,
      exp_location = no_location\<rparr>"

definition float4x4_variable :: spv_expression where
  "float4x4_variable =
     \<lparr>exp_base = 12, exp_type = float_scalar_type\<lparr>rows := 4, cols := 4\<rparr>,
      exp_constant = zero_constant, is_lvalue = True, is_constant = False,
      exp_location = no_location\<rparr>"

text \<open>
  For the examples: an \<open>add_swizzle_access\<close> that sets the dimensions of the result and
  keeps the qualifiers and the l-value flag, and an operand parser that reads the
  variable \<open>v\<close> above by its name, followed or not by a dot and a vector swizzle.
\<close>

definition example_add_swizzle_access :: "spv_expression \<Rightarrow> int list \<Rightarrow> nat \<Rightarrow> spv_expression" where
  "example_add_swizzle_access e offsets n = e\<lparr>exp_type := (exp_type e)\<lparr>rows := n, cols := 1\<rparr>\<rparr>"

definition example_operand ::
  "spv_basic_block \<Rightarrow> parser \<Rightarrow> bool \<times> spv_expression \<times> spv_basic_block \<times> parser" where
  "example_operand sect p =
     (if \<not> peek tok_identifier p then (False, float4_variable, sect, p)
      else
        (let p1 = consume p in
         if \<not> peek (punct CHR ''.'') p1 then (True, float4_variable, sect, p1)
         else
           (case expect tok_identifier (consume p1) of
              (False, p2) \<Rightarrow> (False, float4_variable, sect, p2)
            | (True, p2) \<Rightarrow>
                (case vector_swizzle example_add_swizzle_access (tok_location (token_cur p2))
                        (literal_as_string (token_cur p2)) float4_variable p2 of
                   (ok, e, p3) \<Rightarrow> (ok, e, sect, p3)))))"

text \<open>
  Values for the parameters, for the examples only: an expression parser that reads one
  token and answers the float constant \<open>1.5\<close> (bit pattern \<open>0x3FC00000\<close>), declaration
  parsers and statement regions that fail without any effect, helpers that change
  nothing, a load that answers the id 7, a type interning that answers the id 100, and
  the operand parser and \<open>add_swizzle_access\<close> above.
\<close>

definition example_externals :: externals where
  "example_externals =
     \<lparr>parse_expression = (\<lambda>sect p.
        if peek (other_token 0) p then (True, float_constant 0x3FC00000, sect, consume p)
        else (False, float_constant 0, sect, p)),
      parse_type = (\<lambda>p. (False, float_scalar_type, p)),
      parse_variable = (\<lambda>t name sect p. (False, sect, p)),
      enter_scope = (\<lambda>p. p),
      leave_scope = (\<lambda>p. p),
      add_cast_operation = (\<lambda>e t. e),
      access_chain_load = (\<lambda>sect e p. (7, sect, p)),
      rank = (\<lambda>a b. 1),
      components = (\<lambda>t. rows t * cols t),
      if_statement = (\<lambda>loc c sect p. (False, sect, p)),
      for_statement = (\<lambda>loc c sect p. (False, sect, p)),
      while_statement = (\<lambda>loc c sect p. (False, sect, p)),
      do_statement = (\<lambda>loc c sect p. (False, sect, p)),
      parse_expression_multary = example_operand,
      is_integral = (\<lambda>t. base t = datatype_int \<or> base t = datatype_uint),
      is_signed = (\<lambda>t. base t = datatype_int \<or> base t = datatype_float),
      convert_type = (\<lambda>t p. (100, p)),
      access_chain_store = (\<lambda>sect e v t p. (sect, p)),
      add_swizzle_access = example_add_swizzle_access,
      intrinsic_call = (\<lambda>loc sym ps sect p. (float_constant 0, sect, p)),
      parse_struct = (\<lambda>p. (False, p)),
      parse_function = (\<lambda>t name p. (False, p)),
      parse_global_variable = (\<lambda>t name p. (False, p)),
      insert_symbol = (\<lambda>name sym global p. (True, p)),
      enter_namespace = (\<lambda>name p. p),
      leave_namespace = (\<lambda>p. p),
      accept_type_class = (\<lambda>p. (False, float_scalar_type, p)),
      parse_expression_unary = (\<lambda>sect p. (False, float_constant 0, sect, p)),
      pass_state_value = (\<lambda>loc state p. (False, p)),
      define_struct = (\<lambda>i name members p. p),
      define_variable = (\<lambda>i name t c p. p)\<rparr>"

text \<open>
  A parser inside the body of a function (the first one, returning \<open>void\<close>) with the
  basic block 1 open, about to read the given tokens.
\<close>

definition void_type :: spv_type where
  "void_type =
     \<lparr>base = datatype_void, rows = 0, cols = 0, qualifiers = {}, is_pointer = False,
      is_input = False, is_output = False, array_length = 0, definition_id = 0\<rparr>"

definition in_function :: "token list \<Rightarrow> parser" where
  "in_function ts =
     consume ((start_parser ts)\<lparr>current_block := 1, current_function := 0, next_id := 2,
                function_list := [\<lparr>fi_address = 1, return_type = void_type\<rparr>]\<rparr>)"

text \<open>
  The value of an IEEE-754 binary32 bit pattern with a normal exponent (neither 0 nor
  255): sign, fraction with its hidden bit, and exponent with bias 127.
\<close>

definition float_normal_value :: "32 word \<Rightarrow> rat" where
  "float_normal_value w =
     (if bit w 31 then - 1 else 1)
     * (1 + of_nat (unat (w AND 0x7FFFFF)) / 2 ^ 23)
     * (2 ^ unat (drop_bit 23 w AND 0xFF) / 2 ^ 127)"

text \<open>The tokens of the input \<open>technique T { pass { X } pass { } }\<close>.\<close>

definition technique_with_failed_pass :: "token list" where
  "technique_with_failed_pass =
     [tok technique, ident ''T'', tok (punct CHR ''{''),
      tok pass, tok (punct CHR ''{''), ident ''X'', tok (punct CHR ''}''),
      tok pass, tok (punct CHR ''{''), tok (punct CHR ''}''),
      tok (punct CHR ''}'')]"

text \<open>The diagnostic of a failed \<open>expect\<close>: \<open>found\<close> is the next token, \<open>wanted\<close> the expected one.\<close>

definition unexpected_token :: "tokenid \<Rightarrow> tokenid \<Rightarrow> diagnostic" where
  "unexpected_token found wanted =
     \<lparr>diag_severity = severity_error, diag_location = no_location, diag_code = 3000,
      diag_message = [Text ''syntax error: unexpected '', quote, TokenName found, quote,
                      Text '', expected '', quote, TokenName wanted, quote]\<rparr>"

section \<open>Shapes of inputs\<close>

text \<open>
  A run of \<open>case\<close> labels in front of the parser, \<open>case e1: case e2: ...\<close>: for each label,
  in turn, the token \<open>case\<close>, an expression for which the expression parser answers
  true with the scalar constant \<open>e\<close> (leaving the block as \<open>body1\<close> and the parser as
  \<open>p2\<close>), and a colon. The list holds these answers; \<open>label_run_end\<close> is the block and the
  parser behind the last colon.
\<close>

fun label_run ::
  "externals \<Rightarrow> spv_basic_block \<Rightarrow> parser
     \<Rightarrow> (spv_expression \<times> spv_basic_block \<times> parser) list \<Rightarrow> bool" where
  "label_run X body p [] \<longleftrightarrow> True"
| "label_run X body p ((e, body1, p2) # rest) \<longleftrightarrow>
     peek tok_case p \<and> parse_expression X body (consume p) = (True, e, body1, p2)
     \<and> is_scalar (exp_type e) \<and> is_constant e \<and> peek (punct CHR '':'') p2
     \<and> label_run X body1 (consume p2) rest"

fun label_run_end ::
  "spv_basic_block \<Rightarrow> parser \<Rightarrow> (spv_expression \<times> spv_basic_block \<times> parser) list
     \<Rightarrow> spv_basic_block \<times> parser" where
  "label_run_end body p [] = (body, p)"
| "label_run_end body p ((e, body1, p2) # rest) = label_run_end body1 (consume p2) rest"

text \<open>
  What the claim says is recorded for the labels \<open>es\<close> of the case block \<open>blk\<close>: for each
  label, lane 0 of its constant read as an unsigned 32-bit word, and the block.
\<close>

definition raw_lane_literals :: "nat \<Rightarrow> spv_expression list \<Rightarrow> nat list" where
  "raw_lane_literals blk es =
     concat (map (\<lambda>e. [unat (as_uint (exp_constant e) ! 0), blk]) es)"

text \<open>
  Values for the parameters of the switch examples: the expression parser answers the
  float constant \<open>1.5\<close> for the token \<open>other_token 0\<close> and the float constant \<open>2.5\<close> (bit
  pattern \<open>0x40200000\<close>) for the token \<open>other_token 1\<close>; a cast sets the type of the
  expression, and a load answers the id 7 for an expression of base type \<open>int\<close> and the
  id 8 for any other.
\<close>

definition switch_externals :: externals where
  "switch_externals =
     example_externals
       \<lparr>parse_expression := (\<lambda>sect p.
          if peek (other_token 0) p then (True, float_constant 0x3FC00000, sect, consume p)
          else if peek (other_token 1) p then (True, float_constant 0x40200000, sect, consume p)
          else (False, float_constant 0, sect, p)),
        add_cast_operation := (\<lambda>e t. e\<lparr>exp_type := t\<rparr>),
        access_chain_load := (\<lambda>sect e p.
          (if base (exp_type e) = datatype_int then 7 else 8, sect, p))\<rparr>"


section \<open>Verification\<close>

subsection \<open>Helper facts\<close>

lemma stol_digits:
  assumes "ds \<noteq> []" and "\<forall>c \<in> set ds. isdigit c" and "digits_value ds < 2 ^ (lb - 1)"
  shows "stol lb ds = Inr (int (digits_value ds))"
proof -
  obtain c cs where ds: "ds = c # cs" using assms(1) by (cases ds) auto
  have dc: "isdigit c" using assms(2) ds by simp
  have nsp: "\<not> isspace c" using dc by (auto simp: isspace_def isdigit_def)
  have nm: "c \<noteq> CHR ''-''" "c \<noteq> CHR ''+''" using dc by (auto simp: isdigit_def)
  have tw: "takeWhile isdigit (c # cs) = c # cs"
    using assms(2) ds by simp
  have b: "int (digits_value (c # cs)) < 2 ^ (lb - 1)"
    using assms(3) ds by (metis of_nat_less_iff of_nat_numeral of_nat_power)
  have b1: "\<not> int (digits_value (c # cs)) < - (2 ^ (lb - 1))"
  proof -
    have "(0::int) \<le> int (digits_value (c # cs))" by simp
    moreover have "- (2 ^ (lb - 1)) < (0::int)" by simp
    ultimately show ?thesis by linarith
  qed
  have b2: "\<not> 2 ^ (lb - 1) - 1 < int (digits_value (c # cs))"
    using b by linarith
  show ?thesis
    unfolding stol_def ds Let_def using nsp nm b1 b2
    by (simp add: tw del: takeWhile.simps One_nat_def)
qed

lemma not_both_prefixes:
  "take 9 s = ''SV_TARGET'' \<Longrightarrow> take 8 s \<noteq> ''TEXCOORD''"
proof
  assume a: "take 9 s = ''SV_TARGET''" and b: "take 8 s = ''TEXCOORD''"
  have "take 8 (take 9 s) = take 8 s" by simp
  with a b show False by simp
qed

subsection \<open>C1: the result of \<open>run\<close>\<close>

text \<open>
  C1 does not hold of the code: on the input \<open>technique T { pass { X } pass { } }\<close> the
  first pass fails (\<open>expect('=')\<close> appends the error 3000 "unexpected '}', expected '='"),
  \<open>parse_technique\<close> goes on with the next pass because one follows, and returns what
  \<open>expect('}')\<close> returns. So \<open>run\<close> returns true although a diagnostic of error severity
  is in the buffer. This holds whatever the parts of the parser that are parameters
  do: none of them is reached.
\<close>

theorem run_true_after_failed_pass:
  "run 4 X technique_with_failed_pass (start_parser []) =
     Returns (True,
       (start_parser [])
         \<lparr>token_cur := tok (punct CHR ''}''),
          errors := [unexpected_token (punct CHR ''}'') (punct CHR ''='')],
          module_writes := [''test.spv'']\<rparr>)
   \<and> \<not> no_error_emitted
         ((start_parser [])
            \<lparr>token_cur := tok (punct CHR ''}''),
             errors := [unexpected_token (punct CHR ''}'') (punct CHR ''='')],
             module_writes := [''test.spv'']\<rparr>)"
  by (simp add: run_def eval_nat_numeral parse_top_level_body_def parse_technique_def
      parse_technique_pass_def parse_annotations_def technique_with_failed_pass_def
      start_parser_def consume_def peek_def accept_def expect_def error_def tok_def ident_def
      eof_token_def no_location_def unexpected_token_def no_error_emitted_def
      consume_until.simps)

subsection \<open>C2: when the module is written\<close>

lemma writes_basic:
  "module_writes (consume p) = module_writes p"
  "module_writes (error loc code message p) = module_writes p"
  "module_writes (warning loc code message p) = module_writes p"
  "module_writes (snd (accept t p)) = module_writes p"
  "module_writes (snd (expect t p)) = module_writes p"
  "module_writes (add_decoration i d args p) = module_writes p"
  by (simp_all add: consume_def error_def warning_def accept_def expect_def add_decoration_def
      split: list.splits)

lemma writes_consume_until:
  "module_writes (consume_until t p) = module_writes p"
proof (induction t p rule: consume_until.induct)
  case (1 tokid p)
  show ?case
  proof (cases "peek tokid p")
    case True
    then show ?thesis
      by (simp add: consume_until.simps [of tokid p] accept_def writes_basic)
  next
    case False
    then have a: "accept tokid p = (False, p)" by (simp add: accept_def)
    show ?thesis
    proof (cases "peek end_of_file p")
      case True
      with a show ?thesis by (simp add: consume_until.simps [of tokid p])
    next
      case eof: False
      from "1.IH" [OF a [symmetric] refl eof]
      have "module_writes (consume_until tokid (consume p)) = module_writes (consume p)" .
      with a eof show ?thesis
        by (simp add: consume_until.simps [of tokid p] writes_basic)
    qed
  qed
qed

lemma writes_expect_pair:
  "expect t p = (ok, q) \<Longrightarrow> module_writes q = module_writes p"
  using writes_basic(5) [of t p] by simp

lemma writes_annotations_loop:
  assumes X: "keeps_module_writes X"
  shows "annotations_loop k X success p = Returns (r, q) \<Longrightarrow> module_writes q = module_writes p"
proof (induction k arbitrary: success p)
  case 0
  then show ?case by simp
next
  case (Suc k)
  from X have atc: "\<And>p. module_writes (snd (snd (accept_type_class X p))) = module_writes p"
    and peu: "\<And>sect p. module_writes (snd (snd (snd (parse_expression_unary X sect p)))) = module_writes p"
    by (simp_all add: keeps_module_writes_def)
  show ?case
  proof (cases "peek (punct CHR ''>'') p")
    case True
    with Suc.prems show ?thesis
      by (auto split: prod.splits dest: writes_expect_pair)
  next
    case False
    obtain typed type p0 where a: "accept_type_class X p = (typed, type, p0)"
      by (cases "accept_type_class X p") auto
    have w0: "module_writes p0 = module_writes p" using atc [of p] a by simp
    define p1 where "p1 = (if typed
         then warning (tok_location (token_cur p0)) 4717
                [Text ''type prefixes for annotations are deprecated and ignored''] p0
         else p0)"
    have w1: "module_writes p1 = module_writes p" using w0 by (simp add: p1_def writes_basic)
    obtain ok2 p2 where e2: "expect tok_identifier p1 = (ok2, p2)"
      by (cases "expect tok_identifier p1") auto
    have w2: "module_writes p2 = module_writes p" using writes_expect_pair [OF e2] w1 by simp
    obtain ok3 p3 where e3: "expect (punct CHR ''='') p2 = (ok3, p3)"
      by (cases "expect (punct CHR ''='') p2") auto
    have w3: "module_writes p3 = module_writes p" using writes_expect_pair [OF e3] w2 by simp
    obtain ok4 expression ts p4 where e4: "parse_expression_unary X [] p3 = (ok4, expression, ts, p4)"
      by (cases "parse_expression_unary X [] p3") auto
    have w4: "module_writes p4 = module_writes p" using peu [of "[]" p3] e4 w3 by simp
    obtain ok5 p5 where e5: "expect (punct CHR '';'') p4 = (ok5, p5)"
      by (cases "expect (punct CHR '';'') p4") auto
    have w5: "module_writes p5 = module_writes p" using writes_expect_pair [OF e5] w4 by simp
    have w6: "module_writes (error (exp_location expression) 3011
        [Text ''value must be a literal expression''] p5) = module_writes p"
      using w5 by (simp add: writes_basic)
    from Suc.prems False a e2 e3 e4 e5
    have "(\<not> ok2 \<and> q = p2) \<or> (\<not> ok3 \<and> q = p3) \<or> (\<not> ok4 \<and> q = p4) \<or> (\<not> ok5 \<and> q = p5)
        \<or> annotations_loop k X False (error (exp_location expression) 3011
             [Text ''value must be a literal expression''] p5) = Returns (r, q)
        \<or> annotations_loop k X success p5 = Returns (r, q)"
      by (simp add: p1_def [symmetric] split: if_splits bool.splits)
    then show ?thesis
      using w2 w3 w4 w5 w6 Suc.IH by (elim disjE) auto
  qed
qed

lemma writes_parse_annotations:
  assumes "keeps_module_writes X" and "parse_annotations n X p = Returns (r, q)"
  shows "module_writes q = module_writes p"
  using assms writes_annotations_loop [OF assms(1), of n True "consume p" r q]
  by (auto simp: parse_annotations_def writes_basic split: if_splits)

lemma writes_pass_state_loop:
  assumes X: "keeps_module_writes X"
  shows "pass_state_loop k X p = Returns (r, q) \<Longrightarrow> module_writes q = module_writes p"
proof (induction k arbitrary: p)
  case 0
  then show ?case by simp
next
  case (Suc k)
  from X have psv: "\<And>loc state p. module_writes (snd (pass_state_value X loc state p)) = module_writes p"
    by (simp add: keeps_module_writes_def)
  show ?case
  proof (cases "peek (punct CHR ''}'') p")
    case True
    with Suc.prems show ?thesis by simp
  next
    case False
    obtain ok1 p1 where e1: "expect tok_identifier p = (ok1, p1)"
      by (cases "expect tok_identifier p") auto
    have w1: "module_writes p1 = module_writes p" using writes_expect_pair [OF e1] by simp
    obtain ok2 p2 where e2: "expect (punct CHR ''='') p1 = (ok2, p2)"
      by (cases "expect (punct CHR ''='') p1") auto
    have w2: "module_writes p2 = module_writes p" using writes_expect_pair [OF e2] w1 by simp
    obtain ok3 p3 where e3: "pass_state_value X (tok_location (token_cur p1))
        (literal_as_string (token_cur p1)) p2 = (ok3, p3)"
      by (cases "pass_state_value X (tok_location (token_cur p1))
        (literal_as_string (token_cur p1)) p2") auto
    have w3: "module_writes p3 = module_writes p"
      using psv [of "tok_location (token_cur p1)" "literal_as_string (token_cur p1)" p2] e3 w2
      by simp
    obtain ok4 p4 where e4: "expect (punct CHR '';'') p3 = (ok4, p4)"
      by (cases "expect (punct CHR '';'') p3") auto
    have w4: "module_writes p4 = module_writes p" using writes_expect_pair [OF e4] w3 by simp
    from Suc.prems False e1 e2 e3 e4
    have "q = consume_until (punct CHR ''}'') p1 \<or> q = consume_until (punct CHR ''}'') p2
        \<or> q = p3 \<or> q = consume_until (punct CHR ''}'') p4
        \<or> pass_state_loop k X p4 = Returns (r, q)"
      by (simp split: if_splits bool.splits)
    then show ?thesis
      using w1 w2 w3 w4 Suc.IH by (elim disjE) (auto simp: writes_consume_until)
  qed
qed

lemma writes_parse_technique_pass:
  assumes X: "keeps_module_writes X" and r: "parse_technique_pass n X p = Returns (r, q)"
  shows "module_writes q = module_writes p"
proof -
  obtain ok1 p1 where e1: "expect pass p = (ok1, p1)" by (cases "expect pass p") auto
  have w1: "module_writes p1 = module_writes p" using writes_expect_pair [OF e1] by simp
  obtain ok3 p3 where e3: "expect (punct CHR ''{'') (snd (accept tok_identifier p1)) = (ok3, p3)"
    by (cases "expect (punct CHR ''{'') (snd (accept tok_identifier p1))") auto
  have w3: "module_writes p3 = module_writes p"
    using writes_expect_pair [OF e3] w1 by (simp add: writes_basic)
  show ?thesis
  proof (cases "ok1 \<and> ok3")
    case False
    with r e1 e3 w1 w3 show ?thesis
      by (auto simp: parse_technique_pass_def split: bool.splits)
  next
    case True
    with r e1 e3 obtain r4 p4 where l: "pass_state_loop n X p3 = Returns (r4, p4)"
      and fin: "(\<not> r4 \<and> q = p4) \<or> (r4 \<and> q = snd (expect (punct CHR ''}'') p4))"
      by (auto simp: parse_technique_pass_def split: outcome.splits bool.splits prod.splits)
    have w4: "module_writes p4 = module_writes p"
      using writes_pass_state_loop [OF X l] w3 by simp
    from fin w4 show ?thesis by (auto simp: writes_basic)
  qed
qed

lemma writes_technique_pass_loop:
  assumes X: "keeps_module_writes X"
  shows "technique_pass_loop k n X p = Returns (r, q) \<Longrightarrow> module_writes q = module_writes p"
proof (induction k arbitrary: p)
  case 0
  then show ?case by simp
next
  case (Suc k)
  show ?case
  proof (cases "peek (punct CHR ''}'') p")
    case True
    with Suc.prems show ?thesis by simp
  next
    case False
    with Suc.prems obtain r1 p1 where t: "parse_technique_pass n X p = Returns (r1, p1)"
      and rest: "q = consume_until (punct CHR ''}'') p1
                 \<or> technique_pass_loop k n X p1 = Returns (r, q)"
      by (auto split: outcome.splits bool.splits if_splits)
    have w1: "module_writes p1 = module_writes p"
      using writes_parse_technique_pass [OF X t] .
    from rest w1 Suc.IH show ?thesis by (auto simp: writes_consume_until)
  qed
qed

lemma writes_parse_technique:
  assumes X: "keeps_module_writes X" and r: "parse_technique n X p = Returns (r, q)"
  shows "module_writes q = module_writes p"
proof -
  obtain ok1 p1 where e1: "expect tok_identifier p = (ok1, p1)"
    by (cases "expect tok_identifier p") auto
  have w1: "module_writes p1 = module_writes p" using writes_expect_pair [OF e1] by simp
  show ?thesis
  proof (cases ok1)
    case False
    with r e1 w1 show ?thesis by (simp add: parse_technique_def)
  next
    case True
    with r e1 obtain r2 p2 where a: "parse_annotations n X p1 = Returns (r2, p2)"
      by (auto simp: parse_technique_def split: outcome.splits)
    have w2: "module_writes p2 = module_writes p"
      using writes_parse_annotations [OF X a] w1 by simp
    show ?thesis
    proof (cases r2)
      case False
      with r e1 True a w2 show ?thesis by (simp add: parse_technique_def)
    next
      case r2: True
      obtain ok3 p3 where e3: "expect (punct CHR ''{'') p2 = (ok3, p3)"
        by (cases "expect (punct CHR ''{'') p2") auto
      have w3: "module_writes p3 = module_writes p" using writes_expect_pair [OF e3] w2 by simp
      show ?thesis
      proof (cases ok3)
        case False
        with r e1 True a r2 e3 w3 show ?thesis by (simp add: parse_technique_def)
      next
        case ok3: True
        with r e1 True a r2 e3 obtain r4 p4
          where l: "technique_pass_loop n n X p3 = Returns (r4, p4)"
            and fin: "(\<not> r4 \<and> q = p4) \<or> (r4 \<and> q = snd (expect (punct CHR ''}'') p4))"
          by (auto simp: parse_technique_def split: outcome.splits bool.splits prod.splits)
        have w4: "module_writes p4 = module_writes p"
          using writes_technique_pass_loop [OF X l] w3 by simp
        from fin w4 show ?thesis by (auto simp: writes_basic)
      qed
    qed
  qed
qed

lemma writes_global_variable_list:
  assumes X: "keeps_module_writes X"
  shows "global_variable_list k X type count p = Returns (r, q)
         \<Longrightarrow> module_writes q = module_writes p"
proof (induction k arbitrary: count p)
  case 0
  then show ?case by simp
next
  case (Suc k)
  from X have pgv: "\<And>t name p. module_writes (snd (parse_global_variable X t name p)) = module_writes p"
    and ins: "\<And>name sym global p. module_writes (snd (insert_symbol X name sym global p)) = module_writes p"
    by (simp_all add: keeps_module_writes_def)
  define r1 where "r1 = (if 0 < count
                then (case expect (punct CHR '','') p of
                        (False, q) \<Rightarrow> (False, q)
                      | (True, q) \<Rightarrow> expect tok_identifier q)
                else (True, p))"
  have w1: "module_writes (snd r1) = module_writes p"
    by (auto simp: r1_def writes_basic split: prod.splits bool.splits dest: writes_expect_pair)
  define name where "name = literal_as_string (token_cur (snd r1))"
  obtain ok2 p2 where e2: "parse_global_variable X type name (snd r1) = (ok2, p2)"
    by (cases "parse_global_variable X type name (snd r1)") auto
  have w2: "module_writes p2 = module_writes p" using pgv [of type name "snd r1"] e2 w1 by simp
  have w3: "module_writes (consume_until (punct CHR '';'')
      (snd (insert_symbol X name (dummy_variable_symbol type) True p2))) = module_writes p"
    using w2 by (simp add: writes_consume_until ins)
  from Suc.prems e2
  have "q = snd r1
      \<or> q = consume_until (punct CHR '';'')
              (snd (insert_symbol X name (dummy_variable_symbol type) True p2))
      \<or> global_variable_list k X type (count + 1) p2 = Returns (r, q)
      \<or> q = snd (expect (punct CHR '';'') p2)"
    by (auto simp: r1_def [symmetric] name_def [symmetric] Let_def
        split: if_splits bool.splits prod.splits)
  then show ?case
    using w1 w2 w3 Suc.IH by (elim disjE) (auto simp: writes_basic)
qed

lemma writes_namespace_loop:
  assumes rec: "\<And>p r q. rec p = Returns (r, q) \<Longrightarrow> module_writes q = module_writes p"
  shows "namespace_loop k rec success p = Returns (r, q) \<Longrightarrow> module_writes q = module_writes p"
proof (induction k arbitrary: success p)
  case 0
  then show ?case by simp
next
  case (Suc k)
  show ?case
  proof (cases "peek (punct CHR ''}'') p")
    case True
    with Suc.prems show ?thesis by simp
  next
    case False
    with Suc.prems obtain ok p1 where t: "rec p = Returns (ok, p1)"
      and rest: "namespace_loop k rec (success \<and> ok) p1 = Returns (r, q)"
      by (auto split: outcome.splits)
    from rec [OF t] Suc.IH [OF rest] show ?thesis by simp
  qed
qed

lemma writes_parse_top_level_body:
  assumes X: "keeps_module_writes X"
    and rec: "\<And>p r q. rec p = Returns (r, q) \<Longrightarrow> module_writes q = module_writes p"
    and r: "parse_top_level_body n X rec p = Returns (r, q)"
  shows "module_writes q = module_writes p"
proof -
  from X have ps: "\<And>p. module_writes (snd (parse_struct X p)) = module_writes p"
    and pf: "\<And>t name p. module_writes (snd (parse_function X t name p)) = module_writes p"
    and ins: "\<And>name sym global p. module_writes (snd (insert_symbol X name sym global p)) = module_writes p"
    and en: "\<And>name p. module_writes (enter_namespace X name p) = module_writes p"
    and ln: "\<And>p. module_writes (leave_namespace X p) = module_writes p"
    and pt: "\<And>p. module_writes (snd (snd (parse_type X p))) = module_writes p"
    by (simp_all add: keeps_module_writes_def)
  consider (ns) "peek tok_namespace p"
    | (st) "\<not> peek tok_namespace p" "peek tok_struct p"
    | (te) "\<not> peek tok_namespace p" "\<not> peek tok_struct p" "peek technique p"
    | (ty) "\<not> peek tok_namespace p" "\<not> peek tok_struct p" "\<not> peek technique p"
    by blast
  then show ?thesis
  proof cases
    case ns
    obtain ok2 p2 where e2: "expect tok_identifier (consume p) = (ok2, p2)"
      by (cases "expect tok_identifier (consume p)") auto
    have w2: "module_writes p2 = module_writes p"
      using writes_expect_pair [OF e2] by (simp add: writes_basic)
    obtain ok3 p3 where e3: "expect (punct CHR ''{'') p2 = (ok3, p3)"
      by (cases "expect (punct CHR ''{'') p2") auto
    have w3: "module_writes p3 = module_writes p" using writes_expect_pair [OF e3] w2 by simp
    show ?thesis
    proof (cases "ok2 \<and> ok3")
      case False
      with r ns e2 e3 w2 w3 show ?thesis
        by (auto simp: parse_top_level_body_def split: bool.splits)
    next
      case True
      with r ns e2 e3 obtain success p4
        where l: "namespace_loop n rec True
                    (enter_namespace X (literal_as_string (token_cur p2)) p3) = Returns (success, p4)"
          and fin: "q = snd (expect (punct CHR ''}'') (leave_namespace X p4))"
        by (auto simp: parse_top_level_body_def split: outcome.splits prod.splits)
      have w4: "module_writes p4 = module_writes p"
        using writes_namespace_loop [of rec, OF rec l] w3 by (simp add: en)
      from fin w4 show ?thesis by (simp add: writes_basic ln)
    qed
  next
    case st
    obtain ok1 p1 where e1: "parse_struct X (consume p) = (ok1, p1)"
      by (cases "parse_struct X (consume p)") auto
    have w1: "module_writes p1 = module_writes p"
      using ps [of "consume p"] e1 by (simp add: writes_basic)
    from r st e1 have "q = p1 \<or> q = snd (expect (punct CHR '';'') p1)"
      by (auto simp: parse_top_level_body_def split: bool.splits)
    with w1 show ?thesis by (auto simp: writes_basic)
  next
    case te
    with r have "parse_technique n X (consume p) = Returns (r, q)"
      by (simp add: parse_top_level_body_def)
    from writes_parse_technique [OF X this] show ?thesis by (simp add: writes_basic)
  next
    case ty
    obtain typed type p1 where e1: "parse_type X p = (typed, type, p1)"
      by (cases "parse_type X p") auto
    have w1: "module_writes p1 = module_writes p" using pt [of p] e1 by simp
    show ?thesis
    proof (cases typed)
      case False
      with r ty e1 have "q = consume p1 \<or> q = error (tok_location (token_cur (consume p1))) 3000
            [Text ''syntax error: unexpected '', quote,
             TokenName (tok_id (token_cur (consume p1))), quote] (consume p1)"
        by (auto simp: parse_top_level_body_def Let_def split: if_splits)
      with w1 show ?thesis by (auto simp: writes_basic)
    next
      case True
      obtain ok2 p2 where e2: "expect tok_identifier p1 = (ok2, p2)"
        by (cases "expect tok_identifier p1") auto
      have w2: "module_writes p2 = module_writes p" using writes_expect_pair [OF e2] w1 by simp
      obtain ok3 p3 where e3: "parse_function X type (literal_as_string (token_cur p2)) p2 = (ok3, p3)"
        by (cases "parse_function X type (literal_as_string (token_cur p2)) p2") auto
      have w3: "module_writes p3 = module_writes p"
        using pf [of type "literal_as_string (token_cur p2)" p2] e3 w2 by simp
      from r ty e1 True e2 e3
      have "q = p2 \<or> q = p3
          \<or> q = snd (insert_symbol X (literal_as_string (token_cur p2)) dummy_function_symbol True p3)
          \<or> global_variable_list n X type 0 p2 = Returns (r, q)"
        by (auto simp: parse_top_level_body_def split: if_splits bool.splits)
      then show ?thesis
        using w2 w3 writes_global_variable_list [OF X, of n type 0 p2 r q]
        by (elim disjE) (auto simp: ins)
    qed
  qed
qed

lemma writes_parse_top_level:
  assumes X: "keeps_module_writes X"
  shows "parse_top_level n X p = Returns (r, q) \<Longrightarrow> module_writes q = module_writes p"
proof (induction n arbitrary: p r q)
  case 0
  then show ?case by simp
next
  case (Suc n)
  from Suc.prems have b: "parse_top_level_body n X (parse_top_level n X) p = Returns (r, q)"
    by simp
  show ?case
    by (rule writes_parse_top_level_body [OF X _ b]) (rule Suc.IH)
qed

lemma writes_top_level_loop:
  assumes X: "keeps_module_writes X"
  shows "top_level_loop k n X success p = Returns (r, q) \<Longrightarrow> module_writes q = module_writes p"
proof (induction k arbitrary: success p)
  case 0
  then show ?case by simp
next
  case (Suc k)
  show ?case
  proof (cases "peek end_of_file p")
    case True
    with Suc.prems show ?thesis by simp
  next
    case False
    with Suc.prems obtain ok p1 where t: "parse_top_level n X p = Returns (ok, p1)"
      and rest: "top_level_loop k n X (success \<and> ok) p1 = Returns (r, q)"
      by (auto split: outcome.splits)
    from writes_parse_top_level [OF X t] Suc.IH [OF rest] show ?thesis by simp
  qed
qed

lemma writes_convert_member_types:
  assumes X: "keeps_module_writes X"
  shows "module_writes (snd (convert_member_types X ms acc p)) = module_writes p"
proof (induction ms arbitrary: acc p)
  case Nil
  show ?case by simp
next
  case (Cons m ms)
  from X have ct: "\<And>t p. module_writes (snd (convert_type X t p)) = module_writes p"
    by (simp add: keeps_module_writes_def)
  obtain i p1 where c: "convert_type X (member_type m) p = (i, p1)"
    by (cases "convert_type X (member_type m) p") auto
  have "module_writes p1 = module_writes p" using ct [of "member_type m" p] c by simp
  with Cons.IH [of "acc @ [i]" p1] c show ?case by simp
qed

lemma writes_create_global_ubo:
  assumes X: "keeps_module_writes X"
  shows "module_writes (create_global_ubo X p) = module_writes p"
proof -
  from X have ds: "\<And>i name members p. module_writes (define_struct X i name members p) = module_writes p"
    and dv: "\<And>i name t c p. module_writes (define_variable X i name t c p) = module_writes p"
    by (simp_all add: keeps_module_writes_def)
  obtain mt p1 where c: "convert_member_types X (uniforms_member_list p) [] p = (mt, p1)"
    by (cases "convert_member_types X (uniforms_member_list p) [] p") auto
  have "module_writes p1 = module_writes p"
    using writes_convert_member_types [OF X, of "uniforms_member_list p" "[]" p] c by simp
  then show ?thesis
    by (simp add: create_global_ubo_def c Let_def ds dv writes_basic)
qed

text \<open>
  C2, as stated, fails: on the input \<open>technique\<close> (the keyword and nothing behind it)
  \<open>parse_technique\<close> appends the error 3000 "unexpected 'end of file', expected
  'identifier'" and fails, \<open>run\<close> returns false, and \<open>write_module\<close> has been called on
  the stream of \<open>test.spv\<close> all the same.
\<close>

theorem run_writes_module_after_error:
  "run 2 example_externals [tok technique] (start_parser []) =
     Returns (False,
       (start_parser [])
         \<lparr>token_cur := tok technique,
          errors := [unexpected_token end_of_file tok_identifier],
          module_writes := [''test.spv'']\<rparr>)"
  by (simp add: run_def eval_nat_numeral parse_top_level_body_def parse_technique_def
      start_parser_def consume_def peek_def accept_def expect_def error_def tok_def
      eof_token_def no_location_def unexpected_token_def)

text \<open>
  C2, amended: \<open>run\<close> serializes the module at the end of every compilation that comes
  to its end, whether it succeeded or not. The parsing loop runs first, from the state
  \<open>run\<close> was entered in, and answers \<open>success\<close>; then the globals block is created if
  there is one; up to there nothing has been written. Then comes the one call of
  \<open>write_module\<close> (on the stream of \<open>test.spv\<close>), and what \<open>run\<close> returns is the result
  \<open>success\<close> of the parsing loop and the state behind the globals block with that one
  call added: the call is the last thing \<open>run\<close> does, it is made exactly once, and
  nothing tests the diagnostics or the result before it.
\<close>

theorem run_writes_module_once:
  assumes "keeps_module_writes X" and "run n X input p = Returns (success, p')"
  shows "\<exists>p1 p2.
           top_level_loop n n X True (consume (p\<lparr>lexer_rest := input\<rparr>)) = Returns (success, p1)
         \<and> p2 = (if global_ubo_type p1 \<noteq> 0 then create_global_ubo X p1 else p1)
         \<and> module_writes p1 = module_writes p
         \<and> module_writes p2 = module_writes p
         \<and> p' = p2\<lparr>module_writes := module_writes p @ [''test.spv'']\<rparr>
         \<and> errors p' = errors p2
         \<and> module_writes p' = module_writes p @ [''test.spv'']"
proof -
  let ?p0 = "consume (p\<lparr>lexer_rest := input\<rparr>)"
  from assms(2) obtain p1 where l: "top_level_loop n n X True ?p0 = Returns (success, p1)"
    and fin: "p' = (if global_ubo_type p1 \<noteq> 0 then create_global_ubo X p1 else p1)
                \<lparr>module_writes :=
                   module_writes (if global_ubo_type p1 \<noteq> 0 then create_global_ubo X p1 else p1)
                     @ [''test.spv'']\<rparr>"
    by (auto simp: run_def Let_def split: outcome.splits)
  define p2 where "p2 = (if global_ubo_type p1 \<noteq> 0 then create_global_ubo X p1 else p1)"
  have w0: "module_writes ?p0 = module_writes p" by (simp add: consume_def split: list.splits)
  have w1: "module_writes p1 = module_writes p"
    using writes_top_level_loop [OF assms(1) l] w0 by simp
  have w2: "module_writes p2 = module_writes p"
    using w1 by (simp add: p2_def writes_create_global_ubo [OF assms(1)])
  have e: "p' = p2\<lparr>module_writes := module_writes p @ [''test.spv'']\<rparr>"
    using fin w2 by (simp add: p2_def)
  show ?thesis
  proof (intro exI conjI)
    show "top_level_loop n n X True ?p0 = Returns (success, p1)" by (fact l)
    show "p2 = (if global_ubo_type p1 \<noteq> 0 then create_global_ubo X p1 else p1)"
      by (fact p2_def)
    show "module_writes p1 = module_writes p" by (fact w1)
    show "module_writes p2 = module_writes p" by (fact w2)
    show "p' = p2\<lparr>module_writes := module_writes p @ [''test.spv'']\<rparr>" by (fact e)
    show "errors p' = errors p2" using e by simp
    show "module_writes p' = module_writes p @ [''test.spv'']" using e by simp
  qed
qed

text \<open>
  Two runs of the example parameters: the input \<open>;\<close>, which succeeds, and the input
  \<open>}\<close>, which is reported as error 3000 and fails. In both the module is written
  once, behind the parsing, and the state returned is the state the parsing loop ended
  in with that call added.
\<close>

theorem run_writes_module_once_witness:
  "run 2 example_externals [tok (punct CHR '';'')] (start_parser []) =
     Returns (True, (start_parser [])\<lparr>token_cur := tok (punct CHR '';''),
                                      module_writes := [''test.spv'']\<rparr>)
   \<and> top_level_loop 2 2 example_externals True
         (consume ((start_parser [])\<lparr>lexer_rest := [tok (punct CHR '';'')]\<rparr>)) =
     Returns (True, (start_parser [])\<lparr>token_cur := tok (punct CHR '';'')\<rparr>)
   \<and> (\<exists>p1 p'. run 2 example_externals [tok (punct CHR ''}'')] (start_parser [])
                   = Returns (False, p')
              \<and> top_level_loop 2 2 example_externals True
                   (consume ((start_parser [])\<lparr>lexer_rest := [tok (punct CHR ''}'')]\<rparr>))
                   = Returns (False, p1)
              \<and> map diag_code (errors p1) = [3000] \<and> module_writes p1 = []
              \<and> p' = p1\<lparr>module_writes := [''test.spv'']\<rparr>)"
proof -
  have k: "keeps_module_writes example_externals"
    by (simp add: keeps_module_writes_def example_externals_def)
  note defs = run_def eval_nat_numeral parse_top_level_body_def example_externals_def
    start_parser_def consume_def peek_def accept_def tok_def eof_token_def error_def
  have r: "run 2 example_externals [tok (punct CHR '';'')] (start_parser []) =
     Returns (True, (start_parser [])\<lparr>token_cur := tok (punct CHR '';''),
                                      module_writes := [''test.spv'']\<rparr>)"
    by (simp add: defs)
  from run_writes_module_once [OF k r] obtain p1 p2 where
    l: "top_level_loop 2 2 example_externals True
          (consume ((start_parser [])\<lparr>lexer_rest := [tok (punct CHR '';'')]\<rparr>))
        = Returns (True, p1)"
    and e: "(start_parser [])\<lparr>token_cur := tok (punct CHR '';''),
                               module_writes := [''test.spv'']\<rparr>
            = p2\<lparr>module_writes := module_writes (start_parser []) @ [''test.spv'']\<rparr>"
    by auto
  have a: "top_level_loop 2 2 example_externals True
         (consume ((start_parser [])\<lparr>lexer_rest := [tok (punct CHR '';'')]\<rparr>)) =
     Returns (True, (start_parser [])\<lparr>token_cur := tok (punct CHR '';'')\<rparr>)"
    by (simp add: defs)
  obtain q where f: "run 2 example_externals [tok (punct CHR ''}'')] (start_parser [])
      = Returns (False, q)"
    by (simp add: defs)
  from run_writes_module_once [OF k f] obtain q1 q2 where
    fl: "top_level_loop 2 2 example_externals True
          (consume ((start_parser [])\<lparr>lexer_rest := [tok (punct CHR ''}'')]\<rparr>))
        = Returns (False, q1)"
    and q2: "q2 = (if global_ubo_type q1 \<noteq> 0 then create_global_ubo example_externals q1 else q1)"
    and fw: "module_writes q1 = module_writes (start_parser [])"
    and fe: "q = q2\<lparr>module_writes := module_writes (start_parser []) @ [''test.spv'']\<rparr>"
    by auto
  have q1: "q1 = (start_parser [])\<lparr>token_cur := tok (punct CHR ''}''),
      errors := [\<lparr>diag_severity = severity_error, diag_location = no_location, diag_code = 3000,
                  diag_message = [Text ''syntax error: unexpected '', quote,
                                  TokenName (punct CHR ''}''), quote]\<rparr>]\<rparr>"
    using fl by (simp add: defs no_location_def)
  have b: "\<exists>p1 p'. run 2 example_externals [tok (punct CHR ''}'')] (start_parser [])
                   = Returns (False, p')
              \<and> top_level_loop 2 2 example_externals True
                   (consume ((start_parser [])\<lparr>lexer_rest := [tok (punct CHR ''}'')]\<rparr>))
                   = Returns (False, p1)
              \<and> map diag_code (errors p1) = [3000] \<and> module_writes p1 = []
              \<and> p' = p1\<lparr>module_writes := [''test.spv'']\<rparr>"
  proof (intro exI conjI)
    show "run 2 example_externals [tok (punct CHR ''}'')] (start_parser []) = Returns (False, q)"
      by (fact f)
    show "top_level_loop 2 2 example_externals True
            (consume ((start_parser [])\<lparr>lexer_rest := [tok (punct CHR ''}'')]\<rparr>))
          = Returns (False, q1)" by (fact fl)
    show "map diag_code (errors q1) = [3000]" by (simp add: q1)
    show "module_writes q1 = []" using fw by (simp add: start_parser_def)
    show "q = q1\<lparr>module_writes := [''test.spv'']\<rparr>"
      using fe q2 by (simp add: q1 start_parser_def)
  qed
  from r a b show ?thesis by blast
qed

subsection \<open>C3: std140 offsets of uniform globals\<close>

lemma align_Some:
  assumes "0 < a"
  shows "\<exists>off. align pb addr a = Some off
           \<and> off = (if addr mod a \<noteq> 0 then (addr + a - addr mod a) mod 2 ^ pb else addr)"
  using assms by (simp add: align_def)

lemma least_multiple:
  fixes a addr :: nat
  assumes "0 < a"
  defines "m \<equiv> (if addr mod a \<noteq> 0 then addr + a - addr mod a else addr)"
  shows "a dvd m" and "addr \<le> m" and "m < addr + a"
proof -
  have lt: "addr mod a < a" using assms(1) by simp
  have le: "addr mod a \<le> addr" by (rule mod_less_eq_dividend)
  have eq: "addr + a - addr mod a = (addr - addr mod a) + a" using le by simp
  have "a dvd addr - addr mod a" by simp
  then have "a dvd (addr - addr mod a) + a" by (rule dvd_add) simp
  then have d: "a dvd addr + a - addr mod a" by (simp only: eq)
  show "a dvd m" using d by (auto simp: m_def)
  show "addr \<le> m" using lt le by (auto simp: m_def)
  show "m < addr + a" using lt le assms(1) by (auto simp: m_def)
qed

lemma uniform_branch_offset:
  assumes sz: "uniform_size (if is_boolean t then t\<lparr>base := datatype_uint\<rparr> else t) = bytes"
    and pos: "0 < bytes" and s31: "bytes < 2 ^ 31" and pb: "32 \<le> pb"
  shows "\<exists>sym p' off.
           uniform_branch pb di t name bi p = Some (sym, p')
         \<and> align pb (unat (global_ubo_offset p)) bytes = Some off
         \<and> member_decorations p' =
             member_decorations p @
               [(global_ubo_type p', length (uniforms_member_list p), DecorationOffset,
                 [off mod 2 ^ 32])]
         \<and> global_ubo_offset p' = word_of_nat off + word_of_nat bytes
         \<and> sym_member_index sym = length (uniforms_member_list p)
         \<and> length (uniforms_member_list p') = length (uniforms_member_list p) + 1
         \<and> (unat (global_ubo_offset p) + 2 * bytes \<le> 2 ^ 32 \<longrightarrow>
              member_decorations p' =
                member_decorations p @
                  [(global_ubo_type p', length (uniforms_member_list p), DecorationOffset, [off])]
            \<and> unat (global_ubo_offset p') = off + bytes
            \<and> bytes dvd off
            \<and> unat (global_ubo_offset p) \<le> off
            \<and> off < unat (global_ubo_offset p) + bytes)"
proof -
  let ?prev = "unat (global_ubo_offset p)"
  define m where "m = (if ?prev mod bytes \<noteq> 0 then ?prev + bytes - ?prev mod bytes else ?prev)"
  have p32: "(2::nat) ^ 32 \<le> 2 ^ pb"
    by (rule power_increasing) (use pb in simp_all)
  have sp: "bytes < 2 ^ pb"
  proof -
    have "(2::nat) ^ 31 \<le> 2 ^ 32" by simp
    with s31 p32 show ?thesis by linarith
  qed
  have pp: "?prev < 2 ^ pb"
  proof -
    have "?prev < 2 ^ LENGTH(32)" by (rule unsigned_less)
    then have "?prev < 2 ^ 32" by simp
    with p32 show ?thesis by linarith
  qed
  from align_Some [OF pos, of pb ?prev]
  obtain off where off: "align pb ?prev bytes = Some off"
    and offv: "off = (if ?prev mod bytes \<noteq> 0
                      then (?prev + bytes - ?prev mod bytes) mod 2 ^ pb else ?prev)"
    by blast
  have n31: "\<not> (2::nat) ^ 31 \<le> bytes" using s31 by simp
  have szm: "bytes mod 2 ^ pb = bytes" using sp by simp
  have ppm: "?prev mod 2 ^ pb = ?prev" using pp by simp
  have un: "unat (word_of_nat off :: 32 word) = off mod 2 ^ 32"
    by (simp add: unat_of_nat take_bit_eq_mod)
  have branch: "\<exists>sym p'. uniform_branch pb di t name bi p = Some (sym, p')
         \<and> member_decorations p' =
             member_decorations p @
               [(global_ubo_type p', length (uniforms_member_list p), DecorationOffset,
                 [off mod 2 ^ 32])]
         \<and> global_ubo_offset p' = word_of_nat off + word_of_nat bytes
         \<and> sym_member_index sym = length (uniforms_member_list p)
         \<and> length (uniforms_member_list p') = length (uniforms_member_list p) + 1"
    unfolding uniform_branch_def Let_def sz szm
    using off n31 by (simp add: make_id_def ppm un del: of_nat_mult of_nat_add)
  have nowrap: "off mod 2 ^ 32 = off \<and> unat (word_of_nat off + word_of_nat bytes :: 32 word)
                  = off + bytes
                \<and> bytes dvd off \<and> ?prev \<le> off \<and> off < ?prev + bytes"
    if b: "?prev + 2 * bytes \<le> 2 ^ 32"
  proof -
    from least_multiple [OF pos, of ?prev]
    have d: "bytes dvd m" and lo: "?prev \<le> m" and hi: "m < ?prev + bytes"
      by (simp_all add: m_def)
    have m32: "m + bytes < 2 ^ 32" using hi b by linarith
    have mpb: "m < 2 ^ pb" using m32 p32 by linarith
    have om: "off = m"
    proof (cases "?prev mod bytes = 0")
      case True
      then show ?thesis using offv by (simp add: m_def)
    next
      case False
      then have "m = ?prev + bytes - ?prev mod bytes" by (simp add: m_def)
      with mpb have "(?prev + bytes - ?prev mod bytes) mod 2 ^ pb = m" by simp
      with False offv show ?thesis by simp
    qed
    have o32: "off < 2 ^ 32" using om m32 by linarith
    have u: "unat (word_of_nat off + word_of_nat bytes :: 32 word) = off + bytes"
    proof -
      have "word_of_nat off + word_of_nat bytes = (word_of_nat (off + bytes) :: 32 word)"
        by simp
      moreover have "unat (word_of_nat (off + bytes) :: 32 word) = off + bytes"
        using om m32 by (simp add: unat_of_nat take_bit_eq_mod del: of_nat_add)
      ultimately show ?thesis by simp
    qed
    from o32 u d lo hi om show ?thesis by simp
  qed
  from branch obtain sym p' where
    r: "uniform_branch pb di t name bi p = Some (sym, p')"
    and md: "member_decorations p' =
             member_decorations p @
               [(global_ubo_type p', length (uniforms_member_list p), DecorationOffset,
                 [off mod 2 ^ 32])]"
    and go: "global_ubo_offset p' = word_of_nat off + word_of_nat bytes"
    and mi: "sym_member_index sym = length (uniforms_member_list p)"
    and ln: "length (uniforms_member_list p') = length (uniforms_member_list p) + 1"
    by blast
  show ?thesis
  proof (intro exI conjI impI)
    show "uniform_branch pb di t name bi p = Some (sym, p')" by (fact r)
    show "align pb ?prev bytes = Some off" by (fact off)
    show "member_decorations p' =
             member_decorations p @
               [(global_ubo_type p', length (uniforms_member_list p), DecorationOffset,
                 [off mod 2 ^ 32])]" by (fact md)
    show "global_ubo_offset p' = word_of_nat off + word_of_nat bytes" by (fact go)
    show "sym_member_index sym = length (uniforms_member_list p)" by (fact mi)
    show "length (uniforms_member_list p') = length (uniforms_member_list p) + 1" by (fact ln)
  next
    assume b: "?prev + 2 * bytes \<le> 2 ^ 32"
    from nowrap [OF b] md
    show "member_decorations p' =
                member_decorations p @
                  [(global_ubo_type p', length (uniforms_member_list p), DecorationOffset, [off])]"
      by simp
  next
    assume b: "?prev + 2 * bytes \<le> 2 ^ 32"
    from nowrap [OF b] go show "unat (global_ubo_offset p') = off + bytes" by simp
  next
    assume b: "?prev + 2 * bytes \<le> 2 ^ 32"
    from nowrap [OF b] show "bytes dvd off" by simp
  next
    assume b: "?prev + 2 * bytes \<le> 2 ^ 32"
    from nowrap [OF b] show "?prev \<le> off" by simp
  next
    assume b: "?prev + 2 * bytes \<le> 2 ^ 32"
    from nowrap [OF b] show "off < ?prev + bytes" by simp
  qed
qed

text \<open>
  C3: for a uniform global of dimensions \<open>(rows, cols)\<close> (both positive, as for every
  numeric type) and array length \<open>a\<close>, with
  \<open>size = 4 * (rows == 3 ? 4 : rows) * cols * max(1, a)\<close> below \<open>2 ^ 31\<close>, the uniform
  branch of \<open>parse_variable\<close> appends the member, gives it the index of its position in
  \<open>$Globals\<close>, records one \<open>Offset\<close> decoration for it whose operand is
  \<open>align(previous_offset, size)\<close> as the 32-bit member holds it, and advances the running
  offset by \<open>size\<close> from there (in 32-bit arithmetic). As long as the block stays within
  the 32 bits of the offset (\<open>previous_offset + 2 * size \<le> 2 ^ 32\<close>) nothing wraps: the
  operand is the least multiple of \<open>size\<close> that is not below the previous offset, and the
  running offset becomes that number plus \<open>size\<close>.
\<close>

theorem uniform_member_offset:
  assumes "0 < rows t" and "0 < cols t" and "32 \<le> pb"
    and "4 * (if rows t = 3 then 4 else rows t) * cols t * nat (max 1 (array_length t)) < 2 ^ 31"
  shows "\<exists>sym p' off.
           uniform_branch pb di t name bi p = Some (sym, p')
         \<and> align pb (unat (global_ubo_offset p))
              (4 * (if rows t = 3 then 4 else rows t) * cols t * nat (max 1 (array_length t)))
             = Some off
         \<and> member_decorations p' =
             member_decorations p @
               [(global_ubo_type p', length (uniforms_member_list p), DecorationOffset,
                 [off mod 2 ^ 32])]
         \<and> global_ubo_offset p' =
             word_of_nat off
             + word_of_nat
                 (4 * (if rows t = 3 then 4 else rows t) * cols t * nat (max 1 (array_length t)))
         \<and> sym_member_index sym = length (uniforms_member_list p)
         \<and> length (uniforms_member_list p') = length (uniforms_member_list p) + 1
         \<and> (unat (global_ubo_offset p)
               + 2 * (4 * (if rows t = 3 then 4 else rows t) * cols t
                        * nat (max 1 (array_length t))) \<le> 2 ^ 32 \<longrightarrow>
              member_decorations p' =
                member_decorations p @
                  [(global_ubo_type p', length (uniforms_member_list p), DecorationOffset, [off])]
            \<and> unat (global_ubo_offset p') =
                off + 4 * (if rows t = 3 then 4 else rows t) * cols t
                        * nat (max 1 (array_length t))
            \<and> (4 * (if rows t = 3 then 4 else rows t) * cols t * nat (max 1 (array_length t)))
                dvd off
            \<and> unat (global_ubo_offset p) \<le> off
            \<and> off < unat (global_ubo_offset p)
                     + 4 * (if rows t = 3 then 4 else rows t) * cols t
                         * nat (max 1 (array_length t)))"
proof -
  have sz: "uniform_size (if is_boolean t then t\<lparr>base := datatype_uint\<rparr> else t)
      = 4 * (if rows t = 3 then 4 else rows t) * cols t * nat (max 1 (array_length t))"
    by (simp add: uniform_size_def)
  have pos: "0 < 4 * (if rows t = 3 then 4 else rows t) * cols t * nat (max 1 (array_length t))"
    using assms(1,2) by simp
  show ?thesis
    by (rule uniform_branch_offset [OF sz pos assms(4) assms(3)])
qed

text \<open>
  The example of the claim: \<open>uniform float4x4 M; uniform float3 v;\<close> at the start of a
  compilation, on a 64-bit target. \<open>M\<close> gets offset 0 (size 64), \<open>v\<close> gets offset 64
  (size 16), the block ends at 80, and each member has its \<open>Offset\<close> decoration.
\<close>

theorem uniform_member_offset_witness:
  "\<exists>s1 p1 s2 p2.
       uniform_branch 64 0 (uniform_float 4 4) ''M'' BuiltInMax (start_parser []) = Some (s1, p1)
     \<and> uniform_branch 64 0 (uniform_float 3 1) ''v'' BuiltInMax p1 = Some (s2, p2)
     \<and> member_decorations p2 = [(1, 0, DecorationOffset, [0]), (1, 1, DecorationOffset, [64])]
     \<and> global_ubo_offset p1 = 64
     \<and> global_ubo_offset p2 = 80"
proof -
  have r1: "0 < rows (uniform_float 4 4)" "0 < cols (uniform_float 4 4)" "(32::nat) \<le> 64"
    "4 * (if rows (uniform_float 4 4) = 3 then 4 else rows (uniform_float 4 4))
       * cols (uniform_float 4 4) * nat (max 1 (array_length (uniform_float 4 4))) < 2 ^ 31"
    by (simp_all add: uniform_float_def)
  have r2: "0 < rows (uniform_float 3 1)" "0 < cols (uniform_float 3 1)" "(32::nat) \<le> 64"
    "4 * (if rows (uniform_float 3 1) = 3 then 4 else rows (uniform_float 3 1))
       * cols (uniform_float 3 1) * nat (max 1 (array_length (uniform_float 3 1))) < 2 ^ 31"
    by (simp_all add: uniform_float_def)
  have z: "unat (global_ubo_offset (start_parser [])) = 0" by (simp add: start_parser_def)
  from uniform_member_offset [OF r1, of 0 "''M''" BuiltInMax "start_parser []"]
  obtain s1 p1 o1 where
    u1: "uniform_branch 64 0 (uniform_float 4 4) ''M'' BuiltInMax (start_parser []) = Some (s1, p1)"
    and a1: "align 64 0 64 = Some o1"
    and m1: "member_decorations p1 = [(global_ubo_type p1, 0, DecorationOffset, [o1 mod 2 ^ 32])]"
    and g1: "global_ubo_offset p1 = word_of_nat o1 + 64"
    by (auto simp: uniform_float_def start_parser_def)
  have o1: "o1 = 0" using a1 by (simp add: align_def)
  have g1': "global_ubo_offset p1 = 64" using g1 o1 by simp
  have t1: "global_ubo_type p1 = 1"
    using u1 by (auto simp: uniform_branch_def Let_def make_id_def start_parser_def
        uniform_float_def is_boolean_def uniform_size_def align_def split: if_splits)
  have l1: "length (uniforms_member_list p1) = 1"
    using u1 by (auto simp: uniform_branch_def Let_def make_id_def start_parser_def
        uniform_float_def is_boolean_def uniform_size_def align_def split: if_splits)
  have pv: "unat (global_ubo_offset p1) = 64" using g1' by simp
  from uniform_member_offset [OF r2, of 0 "''v''" BuiltInMax p1]
  obtain s2 p2 o2 where
    u2: "uniform_branch 64 0 (uniform_float 3 1) ''v'' BuiltInMax p1 = Some (s2, p2)"
    and a2: "align 64 64 16 = Some o2"
    and m2: "member_decorations p2 =
              member_decorations p1 @ [(global_ubo_type p2, 1, DecorationOffset, [o2 mod 2 ^ 32])]"
    and g2: "global_ubo_offset p2 = word_of_nat o2 + 16"
    by (auto simp: uniform_float_def pv l1)
  have o2: "o2 = 64" using a2 by (simp add: align_def)
  have t2: "global_ubo_type p2 = 1"
    using u2 t1 by (auto simp: uniform_branch_def Let_def make_id_def
        uniform_float_def is_boolean_def uniform_size_def align_def split: if_splits option.splits)
  have "member_decorations p2 = [(1, 0, DecorationOffset, [0]), (1, 1, DecorationOffset, [64])]"
    using m1 m2 o1 o2 t1 t2 by simp
  moreover have "global_ubo_offset p2 = 80" using g2 o2 by simp
  ultimately show ?thesis using u1 u2 g1' by auto
qed

subsection \<open>C4: folding \<open>==\<close> and \<open>!=\<close> of floating-point constants\<close>

lemma write_lanes_nth:
  "i < n \<Longrightarrow> n \<le> length d \<Longrightarrow> write_lanes n f d ! i = f i"
proof (induction n arbitrary: i)
  case 0
  then show ?case by simp
next
  case (Suc n)
  have step: "write_lanes (Suc n) f d = (write_lanes n f d)[n := f n]"
    by (simp add: write_lanes_def)
  have len: "length (write_lanes n f d) = length d"
    by (induction n) (simp_all add: write_lanes_def)
  show ?case
  proof (cases "i = n")
    case True
    with Suc.prems len show ?thesis by (simp add: step)
  next
    case False
    with Suc.prems have "i < n" by simp
    with Suc.IH [of i] Suc.prems False show ?thesis by (simp add: step)
  qed
qed

text \<open>
  Because the case \<open>OpFOrdEqual\<close> runs on into the integer case, the folded lanes hold
  the comparison of the bit patterns, whatever the float comparison gave.
\<close>

lemma fold_float_equal_compares_bits:
  assumes "i < n" and "n \<le> length lhs"
  shows "\<exists>res. fold_constant_lanes OpFOrdEqual n lhs rhs = Some res
           \<and> res ! i = of_bool32 (lhs ! i = rhs ! i)"
proof -
  have len: "length (write_lanes n f d) = length d" for f d
    by (induction n) (simp_all add: write_lanes_def)
  show ?thesis
    using assms by (simp add: fold_constant_lanes_def Let_def write_lanes_nth len)
qed

text \<open>
  C4 at the failing input: the float constants \<open>-0.0\<close> and \<open>0.0\<close>, compared with \<open>==\<close>.
  The merged type is floating-point, so the operator becomes \<open>OpFOrdEqual\<close>; the float
  comparison of the two lanes is true, but the fold yields 0 (false) in lane 0, so the
  folded lanes are not the float-ordered comparison.
\<close>

theorem fold_equal_minus_zero_zero:
  "select_equality_op OpLogicalEqual False True = OpFOrdEqual
   \<and> fold_constant_lanes (select_equality_op OpLogicalEqual False True) 1
        float_minus_zero float_plus_zero = Some (0 # replicate 15 0)
   \<and> float_eq (float_minus_zero ! 0) (float_plus_zero ! 0)
   \<and> \<not> float_ordered_equal_lanes 1 float_minus_zero float_plus_zero (0 # replicate 15 0)"
  by (simp add: fold_constant_lanes_def select_equality_op_def write_lanes_def
      float_minus_zero_def float_plus_zero_def of_bool32_def float_ordered_equal_lanes_def
      float_eq_def float_is_nan_def float_is_zero_def)

subsection \<open>C5: semantic names that are not built-ins\<close>

text \<open>
  C5, as stated, fails: for the semantic \<open>COLOR2\<close> the function returns \<open>BuiltInMax\<close> and
  leaves the caller's index as it was (here 0), it does not set it to the trailing
  digits 2.
\<close>

theorem semantic_to_builtin_COLOR2_index_unchanged:
  "semantic_to_builtin 32 ''COLOR2'' 0 = Inr (BuiltInMax, ''COLOR2'', 0)
   \<and> semantic_to_builtin 64 ''COLOR2'' 0 = Inr (BuiltInMax, ''COLOR2'', 0)
   \<and> (0 :: 32 word) \<noteq> 2"
  by (simp add: semantic_to_builtin_def toupper_def)

text \<open>
  C5, amended: for every semantic string whose case-folded form is not one of the
  recognised built-in names, \<open>semantic_to_builtin\<close> returns \<open>BuiltInMax\<close> (unless
  \<open>std::stol\<close> throws) and upper-cases the string. The index is written only when the
  case-folded name starts with \<open>SV_TARGET\<close> or \<open>TEXCOORD\<close> and goes on: then it becomes
  what \<open>std::stol\<close> reads from the rest, in particular the number the rest spells when
  the rest is made of decimal digits and fits a \<open>long\<close>. For every other name (such as
  \<open>COLOR2\<close>) the index is left unchanged.
\<close>

theorem semantic_to_builtin_fallback:
  assumes "map toupper s \<notin> set builtin_names"
  shows "(indexed_suffix (map toupper s) = None \<longrightarrow>
            semantic_to_builtin lb s idx = Inr (BuiltInMax, map toupper s, idx))
       \<and> (\<forall>r. indexed_suffix (map toupper s) = Some r \<longrightarrow>
            semantic_to_builtin lb s idx =
              (case assign_stol lb r of
                 Inl e \<Rightarrow> Inl e
               | Inr i \<Rightarrow> Inr (BuiltInMax, map toupper s, i)))
       \<and> (\<forall>r. indexed_suffix (map toupper s) = Some r \<and> (\<forall>c \<in> set r. isdigit c)
                \<and> digits_value r < 2 ^ (lb - 1) \<longrightarrow>
            semantic_to_builtin lb s idx =
              Inr (BuiltInMax, map toupper s, word_of_nat (digits_value r)))"
proof -
  let ?u = "map toupper s"
  have nb: "?u \<noteq> ''SV_POSITION''" "?u \<noteq> ''SV_POINTSIZE''" "?u \<noteq> ''SV_DEPTH''"
    "?u \<noteq> ''VERTEXID''" "?u \<noteq> ''SV_VERTEXID''"
    using assms by (auto simp: builtin_names_def)
  have general: "semantic_to_builtin lb s idx =
      (case indexed_suffix ?u of
         None \<Rightarrow> Inr (BuiltInMax, ?u, idx)
       | Some r \<Rightarrow> (case assign_stol lb r of
                      Inl e \<Rightarrow> Inl e
                    | Inr i \<Rightarrow> Inr (BuiltInMax, ?u, i)))"
  proof (cases "9 < length ?u \<and> take 9 ?u = ''SV_TARGET''")
    case True
    then have "take 8 ?u \<noteq> ''TEXCOORD''" by (simp add: not_both_prefixes)
    with True nb show ?thesis
      unfolding semantic_to_builtin_def indexed_suffix_def Let_def
      by (simp split: sum.splits)
  next
    case False
    with nb show ?thesis
      unfolding semantic_to_builtin_def indexed_suffix_def Let_def
      by (auto split: sum.splits)
  qed
  have digits: "assign_stol lb r = Inr (word_of_nat (digits_value r))"
    if "indexed_suffix ?u = Some r" "\<forall>c \<in> set r. isdigit c" "digits_value r < 2 ^ (lb - 1)" for r
  proof -
    have "r \<noteq> []" using that(1)
      by (auto simp: indexed_suffix_def split: if_splits)
    then have "stol lb r = Inr (int (digits_value r))"
      using that(2,3) by (rule stol_digits)
    then show ?thesis by (simp add: assign_stol_def)
  qed
  show ?thesis
    using general digits by (auto split: option.splits)
qed

theorem semantic_to_builtin_fallback_witness:
  "semantic_to_builtin 32 ''Color2'' 7 = Inr (BuiltInMax, ''COLOR2'', 7)
   \<and> semantic_to_builtin 32 ''texcoord3'' 7 = Inr (BuiltInMax, ''TEXCOORD3'', 3)"
proof -
  have h1: "map toupper ''Color2'' \<notin> set builtin_names"
    by (simp add: toupper_def builtin_names_def)
  have h2: "map toupper ''texcoord3'' \<notin> set builtin_names"
    by (simp add: toupper_def builtin_names_def)
  have u1: "map toupper ''Color2'' = ''COLOR2''" by (simp add: toupper_def)
  have u2: "map toupper ''texcoord3'' = ''TEXCOORD3''" by (simp add: toupper_def)
  have s1: "indexed_suffix ''COLOR2'' = None" by (simp add: indexed_suffix_def)
  have s2: "indexed_suffix ''TEXCOORD3'' = Some ''3''" by (simp add: indexed_suffix_def)
  have d2: "(\<forall>c \<in> set ''3''. isdigit c) \<and> digits_value ''3'' < 2 ^ (32 - 1)"
    by (simp add: isdigit_def digits_value_def)
  have v2: "(word_of_nat (digits_value ''3'') :: 32 word) = 3"
    by (simp add: digits_value_def)
  note t1 = semantic_to_builtin_fallback [OF h1, of 32 7, THEN conjunct1, rule_format]
  note t2 = semantic_to_builtin_fallback [OF h2, of 32 7, THEN conjunct2, THEN conjunct2,
      rule_format, of "''3''"]
  from t1 u1 s1
  have a: "semantic_to_builtin 32 ''Color2'' 7 = Inr (BuiltInMax, ''COLOR2'', 7)"
    by simp
  from t2 u2 s2 d2 v2
  have b: "semantic_to_builtin 32 ''texcoord3'' 7 = Inr (BuiltInMax, ''TEXCOORD3'', 3)"
    by simp
  from a b show ?thesis by simp
qed

subsection \<open>C6: \<open>break\<close> and \<open>continue\<close>\<close>

lemma parse_attributes_none:
  "\<not> peek (punct CHR ''['') p \<Longrightarrow> parse_attributes lc sc p = (True, lc, sc, p)"
  by (simp add: parse_attributes.simps [of lc sc p])

lemma consume_keeps [simp]:
  "current_block (consume p) = current_block p"
  "current_function (consume p) = current_function p"
  "loop_break_target_stack (consume p) = loop_break_target_stack p"
  "loop_continue_target_stack (consume p) = loop_continue_target_stack p"
  "function_list (consume p) = function_list p"
  "errors (consume p) = errors p"
  by (simp_all add: consume_def split: list.splits)

lemma expect_keeps [simp]:
  "current_block (snd (expect t p)) = current_block p"
  "loop_break_target_stack (snd (expect t p)) = loop_break_target_stack p"
  "loop_continue_target_stack (snd (expect t p)) = loop_continue_target_stack p"
  by (simp_all add: expect_def accept_def error_def)

text \<open>
  C6: inside a function, with a basic block open, a \<open>break\<close> statement with no break
  target fails with error 3518 and leaves the section as it was; with a break target it
  appends exactly one instruction to the section, an \<open>OpBranch\<close> to the innermost target
  (the top of the stack), closes the block (\<open>_current_block = 0\<close>) and answers what
  \<open>expect(';')\<close> answers. The same holds for \<open>continue\<close>, with its own stack and error
  3519.
\<close>

theorem break_continue_statement:
  assumes "current_block p \<noteq> 0" and "current_function p \<noteq> size_t_max"
  shows "(peek tok_break p \<and> loop_break_target_stack p = [] \<longrightarrow>
            parse_statement (Suc n) X sect scoped p =
              Returns (False, sect,
                error (tok_location (token_next p)) 3518 [Text ''break must be inside loop'']
                  (consume p)))
       \<and> (peek tok_break p \<and> loop_break_target_stack p \<noteq> [] \<longrightarrow>
            parse_statement (Suc n) X sect scoped p =
              Returns (fst (expect (punct CHR '';'') ((consume p)\<lparr>current_block := 0\<rparr>)),
                sect @ [\<lparr>op = OpBranch, result_type = 0, result = 0,
                         operands = [last (loop_break_target_stack p)],
                         ins_location = no_location\<rparr>],
                snd (expect (punct CHR '';'') ((consume p)\<lparr>current_block := 0\<rparr>)))
          \<and> current_block (snd (expect (punct CHR '';'') ((consume p)\<lparr>current_block := 0\<rparr>))) = 0)
       \<and> (peek tok_continue p \<and> loop_continue_target_stack p = [] \<longrightarrow>
            parse_statement (Suc n) X sect scoped p =
              Returns (False, sect,
                error (tok_location (token_next p)) 3519 [Text ''continue must be inside loop'']
                  (consume p)))
       \<and> (peek tok_continue p \<and> loop_continue_target_stack p \<noteq> [] \<longrightarrow>
            parse_statement (Suc n) X sect scoped p =
              Returns (fst (expect (punct CHR '';'') ((consume p)\<lparr>current_block := 0\<rparr>)),
                sect @ [\<lparr>op = OpBranch, result_type = 0, result = 0,
                         operands = [last (loop_continue_target_stack p)],
                         ins_location = no_location\<rparr>],
                snd (expect (punct CHR '';'') ((consume p)\<lparr>current_block := 0\<rparr>)))
          \<and> current_block (snd (expect (punct CHR '';'') ((consume p)\<lparr>current_block := 0\<rparr>))) = 0)"
proof -
  have brk: "parse_statement (Suc n) X sect scoped p =
      (if loop_break_target_stack p = []
       then Returns (False, sect,
              error (tok_location (token_next p)) 3518 [Text ''break must be inside loop'']
                (consume p))
       else Returns (fst (expect (punct CHR '';'') ((consume p)\<lparr>current_block := 0\<rparr>)),
              sect @ [\<lparr>op = OpBranch, result_type = 0, result = 0,
                       operands = [last (loop_break_target_stack p)],
                       ins_location = no_location\<rparr>],
              snd (expect (punct CHR '';'') ((consume p)\<lparr>current_block := 0\<rparr>))))"
    if pk: "peek tok_break p"
  proof -
    from pk have id: "tok_id (token_next p) = tok_break" by (simp add: peek_def)
    then have na: "\<not> peek (punct CHR ''['') p" by (simp add: peek_def)
    show ?thesis
      using assms id
      by (simp add: parse_statement_body_def parse_attributes_none [OF na]
          statement_in_function_def leave_block_and_branch_def add_node_without_result_def
          peek_def Let_def split: prod.splits)
  qed
  have cnt: "parse_statement (Suc n) X sect scoped p =
      (if loop_continue_target_stack p = []
       then Returns (False, sect,
              error (tok_location (token_next p)) 3519 [Text ''continue must be inside loop'']
                (consume p))
       else Returns (fst (expect (punct CHR '';'') ((consume p)\<lparr>current_block := 0\<rparr>)),
              sect @ [\<lparr>op = OpBranch, result_type = 0, result = 0,
                       operands = [last (loop_continue_target_stack p)],
                       ins_location = no_location\<rparr>],
              snd (expect (punct CHR '';'') ((consume p)\<lparr>current_block := 0\<rparr>))))"
    if pk: "peek tok_continue p"
  proof -
    from pk have id: "tok_id (token_next p) = tok_continue" by (simp add: peek_def)
    then have na: "\<not> peek (punct CHR ''['') p" by (simp add: peek_def)
    show ?thesis
      using assms id
      by (simp add: parse_statement_body_def parse_attributes_none [OF na]
          statement_in_function_def leave_block_and_branch_def add_node_without_result_def
          peek_def Let_def split: prod.splits)
  qed
  show ?thesis using brk cnt by simp
qed

theorem break_continue_statement_witness:
  "(case parse_statement (Suc 0) example_externals [] True
           (in_function [tok tok_break, tok (punct CHR '';'')]) of
      Returns (ok, s, p') \<Rightarrow> \<not> ok \<and> s = [] \<and> map diag_code (errors p') = [3518]
    | _ \<Rightarrow> False)
   \<and> (case parse_statement (Suc 0) example_externals [] True
           ((in_function [tok tok_break, tok (punct CHR '';'')])
              \<lparr>loop_break_target_stack := [3, 9]\<rparr>) of
      Returns (ok, s, p') \<Rightarrow>
        ok \<and> map op s = [OpBranch] \<and> map operands s = [[9]] \<and> current_block p' = 0
        \<and> errors p' = []
    | _ \<Rightarrow> False)
   \<and> (case parse_statement (Suc 0) example_externals [] True
           (in_function [tok tok_continue, tok (punct CHR '';'')]) of
      Returns (ok, s, p') \<Rightarrow> \<not> ok \<and> s = [] \<and> map diag_code (errors p') = [3519]
    | _ \<Rightarrow> False)
   \<and> (case parse_statement (Suc 0) example_externals [] True
           ((in_function [tok tok_continue, tok (punct CHR '';'')])
              \<lparr>loop_continue_target_stack := [3, 9]\<rparr>) of
      Returns (ok, s, p') \<Rightarrow>
        ok \<and> map op s = [OpBranch] \<and> map operands s = [[9]] \<and> current_block p' = 0
        \<and> errors p' = []
    | _ \<Rightarrow> False)"
proof -
  let ?b = "in_function [tok tok_break, tok (punct CHR '';'')]"
  let ?c = "in_function [tok tok_continue, tok (punct CHR '';'')]"
  have b: "current_block ?b \<noteq> 0" "current_function ?b \<noteq> size_t_max" "peek tok_break ?b"
    "loop_break_target_stack ?b = []"
    by (simp_all add: in_function_def start_parser_def consume_def size_t_max_def peek_def tok_def)
  have c: "current_block ?c \<noteq> 0" "current_function ?c \<noteq> size_t_max" "peek tok_continue ?c"
    "loop_continue_target_stack ?c = []"
    by (simp_all add: in_function_def start_parser_def consume_def size_t_max_def peek_def tok_def)
  let ?b2 = "?b\<lparr>loop_break_target_stack := [3, 9]\<rparr>"
  let ?c2 = "?c\<lparr>loop_continue_target_stack := [3, 9]\<rparr>"
  have b2: "current_block ?b2 \<noteq> 0" "current_function ?b2 \<noteq> size_t_max" "peek tok_break ?b2"
    "loop_break_target_stack ?b2 \<noteq> []"
    using b by (simp_all add: peek_def)
  have c2: "current_block ?c2 \<noteq> 0" "current_function ?c2 \<noteq> size_t_max"
    "peek tok_continue ?c2" "loop_continue_target_stack ?c2 \<noteq> []"
    using c by (simp_all add: peek_def)
  note t1 = break_continue_statement [OF b(1,2), of 0 example_externals "[]" True,
      THEN conjunct1, rule_format, OF conjI [OF b(3,4)]]
  note t2 = break_continue_statement [OF b2(1,2), of 0 example_externals "[]" True,
      THEN conjunct2, THEN conjunct1, rule_format, OF conjI [OF b2(3,4)], THEN conjunct1]
  note t3 = break_continue_statement [OF c(1,2), of 0 example_externals "[]" True,
      THEN conjunct2, THEN conjunct2, THEN conjunct1, rule_format, OF conjI [OF c(3,4)]]
  note t4 = break_continue_statement [OF c2(1,2), of 0 example_externals "[]" True,
      THEN conjunct2, THEN conjunct2, THEN conjunct2, rule_format, OF conjI [OF c2(3,4)],
      THEN conjunct1]
  have r1: "case parse_statement (Suc 0) example_externals [] True ?b of
      Returns (ok, s, p') \<Rightarrow> \<not> ok \<and> s = [] \<and> map diag_code (errors p') = [3518]
    | _ \<Rightarrow> False"
    unfolding t1 by (simp add: error_def in_function_def start_parser_def consume_def)
  have r2: "case parse_statement (Suc 0) example_externals [] True ?b2 of
      Returns (ok, s, p') \<Rightarrow>
        ok \<and> map op s = [OpBranch] \<and> map operands s = [[9]] \<and> current_block p' = 0
        \<and> errors p' = []
    | _ \<Rightarrow> False"
    unfolding t2
    by (simp add: expect_def accept_def peek_def in_function_def start_parser_def consume_def
        tok_def)
  have r3: "case parse_statement (Suc 0) example_externals [] True ?c of
      Returns (ok, s, p') \<Rightarrow> \<not> ok \<and> s = [] \<and> map diag_code (errors p') = [3519]
    | _ \<Rightarrow> False"
    unfolding t3 by (simp add: error_def in_function_def start_parser_def consume_def)
  have r4: "case parse_statement (Suc 0) example_externals [] True ?c2 of
      Returns (ok, s, p') \<Rightarrow>
        ok \<and> map op s = [OpBranch] \<and> map operands s = [[9]] \<and> current_block p' = 0
        \<and> errors p' = []
    | _ \<Rightarrow> False"
    unfolding t4
    by (simp add: expect_def accept_def peek_def in_function_def start_parser_def consume_def
        tok_def)
  from r1 r2 r3 r4 show ?thesis by blast
qed

subsection \<open>C7: recursive calls\<close>



subsection \<open>C8: swizzles with a repeated component\<close>

lemma vector_swizzle_loop_result:
  assumes "vector_swizzle_loop cs rws offsets sets cst = Inr (offsets', cst')"
    and "cst \<longleftrightarrow> \<not> distinct offsets"
  shows "offsets' = offsets @ map swizzle_offset cs \<and> (cst' \<longleftrightarrow> \<not> distinct offsets')"
  using assms
proof (induction cs arbitrary: offsets sets cst)
  case Nil
  then show ?case by auto
next
  case (Cons c cs)
  from Cons.prems(1) obtain off st where comp: "swizzle_component c = Some (off, st)"
    by (cases "swizzle_component c") auto
  from Cons.prems(1) comp
  have rec: "vector_swizzle_loop cs rws (offsets @ [off]) (sets @ [st])
               (cst \<or> off \<in> set offsets) = Inr (offsets', cst')"
    by (simp split: if_splits)
  have inv: "(cst \<or> off \<in> set offsets) \<longleftrightarrow> \<not> distinct (offsets @ [off])"
    using Cons.prems(2) by auto
  from Cons.IH [OF rec inv] comp show ?case
    by (simp add: swizzle_offset_def)
qed

lemma matrix_swizzle_loop_result:
  assumes "matrix_swizzle_loop subscript st rws cls i offsets cst
             = Returns (Inr (offsets', cst'))"
    and "cst \<longleftrightarrow> \<not> distinct offsets"
  shows "cst' \<longleftrightarrow> \<not> distinct offsets'"
  using assms
proof (induction subscript st rws cls i offsets cst rule: matrix_swizzle_loop.induct)
  case (1 subscript st rws cls i offsets cst)
  show ?case
  proof (cases "i < length subscript")
    case False
    with "1.prems" show ?thesis
      by (auto simp: matrix_swizzle_loop.simps [of subscript st rws cls i])
  next
    case True
    let ?co = "1 - st"
    let ?valid = "\<lambda>c. 48 + ?co \<le> (of_char c :: nat) \<and> (of_char c :: nat) \<le> 51 + ?co"
    note eq = "1.prems"(1) [unfolded matrix_swizzle_loop.simps [of subscript st rws cls i] Let_def]
    from eq True have u: "subscript ! i = CHR ''_''"
      by (auto split: if_splits)
    from eq True u obtain c1 where c1: "char_at subscript (i + st + 1) = Some c1"
      by (cases "char_at subscript (i + st + 1)") auto
    from eq True u c1 have v1: "?valid c1"
      by (auto split: if_splits)
    from eq True u c1 v1 obtain c2 where c2: "char_at subscript (i + st + 2) = Some c2"
      by (cases "char_at subscript (i + st + 2)") auto
    from eq True u c1 v1 c2 have v2: "?valid c2"
      by (auto split: if_splits)
    from eq True u c1 v1 c2 v2 have nm: "\<not> (st \<noteq> 0 \<and> subscript ! (i + 1) \<noteq> CHR ''m'')"
      by (auto split: if_splits)
    let ?row = "(of_char c1 :: nat) - 48 - ?co"
    let ?col = "(of_char c2 :: nat) - 48 - ?co"
    from eq True u c1 v1 c2 v2 nm
    have rng: "\<not> (rws \<le> ?row \<or> cls \<le> ?col \<or> 3 < length offsets)"
      by (auto split: if_splits)
    from eq True u c1 v1 c2 v2 nm rng
    have rec: "matrix_swizzle_loop subscript st rws cls (i + 3 + st)
                 (offsets @ [int (?row * 4 + ?col)])
                 (cst \<or> int (?row * 4 + ?col) \<in> set offsets)
               = Returns (Inr (offsets', cst'))"
      by (simp split: if_splits)
    have inv: "(cst \<or> int (?row * 4 + ?col) \<in> set offsets)
                 \<longleftrightarrow> \<not> distinct (offsets @ [int (?row * 4 + ?col)])"
      using "1.prems"(2) by auto
    from "1.IH" [OF _ refl refl _ c1 _ c2 _ _ refl refl _ rec inv] True u v1 v2 nm rng
    show ?thesis by simp
  qed
qed

lemma mark_unmodifiable_repeated:
  "has (exp_type (mark_unmodifiable True e)) qualifier_const
   \<and> \<not> has (exp_type (mark_unmodifiable True e)) qualifier_uniform"
  by (simp add: mark_unmodifiable_def has_def)

lemma mark_unmodifiable_distinct:
  assumes "\<not> has (exp_type e) qualifier_const" and "\<not> has (exp_type e) qualifier_uniform"
  shows "mark_unmodifiable False e = e"
  using assms by (simp add: mark_unmodifiable_def)

lemma vector_swizzle_qualifiers:
  assumes ok: "vector_swizzle asa loc subscript expr p = (True, expr', p')"
  shows "(\<not> distinct (map swizzle_offset subscript) \<longrightarrow>
            has (exp_type expr') qualifier_const \<and> \<not> has (exp_type expr') qualifier_uniform)
       \<and> (distinct (map swizzle_offset subscript)
            \<and> (\<forall>offs n. qualifiers (exp_type (asa expr offs n)) = qualifiers (exp_type expr)
                          \<and> is_lvalue (asa expr offs n) = is_lvalue expr)
            \<and> \<not> has (exp_type expr) qualifier_const
            \<and> \<not> has (exp_type expr) qualifier_uniform \<and> is_lvalue expr \<longrightarrow>
            \<not> has (exp_type expr') qualifier_const
            \<and> \<not> has (exp_type expr') qualifier_uniform \<and> is_lvalue expr')"
proof -
  from ok have len: "\<not> 4 < length subscript"
    by (auto simp: vector_swizzle_def split: if_splits)
  from ok len obtain offsets cst where
    lp: "vector_swizzle_loop subscript (rows (exp_type expr)) [] [] False = Inr (offsets, cst)"
    by (cases "vector_swizzle_loop subscript (rows (exp_type expr)) [] [] False")
      (auto simp: vector_swizzle_def)
  from vector_swizzle_loop_result [OF lp]
  have offs: "offsets = map swizzle_offset subscript" and c: "cst \<longleftrightarrow> \<not> distinct offsets"
    by simp_all
  from ok len lp
  have e: "expr' = mark_unmodifiable cst (asa expr (pad_offsets offsets) (length subscript))"
    by (simp add: vector_swizzle_def)
  show ?thesis
  proof (intro conjI impI)
    assume "\<not> distinct (map swizzle_offset subscript)"
    with offs c have "cst" by simp
    then show "has (exp_type expr') qualifier_const" "\<not> has (exp_type expr') qualifier_uniform"
      using mark_unmodifiable_repeated e by simp_all
  next
    assume a: "distinct (map swizzle_offset subscript)
            \<and> (\<forall>offs n. qualifiers (exp_type (asa expr offs n)) = qualifiers (exp_type expr)
                          \<and> is_lvalue (asa expr offs n) = is_lvalue expr)
            \<and> \<not> has (exp_type expr) qualifier_const
            \<and> \<not> has (exp_type expr) qualifier_uniform \<and> is_lvalue expr"
    with offs c have nc: "\<not> cst" by simp
    let ?e = "asa expr (pad_offsets offsets) (length subscript)"
    from a have k: "\<not> has (exp_type ?e) qualifier_const" "\<not> has (exp_type ?e) qualifier_uniform"
      "is_lvalue ?e"
      by (simp_all add: has_def)
    from e nc mark_unmodifiable_distinct [OF k(1,2)] have "expr' = ?e" by simp
    with k show "\<not> has (exp_type expr') qualifier_const"
      "\<not> has (exp_type expr') qualifier_uniform" "is_lvalue expr'"
      by simp_all
  qed
qed

lemma matrix_swizzle_qualifiers:
  assumes ok: "matrix_swizzle asa loc subscript expr p = Returns (True, expr', p')"
  shows "\<exists>offsets cst.
           matrix_swizzle_loop subscript (if subscript ! 1 = CHR ''m'' then 1 else 0)
             (rows (exp_type expr)) (cols (exp_type expr)) 0 [] False
             = Returns (Inr (offsets, cst))
         \<and> (\<not> distinct offsets \<longrightarrow>
              has (exp_type expr') qualifier_const \<and> \<not> has (exp_type expr') qualifier_uniform)
         \<and> (distinct offsets
              \<and> (\<forall>offs n. qualifiers (exp_type (asa expr offs n)) = qualifiers (exp_type expr)
                            \<and> is_lvalue (asa expr offs n) = is_lvalue expr)
              \<and> \<not> has (exp_type expr) qualifier_const
              \<and> \<not> has (exp_type expr) qualifier_uniform \<and> is_lvalue expr \<longrightarrow>
              \<not> has (exp_type expr') qualifier_const
              \<and> \<not> has (exp_type expr') qualifier_uniform \<and> is_lvalue expr')"
proof -
  let ?st = "if subscript ! 1 = CHR ''m'' then 1 else 0 :: nat"
  let ?loop = "matrix_swizzle_loop subscript ?st (rows (exp_type expr)) (cols (exp_type expr))
                 0 [] False"
  from ok have len: "\<not> length subscript < 3"
    by (auto simp: matrix_swizzle_def split: if_splits)
  from ok len obtain offsets cst where lp: "?loop = Returns (Inr (offsets, cst))"
    by (cases ?loop)
      (auto simp: matrix_swizzle_def Let_def split: sum.splits)
  from matrix_swizzle_loop_result [OF lp] have c: "cst \<longleftrightarrow> \<not> distinct offsets" by simp
  let ?e = "asa expr (pad_offsets offsets) (length subscript div (3 + ?st))"
  from ok len lp have e: "expr' = mark_unmodifiable cst ?e"
    by (simp add: matrix_swizzle_def Let_def)
  have rep: "has (exp_type expr') qualifier_const \<and> \<not> has (exp_type expr') qualifier_uniform"
    if "\<not> distinct offsets"
    using that c e mark_unmodifiable_repeated by simp
  have dis: "\<not> has (exp_type expr') qualifier_const
              \<and> \<not> has (exp_type expr') qualifier_uniform \<and> is_lvalue expr'"
    if a: "distinct offsets
              \<and> (\<forall>offs n. qualifiers (exp_type (asa expr offs n)) = qualifiers (exp_type expr)
                            \<and> is_lvalue (asa expr offs n) = is_lvalue expr)
              \<and> \<not> has (exp_type expr) qualifier_const
              \<and> \<not> has (exp_type expr) qualifier_uniform \<and> is_lvalue expr"
  proof -
    from a c have nc: "\<not> cst" by simp
    from a have k: "\<not> has (exp_type ?e) qualifier_const" "\<not> has (exp_type ?e) qualifier_uniform"
      "is_lvalue ?e"
      by (simp_all add: has_def)
    from e nc mark_unmodifiable_distinct [OF k(1,2)] have "expr' = ?e" by simp
    with k show ?thesis by simp
  qed
  from lp rep dis show ?thesis by blast
qed

lemma assignment_to_const:
  assumes "parse_expression_multary X sect q = (True, lhs, sect1, q1)"
    and "accept_assignment_op X (exp_type lhs) q1 = Some (opc, q2)"
    and "parse_expression_multary X sect1 q2 = (True, rhs, sect2, q3)"
  shows "(has (exp_type lhs) qualifier_const \<longrightarrow>
            parse_expression_assignment X sect q =
              (False, lhs, sect2,
               error (exp_location lhs) 3025 [Text ''l-value specifies const object''] q3))
       \<and> (\<not> has (exp_type lhs) qualifier_const \<and> \<not> has (exp_type lhs) qualifier_uniform
            \<and> is_lvalue lhs \<and> array_length (exp_type lhs) = array_length (exp_type rhs)
            \<and> rank X (exp_type lhs) (exp_type rhs) \<noteq> 0 \<longrightarrow>
            fst (parse_expression_assignment X sect q))"
  using assms
  by (simp add: parse_expression_assignment_def Let_def split: prod.splits)

text \<open>
  C8: (1) a vector swizzle that succeeds and names some component offset more than once
  yields an expression whose type has the \<open>const\<close> qualifier and not \<open>uniform\<close>; (2) so
  does a matrix swizzle that succeeds and whose offsets \<open>row * 4 + col\<close> repeat; (3) an
  assignment whose left-hand side has the \<open>const\<close> qualifier is rejected with error 3025
  "l-value specifies const object" once both sides have been parsed. Conversely, when
  the components are pairwise distinct and the swizzled expression is a non-const,
  non-uniform l-value (\<open>add_swizzle_access\<close>, a helper of the header, keeping the
  qualifiers and the l-value flag), the result is again a non-const, non-uniform l-value,
  and an assignment to such a left-hand side succeeds whenever the two types have the
  same array length and a non-zero \<open>rank\<close>.
\<close>

theorem repeated_swizzle_not_assignable:
  "(vector_swizzle asa loc subscript expr p = (True, expr', p') \<longrightarrow>
      (\<not> distinct (map swizzle_offset subscript) \<longrightarrow>
         has (exp_type expr') qualifier_const \<and> \<not> has (exp_type expr') qualifier_uniform)
    \<and> (distinct (map swizzle_offset subscript)
         \<and> (\<forall>offs n. qualifiers (exp_type (asa expr offs n)) = qualifiers (exp_type expr)
                       \<and> is_lvalue (asa expr offs n) = is_lvalue expr)
         \<and> \<not> has (exp_type expr) qualifier_const
         \<and> \<not> has (exp_type expr) qualifier_uniform \<and> is_lvalue expr \<longrightarrow>
         \<not> has (exp_type expr') qualifier_const
         \<and> \<not> has (exp_type expr') qualifier_uniform \<and> is_lvalue expr'))
   \<and> (matrix_swizzle asa loc subscript expr p = Returns (True, expr', p') \<longrightarrow>
        (\<exists>offsets cst.
           matrix_swizzle_loop subscript (if subscript ! 1 = CHR ''m'' then 1 else 0)
             (rows (exp_type expr)) (cols (exp_type expr)) 0 [] False
             = Returns (Inr (offsets, cst))
         \<and> (\<not> distinct offsets \<longrightarrow>
              has (exp_type expr') qualifier_const \<and> \<not> has (exp_type expr') qualifier_uniform)
         \<and> (distinct offsets
              \<and> (\<forall>offs n. qualifiers (exp_type (asa expr offs n)) = qualifiers (exp_type expr)
                            \<and> is_lvalue (asa expr offs n) = is_lvalue expr)
              \<and> \<not> has (exp_type expr) qualifier_const
              \<and> \<not> has (exp_type expr) qualifier_uniform \<and> is_lvalue expr \<longrightarrow>
              \<not> has (exp_type expr') qualifier_const
              \<and> \<not> has (exp_type expr') qualifier_uniform \<and> is_lvalue expr')))
   \<and> (parse_expression_multary X sect q = (True, lhs, sect1, q1)
        \<and> accept_assignment_op X (exp_type lhs) q1 = Some (opc, q2)
        \<and> parse_expression_multary X sect1 q2 = (True, rhs, sect2, q3) \<longrightarrow>
        (has (exp_type lhs) qualifier_const \<longrightarrow>
           parse_expression_assignment X sect q =
             (False, lhs, sect2,
              error (exp_location lhs) 3025 [Text ''l-value specifies const object''] q3))
      \<and> (\<not> has (exp_type lhs) qualifier_const \<and> \<not> has (exp_type lhs) qualifier_uniform
           \<and> is_lvalue lhs \<and> array_length (exp_type lhs) = array_length (exp_type rhs)
           \<and> rank X (exp_type lhs) (exp_type rhs) \<noteq> 0 \<longrightarrow>
           fst (parse_expression_assignment X sect q)))"
proof (intro conjI)
  show "vector_swizzle asa loc subscript expr p = (True, expr', p') \<longrightarrow>
      (\<not> distinct (map swizzle_offset subscript) \<longrightarrow>
         has (exp_type expr') qualifier_const \<and> \<not> has (exp_type expr') qualifier_uniform)
    \<and> (distinct (map swizzle_offset subscript)
         \<and> (\<forall>offs n. qualifiers (exp_type (asa expr offs n)) = qualifiers (exp_type expr)
                       \<and> is_lvalue (asa expr offs n) = is_lvalue expr)
         \<and> \<not> has (exp_type expr) qualifier_const
         \<and> \<not> has (exp_type expr) qualifier_uniform \<and> is_lvalue expr \<longrightarrow>
         \<not> has (exp_type expr') qualifier_const
         \<and> \<not> has (exp_type expr') qualifier_uniform \<and> is_lvalue expr')"
    using vector_swizzle_qualifiers [of asa loc subscript expr p expr' p'] by blast
  show "matrix_swizzle asa loc subscript expr p = Returns (True, expr', p') \<longrightarrow>
        (\<exists>offsets cst.
           matrix_swizzle_loop subscript (if subscript ! 1 = CHR ''m'' then 1 else 0)
             (rows (exp_type expr)) (cols (exp_type expr)) 0 [] False
             = Returns (Inr (offsets, cst))
         \<and> (\<not> distinct offsets \<longrightarrow>
              has (exp_type expr') qualifier_const \<and> \<not> has (exp_type expr') qualifier_uniform)
         \<and> (distinct offsets
              \<and> (\<forall>offs n. qualifiers (exp_type (asa expr offs n)) = qualifiers (exp_type expr)
                            \<and> is_lvalue (asa expr offs n) = is_lvalue expr)
              \<and> \<not> has (exp_type expr) qualifier_const
              \<and> \<not> has (exp_type expr) qualifier_uniform \<and> is_lvalue expr \<longrightarrow>
              \<not> has (exp_type expr') qualifier_const
              \<and> \<not> has (exp_type expr') qualifier_uniform \<and> is_lvalue expr'))"
    using matrix_swizzle_qualifiers [of asa loc subscript expr p expr' p'] by blast
  show "parse_expression_multary X sect q = (True, lhs, sect1, q1)
        \<and> accept_assignment_op X (exp_type lhs) q1 = Some (opc, q2)
        \<and> parse_expression_multary X sect1 q2 = (True, rhs, sect2, q3) \<longrightarrow>
        (has (exp_type lhs) qualifier_const \<longrightarrow>
           parse_expression_assignment X sect q =
             (False, lhs, sect2,
              error (exp_location lhs) 3025 [Text ''l-value specifies const object''] q3))
      \<and> (\<not> has (exp_type lhs) qualifier_const \<and> \<not> has (exp_type lhs) qualifier_uniform
           \<and> is_lvalue lhs \<and> array_length (exp_type lhs) = array_length (exp_type rhs)
           \<and> rank X (exp_type lhs) (exp_type rhs) \<noteq> 0 \<longrightarrow>
           fst (parse_expression_assignment X sect q))"
    using assignment_to_const [of X sect q lhs sect1 q1 opc q2 rhs sect2 q3] by blast
qed

text \<open>
  The examples \<open>v.xx\<close> and \<open>v.xy\<close> on a \<open>float4\<close> variable, \<open>m._m00_m00\<close> and \<open>m._11_22\<close> on a
  \<open>float4x4\<close> variable, and the assignments \<open>v.xx = v\<close> (error 3025) and \<open>v.xy = v\<close>
  (accepted, with the truncation warning 3206).
\<close>

theorem repeated_swizzle_not_assignable_witness:
  "(case vector_swizzle example_add_swizzle_access no_location ''xx'' float4_variable
           (in_function []) of
      (ok, e, q) \<Rightarrow>
        ok \<and> has (exp_type e) qualifier_const \<and> \<not> has (exp_type e) qualifier_uniform)
   \<and> (case vector_swizzle example_add_swizzle_access no_location ''xy'' float4_variable
           (in_function []) of
      (ok, e, q) \<Rightarrow> ok \<and> \<not> has (exp_type e) qualifier_const \<and> is_lvalue e)
   \<and> (case matrix_swizzle example_add_swizzle_access no_location ''_m00_m00'' float4x4_variable
           (in_function []) of
      Returns (ok, e, q) \<Rightarrow>
        ok \<and> has (exp_type e) qualifier_const \<and> \<not> has (exp_type e) qualifier_uniform
    | _ \<Rightarrow> False)
   \<and> (case matrix_swizzle example_add_swizzle_access no_location ''_11_22'' float4x4_variable
           (in_function []) of
      Returns (ok, e, q) \<Rightarrow> ok \<and> \<not> has (exp_type e) qualifier_const \<and> is_lvalue e
    | _ \<Rightarrow> False)
   \<and> (case parse_expression_assignment example_externals []
           (in_function [ident ''v'', tok (punct CHR ''.''), ident ''xx'',
                         tok (punct CHR ''=''), ident ''v'']) of
      (ok, e, s, q) \<Rightarrow>
        \<not> ok \<and> s = [] \<and> map diag_code (errors q) = [3025]
        \<and> map diag_severity (errors q) = [severity_error])
   \<and> (case parse_expression_assignment example_externals []
           (in_function [ident ''v'', tok (punct CHR ''.''), ident ''xy'',
                         tok (punct CHR ''=''), ident ''v'']) of
      (ok, e, s, q) \<Rightarrow> ok \<and> map diag_severity (errors q) = [severity_warning])"
proof -
  let ?asa = example_add_swizzle_access
  let ?p = "in_function []"
  note defs = in_function_def start_parser_def consume_def size_t_max_def peek_def tok_def
    ident_def eof_token_def
  note vdefs = vector_swizzle_def swizzle_component_def pad_offsets_def
    example_add_swizzle_access_def float4_variable_def float4x4_variable_def
    float_scalar_type_def
  have keeps: "\<forall>offs n. qualifiers (exp_type (?asa e offs n)) = qualifiers (exp_type e)
                 \<and> is_lvalue (?asa e offs n) = is_lvalue e" for e
    by (simp add: example_add_swizzle_access_def)
  \<comment> \<open>vector, repeated\<close>
  obtain e1 where v1: "vector_swizzle ?asa no_location ''xx'' float4_variable ?p = (True, e1, ?p)"
    by (simp add: vdefs)
  have d1: "\<not> distinct (map swizzle_offset ''xx'')"
    by (simp add: swizzle_offset_def swizzle_component_def)
  from repeated_swizzle_not_assignable [where asa = ?asa and loc = no_location
      and subscript = "''xx''" and expr = float4_variable and p = ?p and expr' = e1
      and p' = ?p, THEN conjunct1, rule_format, OF v1, THEN conjunct1, rule_format, OF d1]
  have c1: "has (exp_type e1) qualifier_const \<and> \<not> has (exp_type e1) qualifier_uniform" .
  have w1: "case vector_swizzle ?asa no_location ''xx'' float4_variable ?p of
      (ok, e, q) \<Rightarrow>
        ok \<and> has (exp_type e) qualifier_const \<and> \<not> has (exp_type e) qualifier_uniform"
    unfolding v1 using c1 by simp
  \<comment> \<open>vector, distinct\<close>
  obtain e2 where v2: "vector_swizzle ?asa no_location ''xy'' float4_variable ?p = (True, e2, ?p)"
    by (simp add: vdefs)
  have d2: "distinct (map swizzle_offset ''xy'')"
    by (simp add: swizzle_offset_def swizzle_component_def)
  have f4: "\<not> has (exp_type float4_variable) qualifier_const"
    "\<not> has (exp_type float4_variable) qualifier_uniform" "is_lvalue float4_variable"
    by (simp_all add: float4_variable_def float_scalar_type_def has_def)
  from repeated_swizzle_not_assignable [where asa = ?asa and loc = no_location
      and subscript = "''xy''" and expr = float4_variable and p = ?p and expr' = e2
      and p' = ?p, THEN conjunct1, rule_format, OF v2, THEN conjunct2, rule_format]
    d2 keeps [of float4_variable] f4
  have c2: "\<not> has (exp_type e2) qualifier_const \<and> \<not> has (exp_type e2) qualifier_uniform
      \<and> is_lvalue e2"
    by blast
  have w2: "case vector_swizzle ?asa no_location ''xy'' float4_variable ?p of
      (ok, e, q) \<Rightarrow> ok \<and> \<not> has (exp_type e) qualifier_const \<and> is_lvalue e"
    unfolding v2 using c2 by simp
  \<comment> \<open>matrix\<close>
  have l3: "matrix_swizzle_loop ''_m00_m00'' (Suc 0) 4 4 0 [] False
      = Returns (Inr ([0, 0], True))"
    by (simp add: matrix_swizzle_loop.simps char_at_def)
  have l4: "matrix_swizzle_loop ''_11_22'' 0 4 4 0 [] False = Returns (Inr ([0, 5], False))"
    by (simp add: matrix_swizzle_loop.simps char_at_def)
  obtain e3 where m3: "matrix_swizzle ?asa no_location ''_m00_m00'' float4x4_variable ?p
      = Returns (True, e3, ?p)"
    by (simp add: matrix_swizzle_def l3 float4x4_variable_def float_scalar_type_def)
  obtain e4 where m4: "matrix_swizzle ?asa no_location ''_11_22'' float4x4_variable ?p
      = Returns (True, e4, ?p)"
    by (simp add: matrix_swizzle_def l4 float4x4_variable_def float_scalar_type_def)
  have f44: "\<not> has (exp_type float4x4_variable) qualifier_const"
    "\<not> has (exp_type float4x4_variable) qualifier_uniform" "is_lvalue float4x4_variable"
    "rows (exp_type float4x4_variable) = 4" "cols (exp_type float4x4_variable) = 4"
    by (simp_all add: float4x4_variable_def float_scalar_type_def has_def)
  from repeated_swizzle_not_assignable [where asa = ?asa and loc = no_location
      and subscript = "''_m00_m00''" and expr = float4x4_variable and p = ?p and expr' = e3
      and p' = ?p, THEN conjunct2, THEN conjunct1, rule_format, OF m3]
  have c3: "has (exp_type e3) qualifier_const \<and> \<not> has (exp_type e3) qualifier_uniform"
    by (auto simp: f44 l3)
  from repeated_swizzle_not_assignable [where asa = ?asa and loc = no_location
      and subscript = "''_11_22''" and expr = float4x4_variable and p = ?p and expr' = e4
      and p' = ?p, THEN conjunct2, THEN conjunct1, rule_format, OF m4]
    keeps [of float4x4_variable]
  have c4: "\<not> has (exp_type e4) qualifier_const \<and> is_lvalue e4"
    by (auto simp: f44 l4)
  have w3: "case matrix_swizzle ?asa no_location ''_m00_m00'' float4x4_variable ?p of
      Returns (ok, e, q) \<Rightarrow>
        ok \<and> has (exp_type e) qualifier_const \<and> \<not> has (exp_type e) qualifier_uniform
    | _ \<Rightarrow> False"
    unfolding m3 using c3 by simp
  have w4: "case matrix_swizzle ?asa no_location ''_11_22'' float4x4_variable ?p of
      Returns (ok, e, q) \<Rightarrow> ok \<and> \<not> has (exp_type e) qualifier_const \<and> is_lvalue e
    | _ \<Rightarrow> False"
    unfolding m4 using c4 by simp
  \<comment> \<open>assignments\<close>
  let ?a = "in_function [ident ''v'', tok (punct CHR ''.''), ident ''xx'',
                         tok (punct CHR ''=''), ident ''v'']"
  let ?b = "in_function [ident ''v'', tok (punct CHR ''.''), ident ''xy'',
                         tok (punct CHR ''=''), ident ''v'']"
  note edefs = example_externals_def example_operand_def expect_def accept_def
    accept_assignment_op_def Let_def
  obtain la a1 where a1: "parse_expression_multary example_externals [] ?a = (True, la, [], a1)"
    and la: "has (exp_type la) qualifier_const"
    and a2: "accept_assignment_op example_externals (exp_type la) a1 = Some (OpNop, consume a1)"
    and a3: "parse_expression_multary example_externals [] (consume a1)
               = (True, float4_variable, [], consume (consume a1))"
    and a4: "errors (consume (consume a1)) = []"
    by (simp add: edefs defs vdefs mark_unmodifiable_def has_def)
  from repeated_swizzle_not_assignable [where X = example_externals and sect = "[]"
      and q = ?a and lhs = la and ?sect1.0 = "[]" and ?q1.0 = a1 and opc = OpNop
      and ?q2.0 = "consume a1" and rhs = float4_variable and ?sect2.0 = "[]"
      and ?q3.0 = "consume (consume a1)",
      THEN conjunct2, THEN conjunct2, rule_format, OF conjI [OF a1 conjI [OF a2 a3]],
      THEN conjunct1, rule_format, OF la]
  have ra: "parse_expression_assignment example_externals [] ?a =
      (False, la, [],
       error (exp_location la) 3025 [Text ''l-value specifies const object'']
         (consume (consume a1)))" .
  have w5: "case parse_expression_assignment example_externals [] ?a of
      (ok, e, s, q) \<Rightarrow>
        \<not> ok \<and> s = [] \<and> map diag_code (errors q) = [3025]
        \<and> map diag_severity (errors q) = [severity_error]"
    unfolding ra using a4 by (simp add: error_def)
  have w6: "case parse_expression_assignment example_externals [] ?b of
      (ok, e, s, q) \<Rightarrow> ok \<and> map diag_severity (errors q) = [severity_warning]"
    by (simp add: parse_expression_assignment_def edefs defs vdefs mark_unmodifiable_def
        has_def warning_def reset_to_rvalue_def)
  from w1 w2 w3 w4 w5 w6 show ?thesis by blast
qed

subsection \<open>C9: statements outside an open basic block\<close>

lemma expect_current_block:
  "expect t p = (ok, p') \<Longrightarrow> current_block p' = current_block p"
  by (auto simp: expect_def accept_def error_def split: if_splits)

lemma leave_block_and_branch_closes:
  "leave_block_and_branch s t p = (s', p') \<Longrightarrow> current_block p' = 0"
  by (auto simp: leave_block_and_branch_def split: if_splits)

lemma leave_block_and_return_closes:
  "leave_block_and_return s v p = (s', p') \<Longrightarrow> current_block p' = 0"
  by (auto simp: leave_block_and_return_def split: if_splits)

lemma leave_block_and_kill_closes:
  "leave_block_and_kill s p = (s', p') \<Longrightarrow> current_block p' = 0"
  by (auto simp: leave_block_and_kill_def split: if_splits)

lemma return_statement_closes:
  assumes r: "return_statement X loc sect p = Returns (True, sect', p')"
  shows "current_block p' = 0"
proof -
  have tail: "current_block q' = 0"
    if "leave_block_and_return s v q = (s1, q1)" and "expect t q1 = (ok, q')"
    for s v q s1 q1 t ok q'
    using that leave_block_and_return_closes expect_current_block by metis
  let ?parent = "function_list p ! current_function p"
  have inb: "current_function p < length (function_list p)"
  proof (rule ccontr)
    assume "\<not> current_function p < length (function_list p)"
    then have "return_statement X loc sect p = Out_of_bounds"
      by (simp add: return_statement_def)
    with r show False by simp
  qed
  show ?thesis
  proof (cases "peek (punct CHR '';'') p")
    case True
    have v: "is_void (return_type ?parent)"
    proof (rule ccontr)
      assume "\<not> is_void (return_type ?parent)"
      with True inb have "\<exists>q. return_statement X loc sect p = Returns (False, sect, q)"
        by (simp add: return_statement_def Let_def)
      with r show False by auto
    qed
    obtain s1 q1 where l: "leave_block_and_return sect 0 p = (s1, q1)"
      by (cases "leave_block_and_return sect 0 p")
    obtain ok q2 where e: "expect (punct CHR '';'') q1 = (ok, q2)"
      by (cases "expect (punct CHR '';'') q1")
    from inb True v l e have "return_statement X loc sect p = Returns (ok, s1, q2)"
      by (simp add: return_statement_def Let_def)
    with r have "p' = q2" by simp
    with tail [OF l e] show ?thesis by simp
  next
    case False
    obtain ok e s1 p1 where pe: "parse_expression X sect p = (ok, e, s1, p1)"
      by (cases "parse_expression X sect p") auto
    have ok: "ok"
    proof (rule ccontr)
      assume "\<not> ok"
      with False inb pe have "\<exists>q. return_statement X loc sect p = Returns (False, s1, q)"
        by (simp add: return_statement_def Let_def)
      with r show False by auto
    qed
    have nv: "\<not> is_void (return_type ?parent)"
    proof
      assume "is_void (return_type ?parent)"
      with False inb pe ok have "\<exists>q. return_statement X loc sect p = Returns (False, s1, q)"
        by (simp add: return_statement_def Let_def)
      with r show False by auto
    qed
    have nr: "\<not> (is_array (exp_type e) \<or> rank X (exp_type e) (return_type ?parent) = 0)"
    proof
      assume "is_array (exp_type e) \<or> rank X (exp_type e) (return_type ?parent) = 0"
      with False inb pe ok nv
      have "\<exists>q. return_statement X loc sect p = Returns (False, s1, q)"
        by (simp add: return_statement_def Let_def)
      with r show False by auto
    qed
    let ?p2 = "if components X (return_type ?parent) < components X (exp_type e)
               then warning (exp_location e) 3206 [Text ''implicit truncation of vector type''] p1
               else p1"
    obtain rv s2 p3 where ld: "access_chain_load X s1
        (add_cast_operation X e (return_type ?parent)) ?p2 = (rv, s2, p3)"
      by (cases "access_chain_load X s1 (add_cast_operation X e (return_type ?parent)) ?p2") auto
    obtain s3 p4 where l: "leave_block_and_return s2 rv p3 = (s3, p4)"
      by (cases "leave_block_and_return s2 rv p3")
    obtain ok' p5 where ex: "expect (punct CHR '';'') p4 = (ok', p5)"
      by (cases "expect (punct CHR '';'') p4")
    from False inb pe ok nv nr ld l ex
    have "return_statement X loc sect p = Returns (ok', s3, p5)"
      by (simp add: return_statement_def Let_def)
    with r have "p' = p5" by simp
    with tail [OF l ex] show ?thesis by simp
  qed
qed

lemma statement_guard:
  "current_block p = 0 \<Longrightarrow>
     parse_statement (Suc n) X sect scoped p =
       Returns (False, sect,
         error (tok_location (token_next p)) 3000
           [Text ''statements are valid only inside a code block''] p)"
  by (simp add: parse_statement_body_def)

lemma terminator_closes:
  assumes "current_block p \<noteq> 0" and "current_function p \<noteq> size_t_max"
    and "peek tok_break p \<or> peek tok_continue p \<or> peek tok_return p \<or> peek tok_discard p"
    and "parse_statement (Suc n) X sect scoped p = Returns (True, sect', p')"
  shows "current_block p' = 0"
proof -
  from assms(3) have na: "\<not> peek (punct CHR ''['') p" by (auto simp: peek_def)
  from assms(3) have nb: "\<not> peek (punct CHR ''{'') p" "\<not> peek (punct CHR '';'') p"
    "\<not> peek tok_if p" "\<not> peek tok_switch p" "\<not> peek tok_for p" "\<not> peek tok_while p"
    "\<not> peek tok_do p"
    by (auto simp: peek_def)
  have sf: "statement_in_function n X (parse_statement n X) 0 0 sect p
              = Some (Returns (True, sect', p'))"
  proof -
    have some: "statement_in_function n X (parse_statement n X) 0 0 sect p \<noteq> None"
      using assms(3) by (auto simp: statement_in_function_def Let_def split: prod.splits)
    show ?thesis
      using assms(1,2,4) na nb some
      by (auto simp: parse_statement_body_def parse_attributes_none [OF na])
  qed
  from assms(3) consider (b) "peek tok_break p" | (c) "peek tok_continue p"
    | (r) "peek tok_return p" | (d) "peek tok_discard p" by blast
  then show ?thesis
  proof cases
    case b
    with sf nb show ?thesis
      by (auto simp: statement_in_function_def Let_def split: if_splits prod.splits
          dest!: leave_block_and_branch_closes expect_current_block)
  next
    case c
    then have "\<not> peek tok_break p" by (auto simp: peek_def)
    with c sf nb show ?thesis
      by (auto simp: statement_in_function_def Let_def split: if_splits prod.splits
          dest!: leave_block_and_branch_closes expect_current_block)
  next
    case r
    then have "\<not> peek tok_break p" "\<not> peek tok_continue p" by (auto simp: peek_def)
    with r sf nb have "return_statement X (tok_location (token_next p)) sect (consume p)
        = Returns (True, sect', p')"
      by (simp add: statement_in_function_def Let_def)
    then show ?thesis by (rule return_statement_closes)
  next
    case d
    then have "\<not> peek tok_break p" "\<not> peek tok_continue p" "\<not> peek tok_return p"
      by (auto simp: peek_def)
    with d sf nb show ?thesis
      by (auto simp: statement_in_function_def Let_def split: if_splits prod.splits
          dest!: leave_block_and_kill_closes expect_current_block)
  qed
qed

lemma consume_until_keeps_break_stack:
  "loop_break_target_stack (consume_until t p) = loop_break_target_stack p"
proof (induction t p rule: consume_until.induct)
  case (1 tokid p)
  show ?case
  proof (cases "peek tokid p")
    case True
    then show ?thesis by (simp add: consume_until.simps [of tokid p] accept_def)
  next
    case False
    then have a: "accept tokid p = (False, p)" by (simp add: accept_def)
    show ?thesis
    proof (cases "peek end_of_file p")
      case True
      with a show ?thesis by (simp add: consume_until.simps [of tokid p])
    next
      case eof: False
      from "1.IH" [OF a [symmetric] refl eof]
      have "loop_break_target_stack (consume_until tokid (consume p))
              = loop_break_target_stack (consume p)" .
      with a eof show ?thesis by (simp add: consume_until.simps [of tokid p])
    qed
  qed
qed

lemma switch_body_guard:
  assumes "current_block p = 0" and "\<not> peek (punct CHR ''}'') p" and "\<not> peek end_of_file p"
    and "\<not> peek tok_case p" and "\<not> peek tok_default p"
  shows "parse_switch_body (Suc k) (Suc m) X (parse_statement (Suc n) X) current_blk st p =
          Returns (False, st,
            consume_until (punct CHR ''}'')
              (error (tok_location (token_next p)) 3000
                 [Text ''statements are valid only inside a code block''] p))"
proof -
  obtain body default_label lits num where st: "st = (body, default_label, lits, num)"
    by (cases st) auto
  have cl: "parse_case_labels (Suc m) X current_blk (body, default_label, lits, num) p
      = Returns (True, (body, default_label, lits, num), p)"
    using assms by (simp add: accept_def)
  show ?thesis
    using assms unfolding st
    by (simp add: cl statement_guard del: parse_statement.simps parse_case_labels.simps)
qed

lemma switch_header_closes:
  assumes h1: "expect (punct CHR ''('') (snd (make_id p)) = (True, p2)"
    and h2: "parse_expression X sect p2 = (True, selector, sect1, p3)"
    and h3: "expect (punct CHR '')'') p3 = (True, p4)"
    and h4: "is_scalar (exp_type selector)"
    and h5: "access_chain_load X sect1 (add_cast_operation X selector int_scalar_type) p4
               = (selector_value, sect2, p5)"
    and h6: "peek (punct CHR ''{'') p5"
    and q: "q = (consume (p5\<lparr>current_block := 0\<rparr>))
                  \<lparr>loop_break_target_stack := loop_break_target_stack p5 @ [next_id p]\<rparr>"
    and n1: "\<not> peek (punct CHR ''}'') q" and n2: "\<not> peek end_of_file q"
    and n3: "\<not> peek tok_case q" and n4: "\<not> peek tok_default q"
  shows "switch_statement (Suc k) X (parse_statement (Suc n) X) loc sc sect p =
     Returns (False,
       sect2 @ [\<lparr>op = OpSelectionMerge, result_type = 0, result = 0,
                  operands = [next_id p, unat sc], ins_location = loc\<rparr>,
                \<lparr>op = OpSwitch, result_type = 0, result = 0,
                  operands = [selector_value], ins_location = loc\<rparr>],
       (consume_until (punct CHR ''}'')
          (error (tok_location (token_next q)) 3000
             [Text ''statements are valid only inside a code block''] q))
         \<lparr>loop_break_target_stack := loop_break_target_stack p5\<rparr>)"
proof -
  have mk: "make_id p = (next_id p, p\<lparr>next_id := next_id p + 1\<rparr>)" by (simp add: make_id_def)
  have h1': "expect (punct CHR ''('') (p\<lparr>next_id := next_id p + 1\<rparr>) = (True, p2)"
    using h1 by (simp add: make_id_def)
  have e6: "expect (punct CHR ''{'') (p5\<lparr>current_block := 0\<rparr>)
              = (True, consume (p5\<lparr>current_block := 0\<rparr>))"
    using h6 by (simp add: expect_def accept_def peek_def)
  have cb: "current_block q = 0" by (simp add: q)
  let ?err = "consume_until (punct CHR ''}'')
          (error (tok_location (token_next q)) 3000
             [Text ''statements are valid only inside a code block''] q)"
  have body: "parse_switch_body (Suc k) (Suc k) X (parse_statement (Suc n) X) 0
                ([], next_id p, [], 0) q = Returns (False, ([], next_id p, [], 0), ?err)"
    by (rule switch_body_guard [OF cb n1 n2 n3 n4])
  have st: "loop_break_target_stack ?err = loop_break_target_stack p5 @ [next_id p]"
    by (simp add: consume_until_keeps_break_stack error_def q)
  have pop: "pop_break_target ?err
               = Some (?err\<lparr>loop_break_target_stack := loop_break_target_stack p5\<rparr>)"
    by (simp add: pop_break_target_def st)
  show ?thesis
    unfolding switch_statement_def mk
    using h1' h2 h3 h4 h5 e6 body pop
    by (simp add: Let_def q [symmetric] add_node_without_result_def
        del: parse_statement.simps parse_switch_body.simps)
qed

lemma switch_statement_dispatch:
  assumes "current_block p \<noteq> 0" and "current_function p \<noteq> size_t_max"
    and "peek tok_switch p"
  shows "parse_statement (Suc (Suc k)) X sect scoped p =
           switch_statement (Suc k) X (parse_statement (Suc k) X)
             (tok_location (token_next p)) 0 sect (consume p)"
proof -
  from assms(3) have na: "\<not> peek (punct CHR ''['') p" by (auto simp: peek_def)
  from assms(3) have nb: "\<not> peek (punct CHR ''{'') p" "\<not> peek (punct CHR '';'') p"
    "\<not> peek tok_if p"
    by (auto simp: peek_def)
  have "parse_statement (Suc (Suc k)) X sect scoped p =
          parse_statement_body (Suc k) X (parse_statement (Suc k) X) sect scoped p"
    by simp
  also have "\<dots> = switch_statement (Suc k) X (parse_statement (Suc k) X)
             (tok_location (token_next p)) 0 sect (consume p)"
    using assms nb
    by (simp add: parse_statement_body_def parse_attributes_none [OF na]
        statement_in_function_def Let_def
        del: parse_statement.simps)
  finally show ?thesis .
qed

text \<open>
  C9: \<open>parse_statement\<close> entered with \<open>_current_block == 0\<close> fails with error 3000
  "statements are valid only inside a code block"; it reads no token and emits nothing.
  Consequently: (1) in the loop of \<open>parse_statement_block\<close>, when the block is closed and
  a further statement follows (the next token is neither \<open>}\<close> nor the end of the input),
  that statement is this error and the loop fails; (2) a \<open>break\<close>, \<open>continue\<close>, \<open>return\<close>
  or \<open>discard\<close> statement that succeeds leaves the block closed; (3) in the loop over the
  body of a switch, entered with \<open>_current_block == 0\<close>, a statement that no \<open>case\<close> or
  \<open>default\<close> label precedes is this error, and the loop fails; (4) a \<open>switch\<close> statement
  whose header is accepted (the selector \<open>selector\<close> is a scalar, loaded as
  \<open>selector_value\<close>, and \<open>{\<close> follows) closes the block, so that when the first thing in
  its body is a statement and not a label, \<open>parse_statement\<close> fails on the whole switch
  with this one error more, after the \<open>OpSelectionMerge\<close> and the \<open>OpSwitch\<close> were
  emitted; (5) in a block, a statement that follows a \<open>break\<close>, \<open>continue\<close>, \<open>return\<close> or
  \<open>discard\<close> statement which succeeded is this error: the loop of the block fails with
  what the terminator emitted and the error added to its state.
\<close>

theorem statement_needs_open_block:
  "(current_block p = 0 \<longrightarrow>
      parse_statement (Suc n) X sect scoped p =
        Returns (False, sect,
          error (tok_location (token_next p)) 3000
            [Text ''statements are valid only inside a code block''] p))
   \<and> (current_block p = 0 \<and> \<not> peek (punct CHR ''}'') p \<and> \<not> peek end_of_file p \<longrightarrow>
        statement_block_loop (Suc k) (parse_statement (Suc n) X) sect p =
          Returns (False, sect,
            error (tok_location (token_next p)) 3000
              [Text ''statements are valid only inside a code block''] p))
   \<and> (current_block p \<noteq> 0 \<and> current_function p \<noteq> size_t_max
        \<and> (peek tok_break p \<or> peek tok_continue p \<or> peek tok_return p \<or> peek tok_discard p)
        \<and> parse_statement (Suc n) X sect scoped p = Returns (True, sect', p')
        \<longrightarrow> current_block p' = 0)
   \<and> (current_block p = 0 \<and> \<not> peek (punct CHR ''}'') p \<and> \<not> peek end_of_file p
        \<and> \<not> peek tok_case p \<and> \<not> peek tok_default p \<longrightarrow>
        parse_switch_body (Suc k) (Suc m) X (parse_statement (Suc n) X) current_blk st p =
          Returns (False, st,
            consume_until (punct CHR ''}'')
              (error (tok_location (token_next p)) 3000
                 [Text ''statements are valid only inside a code block''] p)))
   \<and> (current_block p \<noteq> 0 \<and> current_function p \<noteq> size_t_max \<and> peek tok_switch p
        \<and> expect (punct CHR ''('') (snd (make_id (consume p))) = (True, p2)
        \<and> parse_expression X sect p2 = (True, selector, sect1, p3)
        \<and> expect (punct CHR '')'') p3 = (True, p4)
        \<and> is_scalar (exp_type selector)
        \<and> access_chain_load X sect1 (add_cast_operation X selector int_scalar_type) p4
            = (selector_value, sect2, p5)
        \<and> peek (punct CHR ''{'') p5
        \<and> q = (consume (p5\<lparr>current_block := 0\<rparr>))
                \<lparr>loop_break_target_stack :=
                   loop_break_target_stack p5 @ [next_id (consume p)]\<rparr>
        \<and> \<not> peek (punct CHR ''}'') q \<and> \<not> peek end_of_file q
        \<and> \<not> peek tok_case q \<and> \<not> peek tok_default q \<longrightarrow>
        parse_statement (Suc (Suc n)) X sect scoped p =
          Returns (False,
            sect2 @ [\<lparr>op = OpSelectionMerge, result_type = 0, result = 0,
                       operands = [next_id (consume p), 0],
                       ins_location = tok_location (token_next p)\<rparr>,
                     \<lparr>op = OpSwitch, result_type = 0, result = 0,
                       operands = [selector_value],
                       ins_location = tok_location (token_next p)\<rparr>],
            (consume_until (punct CHR ''}'')
               (error (tok_location (token_next q)) 3000
                  [Text ''statements are valid only inside a code block''] q))
              \<lparr>loop_break_target_stack := loop_break_target_stack p5\<rparr>))
   \<and> (current_block p \<noteq> 0 \<and> current_function p \<noteq> size_t_max
        \<and> (peek tok_break p \<or> peek tok_continue p \<or> peek tok_return p \<or> peek tok_discard p)
        \<and> parse_statement (Suc n) X sect True p = Returns (True, sect', p')
        \<and> \<not> peek (punct CHR ''}'') p' \<and> \<not> peek end_of_file p' \<longrightarrow>
        statement_block_loop (Suc (Suc k)) (parse_statement (Suc n) X) sect p =
          Returns (False, sect',
            error (tok_location (token_next p')) 3000
              [Text ''statements are valid only inside a code block''] p'))"
proof (intro conjI impI)
  assume "current_block p = 0"
  then show "parse_statement (Suc n) X sect scoped p =
        Returns (False, sect,
          error (tok_location (token_next p)) 3000
            [Text ''statements are valid only inside a code block''] p)"
    by (rule statement_guard)
next
  assume a: "current_block p = 0 \<and> \<not> peek (punct CHR ''}'') p \<and> \<not> peek end_of_file p"
  then show "statement_block_loop (Suc k) (parse_statement (Suc n) X) sect p =
          Returns (False, sect,
            error (tok_location (token_next p)) 3000
              [Text ''statements are valid only inside a code block''] p)"
    by (simp add: statement_guard del: parse_statement.simps)
next
  assume "current_block p \<noteq> 0 \<and> current_function p \<noteq> size_t_max
        \<and> (peek tok_break p \<or> peek tok_continue p \<or> peek tok_return p \<or> peek tok_discard p)
        \<and> parse_statement (Suc n) X sect scoped p = Returns (True, sect', p')"
  then show "current_block p' = 0"
    using terminator_closes [of p n X sect scoped sect' p'] by blast
next
  assume a: "current_block p = 0 \<and> \<not> peek (punct CHR ''}'') p \<and> \<not> peek end_of_file p
        \<and> \<not> peek tok_case p \<and> \<not> peek tok_default p"
  then show "parse_switch_body (Suc k) (Suc m) X (parse_statement (Suc n) X) current_blk st p =
          Returns (False, st,
            consume_until (punct CHR ''}'')
              (error (tok_location (token_next p)) 3000
                 [Text ''statements are valid only inside a code block''] p))"
    using switch_body_guard [of p k m X n current_blk st] by blast
next
  assume a: "current_block p \<noteq> 0 \<and> current_function p \<noteq> size_t_max \<and> peek tok_switch p
        \<and> expect (punct CHR ''('') (snd (make_id (consume p))) = (True, p2)
        \<and> parse_expression X sect p2 = (True, selector, sect1, p3)
        \<and> expect (punct CHR '')'') p3 = (True, p4)
        \<and> is_scalar (exp_type selector)
        \<and> access_chain_load X sect1 (add_cast_operation X selector int_scalar_type) p4
            = (selector_value, sect2, p5)
        \<and> peek (punct CHR ''{'') p5
        \<and> q = (consume (p5\<lparr>current_block := 0\<rparr>))
                \<lparr>loop_break_target_stack :=
                   loop_break_target_stack p5 @ [next_id (consume p)]\<rparr>
        \<and> \<not> peek (punct CHR ''}'') q \<and> \<not> peek end_of_file q
        \<and> \<not> peek tok_case q \<and> \<not> peek tok_default q"
  then have d: "parse_statement (Suc (Suc n)) X sect scoped p =
           switch_statement (Suc n) X (parse_statement (Suc n) X)
             (tok_location (token_next p)) 0 sect (consume p)"
    using switch_statement_dispatch [of p n X sect scoped] by blast
  from a have "switch_statement (Suc n) X (parse_statement (Suc n) X)
             (tok_location (token_next p)) 0 sect (consume p) =
          Returns (False,
            sect2 @ [\<lparr>op = OpSelectionMerge, result_type = 0, result = 0,
                       operands = [next_id (consume p), unat (0 :: 32 word)],
                       ins_location = tok_location (token_next p)\<rparr>,
                     \<lparr>op = OpSwitch, result_type = 0, result = 0,
                       operands = [selector_value],
                       ins_location = tok_location (token_next p)\<rparr>],
            (consume_until (punct CHR ''}'')
               (error (tok_location (token_next q)) 3000
                  [Text ''statements are valid only inside a code block''] q))
              \<lparr>loop_break_target_stack := loop_break_target_stack p5\<rparr>)"
    using switch_header_closes [of "consume p" p2 X sect selector sect1 p3 p4 selector_value
        sect2 p5 q n n "tok_location (token_next p)" 0]
    by blast
  with d show "parse_statement (Suc (Suc n)) X sect scoped p =
          Returns (False,
            sect2 @ [\<lparr>op = OpSelectionMerge, result_type = 0, result = 0,
                       operands = [next_id (consume p), 0],
                       ins_location = tok_location (token_next p)\<rparr>,
                     \<lparr>op = OpSwitch, result_type = 0, result = 0,
                       operands = [selector_value],
                       ins_location = tok_location (token_next p)\<rparr>],
            (consume_until (punct CHR ''}'')
               (error (tok_location (token_next q)) 3000
                  [Text ''statements are valid only inside a code block''] q))
              \<lparr>loop_break_target_stack := loop_break_target_stack p5\<rparr>)"
    by simp
next
  assume a: "current_block p \<noteq> 0 \<and> current_function p \<noteq> size_t_max
        \<and> (peek tok_break p \<or> peek tok_continue p \<or> peek tok_return p \<or> peek tok_discard p)
        \<and> parse_statement (Suc n) X sect True p = Returns (True, sect', p')
        \<and> \<not> peek (punct CHR ''}'') p' \<and> \<not> peek end_of_file p'"
  then have cb: "current_block p' = 0"
    using terminator_closes [of p n X sect True sect' p'] by blast
  from a have np: "\<not> peek (punct CHR ''}'') p" "\<not> peek end_of_file p"
    by (auto simp: peek_def)
  have g: "parse_statement (Suc n) X sect' True p' =
        Returns (False, sect',
          error (tok_location (token_next p')) 3000
            [Text ''statements are valid only inside a code block''] p')"
    using cb by (rule statement_guard)
  from a have r: "parse_statement (Suc n) X sect True p = Returns (True, sect', p')"
    and np': "\<not> peek (punct CHR ''}'') p'" "\<not> peek end_of_file p'" by blast+
  show "statement_block_loop (Suc (Suc k)) (parse_statement (Suc n) X) sect p =
          Returns (False, sect',
            error (tok_location (token_next p')) 3000
              [Text ''statements are valid only inside a code block''] p')"
    using np np' r g by (simp del: parse_statement.simps)
qed

text \<open>
  The parts at concrete inputs, and three statements as wholes: in the block
  \<open>{ discard; ; }\<close> and in the block \<open>{ return; ; }\<close> of a \<open>void\<close> function the empty
  statement behind the terminator is reported as error 3000 and the block fails; in
  \<open>switch (e) { ; }\<close> the empty statement in front of any label is reported as error 3000
  and the switch fails.
\<close>

theorem statement_needs_open_block_witness:
  "(case parse_statement (Suc 0) example_externals [] True
           ((in_function [tok (punct CHR '';'')])\<lparr>current_block := 0\<rparr>) of
      Returns (ok, s, p') \<Rightarrow>
        \<not> ok \<and> s = [] \<and> map diag_code (errors p') = [3000]
        \<and> map diag_severity (errors p') = [severity_error]
        \<and> peek (punct CHR '';'') p'
    | _ \<Rightarrow> False)
   \<and> (case statement_block_loop (Suc 0) (parse_statement (Suc 0) example_externals) []
           ((in_function [tok (punct CHR '';'')])\<lparr>current_block := 0\<rparr>) of
      Returns (ok, s, p') \<Rightarrow> \<not> ok \<and> map diag_code (errors p') = [3000]
    | _ \<Rightarrow> False)
   \<and> (\<exists>s' p'. parse_statement (Suc 0) example_externals [] True
                  (in_function [tok tok_discard, tok (punct CHR '';'')])
                = Returns (True, s', p')
              \<and> map op s' = [OpKill] \<and> current_block p' = 0)
   \<and> (case parse_switch_body (Suc 0) (Suc 0) example_externals
             (parse_statement (Suc 0) example_externals) 0 ([], 5, [], 0)
             ((in_function [tok (punct CHR '';''), tok (punct CHR ''}'')])
                \<lparr>current_block := 0\<rparr>) of
      Returns (ok, st, p') \<Rightarrow>
        \<not> ok \<and> map diag_code (errors p') = [3000] \<and> peek end_of_file p'
    | _ \<Rightarrow> False)
   \<and> (case parse_statement (Suc (Suc (Suc (Suc 0)))) example_externals [] False
           (in_function [tok (punct CHR ''{''), tok tok_discard, tok (punct CHR '';''),
                         tok (punct CHR '';''), tok (punct CHR ''}'')]) of
      Returns (ok, s, p') \<Rightarrow>
        \<not> ok \<and> map op s = [OpKill] \<and> map diag_code (errors p') = [3000]
        \<and> peek end_of_file p'
    | _ \<Rightarrow> False)
   \<and> (case parse_statement (Suc (Suc 0)) example_externals [] True
           (in_function [tok tok_switch, tok (punct CHR ''(''), tok (other_token 0),
                         tok (punct CHR '')''), tok (punct CHR ''{''), tok (punct CHR '';''),
                         tok (punct CHR ''}'')]) of
      Returns (ok, s, p') \<Rightarrow>
        \<not> ok \<and> map op s = [OpSelectionMerge, OpSwitch]
        \<and> map diag_code (errors p') = [3000]
        \<and> map diag_message (errors p')
            = [[Text ''statements are valid only inside a code block'']]
        \<and> peek end_of_file p' \<and> loop_break_target_stack p' = []
    | _ \<Rightarrow> False)
   \<and> (case statement_block_loop (Suc (Suc 0)) (parse_statement (Suc 0) example_externals) []
           (in_function [tok tok_return, tok (punct CHR '';''), tok (punct CHR '';''),
                         tok (punct CHR ''}'')]) of
      Returns (ok, s, p') \<Rightarrow>
        \<not> ok \<and> map op s = [OpReturn] \<and> map diag_code (errors p') = [3000]
        \<and> peek (punct CHR '';'') p'
    | _ \<Rightarrow> False)"
proof -
  let ?z = "(in_function [tok (punct CHR '';'')])\<lparr>current_block := 0\<rparr>"
  let ?z2 = "(in_function [tok (punct CHR '';''), tok (punct CHR ''}'')])\<lparr>current_block := 0\<rparr>"
  let ?d = "in_function [tok tok_discard, tok (punct CHR '';'')]"
  let ?sw = "in_function [tok tok_switch, tok (punct CHR ''(''), tok (other_token 0),
                         tok (punct CHR '')''), tok (punct CHR ''{''), tok (punct CHR '';''),
                         tok (punct CHR ''}'')]"
  let ?rt = "in_function [tok tok_return, tok (punct CHR '';''), tok (punct CHR '';''),
                         tok (punct CHR ''}'')]"
  note defs = in_function_def start_parser_def consume_def tok_def peek_def size_t_max_def
    error_def eof_token_def
  have z: "current_block ?z = 0" "\<not> peek (punct CHR ''}'') ?z" "\<not> peek end_of_file ?z"
    by (simp_all add: defs)
  have z2: "current_block ?z2 = 0 \<and> \<not> peek (punct CHR ''}'') ?z2 \<and> \<not> peek end_of_file ?z2
    \<and> \<not> peek tok_case ?z2 \<and> \<not> peek tok_default ?z2"
    by (simp add: defs)
  note t1 = statement_needs_open_block [where p = ?z and n = 0 and X = example_externals
      and sect = "[]" and scoped = True,
      THEN conjunct1, rule_format, OF z(1)]
  note t2 = statement_needs_open_block [where p = ?z and n = 0 and X = example_externals
      and sect = "[]" and k = 0,
      THEN conjunct2, THEN conjunct1, rule_format, OF conjI [OF z(1) conjI [OF z(2,3)]]]
  note t4 = statement_needs_open_block [where p = ?z2 and n = 0 and X = example_externals
      and k = 0 and m = 0 and current_blk = 0 and st = "([], 5, [], 0)",
      THEN conjunct2, THEN conjunct2, THEN conjunct2, THEN conjunct1, rule_format, OF z2]
  have r1: "case parse_statement (Suc 0) example_externals [] True ?z of
      Returns (ok, s, p') \<Rightarrow>
        \<not> ok \<and> s = [] \<and> map diag_code (errors p') = [3000]
        \<and> map diag_severity (errors p') = [severity_error]
        \<and> peek (punct CHR '';'') p'
    | _ \<Rightarrow> False"
    unfolding t1 by (simp add: defs)
  have r2: "case statement_block_loop (Suc 0) (parse_statement (Suc 0) example_externals) [] ?z of
      Returns (ok, s, p') \<Rightarrow> \<not> ok \<and> map diag_code (errors p') = [3000]
    | _ \<Rightarrow> False"
    unfolding t2 by (simp add: defs)
  have r4: "case parse_switch_body (Suc 0) (Suc 0) example_externals
             (parse_statement (Suc 0) example_externals) 0 ([], 5, [], 0) ?z2 of
      Returns (ok, st, p') \<Rightarrow>
        \<not> ok \<and> map diag_code (errors p') = [3000] \<and> peek end_of_file p'
    | _ \<Rightarrow> False"
    unfolding t4 by (simp add: defs accept_def consume_until.simps)
  have na: "\<not> peek (punct CHR ''['') ?d" by (simp add: defs)
  have d: "current_block ?d \<noteq> 0" "current_function ?d \<noteq> size_t_max" "peek tok_discard ?d"
    by (simp_all add: defs)
  obtain s' p' where ev: "parse_statement (Suc 0) example_externals [] True ?d
      = Returns (True, s', p')" and ops: "map op s' = [OpKill]"
    using d
    by (simp add: parse_statement_body_def parse_attributes.simps
        statement_in_function_def leave_block_and_kill_def add_node_without_result_def
        expect_def accept_def defs Let_def)
  from statement_needs_open_block [where p = ?d and n = 0 and X = example_externals
      and sect = "[]" and scoped = True and sect' = s' and p' = p',
      THEN conjunct2, THEN conjunct2, THEN conjunct1] d ev
  have cb: "current_block p' = 0" by blast
  have r3: "\<exists>s' p'. parse_statement (Suc 0) example_externals [] True ?d = Returns (True, s', p')
              \<and> map op s' = [OpKill] \<and> current_block p' = 0"
  proof (intro exI conjI)
    show "parse_statement (Suc 0) example_externals [] True ?d = Returns (True, s', p')"
      by (fact ev)
    show "map op s' = [OpKill]" by (fact ops)
    show "current_block p' = 0" by (fact cb)
  qed
  have r5: "case parse_statement (Suc (Suc (Suc (Suc 0)))) example_externals [] False
           (in_function [tok (punct CHR ''{''), tok tok_discard, tok (punct CHR '';''),
                         tok (punct CHR '';''), tok (punct CHR ''}'')]) of
      Returns (ok, s, p') \<Rightarrow>
        \<not> ok \<and> map op s = [OpKill] \<and> map diag_code (errors p') = [3000]
        \<and> peek end_of_file p'
    | _ \<Rightarrow> False"
    by (simp add: parse_statement_body_def parse_attributes.simps parse_statement_block_def
        statement_in_function_def leave_block_and_kill_def add_node_without_result_def
        expect_def accept_def defs Let_def skip_rest_of_block.simps)
  let ?p2 = "consume ((consume ?sw)\<lparr>next_id := 3\<rparr>)"
  let ?p4 = "consume (consume ?p2)"
  let ?q = "(consume (?p4\<lparr>current_block := 0\<rparr>))
              \<lparr>loop_break_target_stack :=
                 loop_break_target_stack ?p4 @ [next_id (consume ?sw)]\<rparr>"
  have sw: "current_block ?sw \<noteq> 0 \<and> current_function ?sw \<noteq> size_t_max \<and> peek tok_switch ?sw
        \<and> expect (punct CHR ''('') (snd (make_id (consume ?sw))) = (True, ?p2)
        \<and> parse_expression example_externals [] ?p2
            = (True, float_constant 0x3FC00000, [], consume ?p2)
        \<and> expect (punct CHR '')'') (consume ?p2) = (True, ?p4)
        \<and> is_scalar (exp_type (float_constant 0x3FC00000))
        \<and> access_chain_load example_externals []
             (add_cast_operation example_externals (float_constant 0x3FC00000) int_scalar_type)
             ?p4 = (7, [], ?p4)
        \<and> peek (punct CHR ''{'') ?p4
        \<and> ?q = ?q
        \<and> \<not> peek (punct CHR ''}'') ?q \<and> \<not> peek end_of_file ?q
        \<and> \<not> peek tok_case ?q \<and> \<not> peek tok_default ?q"
    by (simp add: defs make_id_def expect_def accept_def example_externals_def
        float_constant_def float_scalar_type_def is_scalar_def is_numeric_def is_array_def
        is_vector_def is_matrix_def)
  note t5 = statement_needs_open_block [where p = ?sw and n = 0 and X = example_externals
      and sect = "[]" and scoped = True and ?p2.0 = ?p2
      and selector = "float_constant 0x3FC00000" and ?sect1.0 = "[]" and ?p3.0 = "consume ?p2"
      and ?p4.0 = ?p4 and selector_value = 7 and ?sect2.0 = "[]" and ?p5.0 = ?p4 and q = ?q,
      THEN conjunct2, THEN conjunct2, THEN conjunct2, THEN conjunct2, THEN conjunct1,
      rule_format, OF sw]
  have r6: "case parse_statement (Suc (Suc 0)) example_externals [] True ?sw of
      Returns (ok, s, p') \<Rightarrow>
        \<not> ok \<and> map op s = [OpSelectionMerge, OpSwitch]
        \<and> map diag_code (errors p') = [3000]
        \<and> map diag_message (errors p')
            = [[Text ''statements are valid only inside a code block'']]
        \<and> peek end_of_file p' \<and> loop_break_target_stack p' = []
    | _ \<Rightarrow> False"
    unfolding t5 by (simp add: defs accept_def consume_until.simps)
  have rt: "current_block ?rt \<noteq> 0" "current_function ?rt \<noteq> size_t_max" "peek tok_return ?rt"
    by (simp_all add: defs)
  obtain s2 q2 where ev2: "parse_statement (Suc 0) example_externals [] True ?rt
      = Returns (True, s2, q2)" and ops2: "map op s2 = [OpReturn]"
    and nx: "peek (punct CHR '';'') q2" and er: "errors q2 = []"
    using rt
    by (simp add: parse_statement_body_def parse_attributes.simps
        statement_in_function_def return_statement_def leave_block_and_return_def
        add_node_without_result_def void_type_def is_void_def
        expect_def accept_def defs Let_def)
  from nx have nx': "\<not> peek (punct CHR ''}'') q2" "\<not> peek end_of_file q2"
    by (auto simp: peek_def)
  from rt ev2 nx'
  have h7: "current_block ?rt \<noteq> 0 \<and> current_function ?rt \<noteq> size_t_max
        \<and> (peek tok_break ?rt \<or> peek tok_continue ?rt \<or> peek tok_return ?rt
             \<or> peek tok_discard ?rt)
        \<and> parse_statement (Suc 0) example_externals [] True ?rt = Returns (True, s2, q2)
        \<and> \<not> peek (punct CHR ''}'') q2 \<and> \<not> peek end_of_file q2"
    by blast
  note t7 = statement_needs_open_block [where p = ?rt and n = 0 and X = example_externals
      and sect = "[]" and k = 0 and sect' = s2 and p' = q2,
      THEN conjunct2, THEN conjunct2, THEN conjunct2, THEN conjunct2, THEN conjunct2,
      rule_format, OF h7]
  have r7: "case statement_block_loop (Suc (Suc 0)) (parse_statement (Suc 0) example_externals) []
           ?rt of
      Returns (ok, s, p') \<Rightarrow>
        \<not> ok \<and> map op s = [OpReturn] \<and> map diag_code (errors p') = [3000]
        \<and> peek (punct CHR '';'') p'
    | _ \<Rightarrow> False"
    unfolding t7 using ops2 nx er by (simp add: error_def peek_def)
  from r1 r2 r3 r4 r5 r6 r7 show ?thesis by blast
qed

subsection \<open>C10: the literal of a \<open>case\<close> label\<close>

lemma case_labels_run:
  assumes "label_run X body p steps" and "label_run_end body p steps = (body', p')"
    and "\<not> peek tok_case p'" and "\<not> peek tok_default p'"
  shows "parse_case_labels (Suc (length steps + k)) X blk (body, default_label, lits, num) p =
           Returns (True,
             (body', default_label, lits @ raw_lane_literals blk (map fst steps),
              num + length steps),
             p')"
  using assms
proof (induction steps arbitrary: body p lits num)
  case Nil
  then show ?case by (simp add: accept_def raw_lane_literals_def)
next
  case (Cons step rest)
  obtain e body1 p2 where step: "step = (e, body1, p2)" by (cases step) auto
  from Cons.prems(1) have pk: "peek tok_case p"
    and pe: "parse_expression X body (consume p) = (True, e, body1, p2)"
    and sc: "is_scalar (exp_type e)" and co: "is_constant e"
    and colon: "peek (punct CHR '':'') p2"
    and rest: "label_run X body1 (consume p2) rest"
    by (simp_all add: step)
  from Cons.prems(2) have fin: "label_run_end body1 (consume p2) rest = (body', p')"
    by (simp add: step)
  have cur: "tok_id (token_cur (consume p)) = tok_case"
    using pk by (simp add: peek_def consume_def split: list.splits)
  have ex: "expect (punct CHR '':'') p2 = (True, consume p2)"
    using colon by (simp add: expect_def accept_def)
  from Cons.IH [OF rest fin Cons.prems(3,4),
      of "lits @ [unat (as_uint (exp_constant e) ! 0), blk]" "num + 1"]
  have ih: "parse_case_labels (Suc (length rest + k)) X blk
              (body1, default_label, lits @ [unat (as_uint (exp_constant e) ! 0), blk], num + 1)
              (consume p2) =
            Returns (True,
              (body', default_label,
               (lits @ [unat (as_uint (exp_constant e) ! 0), blk])
                 @ raw_lane_literals blk (map fst rest),
               num + 1 + length rest),
              p')" .
  have lits: "(lits @ [unat (as_uint (exp_constant e) ! 0), blk])
                 @ raw_lane_literals blk (map fst rest)
              = lits @ raw_lane_literals blk (map fst (step # rest))"
    by (simp add: raw_lane_literals_def step)
  have "parse_case_labels (Suc (length (step # rest) + k)) X blk
          (body, default_label, lits, num) p =
        parse_case_labels (Suc (length rest + k)) X blk
          (body1, default_label, lits @ [unat (as_uint (exp_constant e) ! 0), blk], num + 1)
          (consume p2)"
    using pk cur pe sc co ex
    by (simp add: accept_def Let_def del: parse_case_labels.simps(2)
        add: parse_case_labels.simps(2) [of "Suc (length rest + k)"])
  with ih lits show ?case by simp
qed

lemma switch_with_labels:
  assumes h1: "expect (punct CHR ''('') (snd (make_id p)) = (True, p2)"
    and h2: "parse_expression X sect p2 = (True, selector, sect1, p3)"
    and h3: "expect (punct CHR '')'') p3 = (True, p4)"
    and h4: "is_scalar (exp_type selector)"
    and h5: "access_chain_load X sect1 (add_cast_operation X selector int_scalar_type) p4
               = (selector_value, sect2, p5)"
    and h6: "peek (punct CHR ''{'') p5"
    and q: "q = (consume (p5\<lparr>current_block := 0\<rparr>))
                  \<lparr>loop_break_target_stack := loop_break_target_stack p5 @ [next_id p]\<rparr>"
    and q1: "q1 = q\<lparr>next_id := next_id q + 1, current_block := next_id q\<rparr>"
    and b0: "body0 = [\<lparr>op = OpLabel, result_type = 0, result = next_id q, operands = [],
                       ins_location = no_location\<rparr>]"
    and ne: "steps \<noteq> []"
    and run: "label_run X body0 q1 steps"
    and fin: "label_run_end body0 q1 steps = (body', p')"
    and nl: "\<not> peek tok_case p'" "\<not> peek tok_default p'"
    and st: "rec body' True p' = Returns (True, body3, p3')"
    and cl: "peek (punct CHR ''}'') p3'"
    and bs: "loop_break_target_stack p3' \<noteq> []"
  shows "switch_statement (Suc (Suc (length steps + k))) X rec loc sc sect p =
     Returns (True,
       sect2 @ [\<lparr>op = OpSelectionMerge, result_type = 0, result = 0,
                  operands = [next_id p, unat sc], ins_location = loc\<rparr>,
                \<lparr>op = OpSwitch, result_type = 0, result = 0,
                  operands = selector_value # next_id p
                               # raw_lane_literals (next_id q) (map fst steps),
                  ins_location = loc\<rparr>]
             @ body3
             @ [\<lparr>op = OpLabel, result_type = 0, result = next_id p, operands = [],
                  ins_location = no_location\<rparr>],
       (consume (p3'\<lparr>current_block := next_id p\<rparr>))
         \<lparr>loop_break_target_stack := butlast (loop_break_target_stack p3')\<rparr>)"
proof -
  let ?n = "Suc (length steps + k)"
  have mk: "make_id p = (next_id p, p\<lparr>next_id := next_id p + 1\<rparr>)" by (simp add: make_id_def)
  have h1': "expect (punct CHR ''('') (p\<lparr>next_id := next_id p + 1\<rparr>) = (True, p2)"
    using h1 by (simp add: make_id_def)
  have e6: "expect (punct CHR ''{'') (p5\<lparr>current_block := 0\<rparr>)
              = (True, consume (p5\<lparr>current_block := 0\<rparr>))"
    using h6 by (simp add: expect_def accept_def peek_def)
  obtain e body1 pa rest where steps: "steps = (e, body1, pa) # rest"
    using ne by (cases steps) auto
  have pk1: "peek tok_case q1" using run by (simp add: steps)
  then have pk: "peek tok_case q" by (simp add: q1 peek_def)
  then have nq: "\<not> peek (punct CHR ''}'') q" "\<not> peek end_of_file q" by (auto simp: peek_def)
  have labels: "parse_case_labels (Suc ?n) X (next_id q) (body0, next_id p, [], 0) q1 =
           Returns (True,
             (body', next_id p, [] @ raw_lane_literals (next_id q) (map fst steps),
              0 + length steps), p')"
    using case_labels_run [OF run fin nl, of "Suc k" "next_id q" "next_id p" "[]" 0] by simp
  have second: "parse_switch_body ?n (Suc ?n) X rec (next_id q)
                  (body3, next_id p, raw_lane_literals (next_id q) (map fst steps), length steps) p3'
      = Returns (True,
          (body3, next_id p, raw_lane_literals (next_id q) (map fst steps), length steps), p3')"
    using cl by (simp del: parse_case_labels.simps)
  have q1': "q\<lparr>next_id := Suc (next_id q), current_block := next_id q\<rparr> = q1"
    by (simp add: q1)
  have body: "parse_switch_body (Suc ?n) (Suc ?n) X rec 0 ([], next_id p, [], 0) q =
      Returns (True,
        (body3, next_id p, raw_lane_literals (next_id q) (map fst steps), length steps), p3')"
  proof -
    have "parse_switch_body (Suc ?n) (Suc ?n) X rec 0 ([], next_id p, [], 0) q =
          parse_switch_body ?n (Suc ?n) X rec (next_id q)
            (body3, next_id p, raw_lane_literals (next_id q) (map fst steps), length steps) p3'"
      using nq pk labels st
      by (simp add: parse_switch_body.simps(2) [of ?n] make_id_def enter_block_def Let_def
            q1' b0 [symmetric]
          del: parse_case_labels.simps parse_switch_body.simps)
    also have "\<dots> = Returns (True,
          (body3, next_id p, raw_lane_literals (next_id q) (map fst steps), length steps), p3')"
      using second by simp
    finally show ?thesis .
  qed
  have num: "length steps \<noteq> 0" using ne by simp
  let ?p11 = "p3'\<lparr>current_block := next_id p\<rparr>"
  have e12: "expect (punct CHR ''}'') ?p11 = (True, consume ?p11)"
    using cl by (simp add: expect_def accept_def peek_def)
  have st12: "loop_break_target_stack (consume ?p11) = loop_break_target_stack p3'"
    by simp
  have pop: "pop_break_target (consume ?p11)
      = Some ((consume ?p11)\<lparr>loop_break_target_stack := butlast (loop_break_target_stack p3')\<rparr>)"
    using bs by (simp add: pop_break_target_def st12 del: consume_keeps)
  show ?thesis
    unfolding switch_statement_def mk
    using h1' h2 h3 h4 h5 e6 body num e12 pop
    by (simp add: Let_def q [symmetric] add_node_without_result_def add_to_last_def
          enter_block_def butlast_append
        del: parse_switch_body.simps parse_case_labels.simps)
qed



end
